theory Spec2Isabelle
  imports Main
begin

section \<open>Package status records and the Status Store\<close>

text \<open>
  The download status of a package, \<^verbatim>\<open>CoreConstants.NOT_DOWNLOADED\<close>,
  \<^verbatim>\<open>DOWNLOADING\<close>, \<^verbatim>\<open>DOWNLOADED\<close> and \<^verbatim>\<open>OUTDATED\<close>. The constants file is not
  among the sources; the four values are the ones the data model of the specification
  lists, and the code only ever compares them for equality.
\<close>

datatype Status = NOT_DOWNLOADED | DOWNLOADING | DOWNLOADED | OUTDATED

text \<open>
  One record per key (siteId, component, componentId). The \<open>updated\<close> stamp is a reading
  of a clock, a natural number here.
\<close>

record PackageStatusRecord =
  status :: Status
  previousStatus :: "Status option"
  extra :: "string option"
  updated :: nat

type_synonym package_key = "string \<times> string \<times> nat"

type_synonym StatusStore = "package_key \<rightharpoonup> PackageStatusRecord"

text \<open>Absence of a record is equivalent to \<open>NOT_DOWNLOADED\<close>; an absent record has no extra.\<close>

definition stored_status :: "StatusStore \<Rightarrow> package_key \<Rightarrow> Status" where
  "stored_status st k = (case st k of None \<Rightarrow> NOT_DOWNLOADED | Some r \<Rightarrow> status r)"

definition stored_extra :: "StatusStore \<Rightarrow> package_key \<Rightarrow> string option" where
  "stored_extra st k = (case st k of None \<Rightarrow> None | Some r \<Rightarrow> extra r)"

definition stored_previous :: "StatusStore \<Rightarrow> package_key \<Rightarrow> Status option" where
  "stored_previous st k = (case st k of None \<Rightarrow> None | Some r \<Rightarrow> previousStatus r)"

text \<open>
  Modelled from the spec: the filepool provider that implements the Status Store is not
  among the sources. \<open>setPrevious\<close> "captures current status into previousStatus before
  transitioning to DOWNLOADING; idempotent if already DOWNLOADING". With no record there
  is nothing to capture: \<open>restorePrevious\<close> falls back to \<open>NOT_DOWNLOADED\<close>, which is what
  absence means.
\<close>

definition setPrevious :: "package_key \<Rightarrow> StatusStore \<Rightarrow> StatusStore" where
  "setPrevious k st =
     (case st k of
        None \<Rightarrow> st
      | Some r \<Rightarrow>
          if status r = DOWNLOADING then st
          else st(k \<mapsto> r\<lparr>previousStatus := Some (status r)\<rparr>))"

text \<open>
  Modelled from the spec: \<open>set(siteId, component, componentId, status, extra?)\<close> of the
  Status Store, not among the sources. It "updates the updated timestamp; if this is a
  transition away from DOWNLOADING into DOWNLOADED, the prior previousStatus is cleared".
  The extra payload is optional: when it is left out the stored payload stays (the
  specification's rollback scenario keeps \<open>extra = "v1"\<close> across a failed attempt).
\<close>

definition set_status ::
  "package_key \<Rightarrow> Status \<Rightarrow> string option \<Rightarrow> nat \<Rightarrow> StatusStore \<Rightarrow> StatusStore" where
  "set_status k s ex now st =
     (case st k of
        None \<Rightarrow> st(k \<mapsto> \<lparr>status = s, previousStatus = None, extra = ex, updated = now\<rparr>)
      | Some r \<Rightarrow>
          st(k \<mapsto> r\<lparr>status := s,
                    previousStatus :=
                      (if status r = DOWNLOADING \<and> s = DOWNLOADED then None else previousStatus r),
                    extra := (case ex of None \<Rightarrow> extra r | Some e \<Rightarrow> Some e),
                    updated := now\<rparr>))"

text \<open>
  Modelled from the spec: \<open>restorePrevious\<close> of the Status Store, not among the sources:
  "on failure, sets status back to the captured previousStatus (default NOT_DOWNLOADED if
  none captured)". An absent record already reads as \<open>NOT_DOWNLOADED\<close>.
\<close>

definition restorePrevious :: "package_key \<Rightarrow> nat \<Rightarrow> StatusStore \<Rightarrow> StatusStore" where
  "restorePrevious k now st =
     (case st k of
        None \<Rightarrow> st
      | Some r \<Rightarrow>
          st(k \<mapsto> r\<lparr>status := (case previousStatus r of None \<Rightarrow> NOT_DOWNLOADED | Some s \<Rightarrow> s),
                    updated := now\<rparr>))"

text \<open>
  Modelled from the spec: \<^verbatim>\<open>filepoolProvider.storePackageStatus(siteId, status, component,
  id, extra)\<close> is not among the sources. It is the one call \<^verbatim>\<open>setDownloading\<close> and
  \<^verbatim>\<open>setDownloaded\<close> make; the contract of the coordinator describes marking a package
  as downloading as "call Status Store setPrevious then set(..., DOWNLOADING)", so a
  write of \<open>DOWNLOADING\<close> captures the previous status first.
\<close>

definition storePackageStatus ::
  "package_key \<Rightarrow> Status \<Rightarrow> string option \<Rightarrow> nat \<Rightarrow> StatusStore \<Rightarrow> StatusStore" where
  "storePackageStatus k s ex now st =
     set_status k s ex now (if s = DOWNLOADING then setPrevious k st else st)"

text \<open>
  Modelled from the spec: \<^verbatim>\<open>filepoolProvider.setPackagePreviousStatus(siteId, component,
  id)\<close> is not among the sources. \<^verbatim>\<open>setPreviousStatusAndReject\<close> calls it to "go back to
  previous status": it is the Status Store's \<open>restorePrevious\<close>.
\<close>

definition setPackagePreviousStatus :: "package_key \<Rightarrow> nat \<Rightarrow> StatusStore \<Rightarrow> StatusStore" where
  "setPackagePreviousStatus k now st = restorePrevious k now st"

section \<open>Promises and the prefetch handler\<close>

text \<open>
  Values of type \<^verbatim>\<open>any\<close>: what a promise resolves with or is rejected with. An
  \<^verbatim>\<open>Error\<close> object is represented by its name.
\<close>

datatype jsvalue =
    JUndefined | JNull | JBool bool | JNumber int | JString string | JArray "jsvalue list"
  | JError string

datatype outcome = Resolve jsvalue | Reject jsvalue

datatype PromiseState = Pending | Resolved jsvalue | Rejected jsvalue

text \<open>
  \<^verbatim>\<open>this.translate.instant('core.networkerrormsg')\<close>: the translation tables are not among
  the sources, the message is represented by its key.
\<close>

definition networkerrormsg :: jsvalue where
  "networkerrormsg = JString ''core.networkerrormsg''"

text \<open>
  A promise chain built by \<^verbatim>\<open>prefetchPackage\<close> or \<^verbatim>\<open>downloadOrPrefetch\<close> is represented
  by the asynchronous call it is currently waiting for. The first four stages are the
  chain of \<^verbatim>\<open>prefetchPackage\<close>:
  \<^verbatim>\<open>setDownloading(..).then(downloadFn).then(setDownloaded).catch(setPreviousStatusAndReject)\<close>;
  the last three are the chain of \<^verbatim>\<open>downloadOrPrefetch\<close>:
  \<^verbatim>\<open>loadContents(..).then(getIntroFiles).then(.. Promise.all(promises))\<close>. The stage
  \<open>GetIntroFiles\<close> carries \<^verbatim>\<open>module.contents\<close> as \<^verbatim>\<open>loadContents\<close> left it, the stage
  \<open>PromiseAll\<close> the downloads in the array \<^verbatim>\<open>promises\<close>, each with its result once it has
  resolved. A download is either \<^verbatim>\<open>filepoolProvider.downloadOrPrefetchFiles\<close> or the
  package download \<^verbatim>\<open>downloadFn\<close> (\<^verbatim>\<open>filepoolProvider.prefetchPackage\<close> or
  \<^verbatim>\<open>downloadPackage\<close>).
\<close>

datatype filepool_download = FilesDownload | PackageDownload

datatype stage =
    SetDownloading
  | DownloadFn
  | SetDownloaded string
  | SetPreviousStatusAndReject jsvalue
  | LoadContents bool "string option"
  | GetIntroFiles bool "string option" jsvalue
  | PromiseAll "(filepool_download \<times> jsvalue option) list"

record chain =
  ckey :: package_key
  cstage :: stage

text \<open>
  The list of files handed to a package download: an array of files, or, when
  \<^verbatim>\<open>introFiles\<close> is a string, the string \<^verbatim>\<open>introFiles.concat(contentFiles)\<close> evaluates to,
  given by the string and the array appended to it as text.
\<close>

datatype files = FileList "jsvalue list" | FileText string "jsvalue list"

text \<open>The calls the two functions make to their collaborators, in the order they are made.\<close>

datatype call =
    Call_storePackageStatus package_key Status "string option"
  | Call_setPackagePreviousStatus package_key
  | Call_downloadFn package_key
  | Call_loadContents package_key
  | Call_getIntroFiles package_key
  | Call_downloadOrPrefetchFiles package_key jsvalue bool
  | Call_packageDownload package_key bool files "string option"

fun call_key :: "call \<Rightarrow> package_key" where
  "call_key (Call_storePackageStatus k _ _) = k"
| "call_key (Call_setPackagePreviousStatus k) = k"
| "call_key (Call_downloadFn k) = k"
| "call_key (Call_loadContents k) = k"
| "call_key (Call_getIntroFiles k) = k"
| "call_key (Call_downloadOrPrefetchFiles k _ _) = k"
| "call_key (Call_packageDownload k _ _ _) = k"

definition key_trace :: "package_key \<Rightarrow> call list \<Rightarrow> call list" where
  "key_trace k cs = filter (\<lambda>c. call_key c = k) cs"

text \<open>
  The state of one prefetch handler and of the collaborators it talks to: the
  connectivity oracle (\<^verbatim>\<open>appProvider.isOnline()\<close>), the current site, the handler's
  component name, a clock, the Status Store, the handler's registry of ongoing downloads
  (\<^verbatim>\<open>downloadPromises\<close>), the promises handed out so far, the promise chains still
  running, the log of collaborator calls, and the downloads that are still running
  although the \<^verbatim>\<open>Promise.all\<close> that waited for them has been rejected, each with the key
  of its package.
\<close>

record handler =
  online :: bool
  currentSiteId :: string
  component :: string
  clock :: nat
  store :: StatusStore
  downloadPromises :: "package_key \<rightharpoonup> nat"
  promises :: "nat \<rightharpoonup> PromiseState"
  nextPromise :: nat
  chains :: "nat \<rightharpoonup> chain"
  trace :: "call list"
  orphans :: "(package_key \<times> filepool_download) list"

definition initial :: "bool \<Rightarrow> string \<Rightarrow> string \<Rightarrow> handler" where
  "initial onl site cmp =
     \<lparr>online = onl, currentSiteId = site, component = cmp, clock = 0, store = Map.empty,
      downloadPromises = Map.empty, promises = Map.empty, nextPromise = 0,
      chains = Map.empty, trace = [], orphans = []\<rparr>"

text \<open>\<^verbatim>\<open>Promise.reject(x)\<close> and \<^verbatim>\<open>Promise.resolve(x)\<close>: a new promise that is already settled.\<close>

definition newPromise :: "PromiseState \<Rightarrow> handler \<Rightarrow> nat \<times> handler" where
  "newPromise s h =
     (nextPromise h,
      h\<lparr>promises := (promises h)(nextPromise h \<mapsto> s), nextPromise := Suc (nextPromise h)\<rparr>)"

text \<open>\<^verbatim>\<open>siteId = siteId || this.sitesProvider.getCurrentSiteId()\<close>: the empty string is falsy.\<close>

definition siteIdOrCurrent :: "string option \<Rightarrow> handler \<Rightarrow> string" where
  "siteIdOrCurrent siteId h =
     (case siteId of None \<Rightarrow> currentSiteId h | Some s \<Rightarrow> if s = [] then currentSiteId h else s)"

definition package_key_of :: "nat \<Rightarrow> string \<Rightarrow> handler \<Rightarrow> package_key" where
  "package_key_of moduleId siteId h = (siteId, component h, moduleId)"

text \<open>
  Modelled from the spec: \<^verbatim>\<open>isDownloading\<close>, \<^verbatim>\<open>getOngoingDownload\<close> and
  \<^verbatim>\<open>addOngoingDownload\<close> belong to the base class \<^verbatim>\<open>CoreCourseModulePrefetchHandlerBase\<close>,
  which is not among the sources. The OngoingDownload registry "maps (siteId, component,
  componentId) to the in-flight promise representing the current download; created when
  a download starts, removed unconditionally when it settles (success or failure)"; a
  caller that finds an entry is handed "that same pending result". A lookup without an
  entry is never made by the two functions below (they test \<open>isDownloading\<close> first); it is
  given an already resolved promise.
\<close>

definition isDownloading :: "nat \<Rightarrow> string \<Rightarrow> handler \<Rightarrow> bool" where
  "isDownloading moduleId siteId h =
     (downloadPromises h (package_key_of moduleId siteId h) \<noteq> None)"

definition getOngoingDownload :: "nat \<Rightarrow> string \<Rightarrow> handler \<Rightarrow> nat \<times> handler" where
  "getOngoingDownload moduleId siteId h =
     (case downloadPromises h (package_key_of moduleId siteId h) of
        Some p \<Rightarrow> (p, h)
      | None \<Rightarrow> newPromise (Resolved JUndefined) h)"

text \<open>
  Modelled from the spec: \<^verbatim>\<open>addOngoingDownload(id, promise, siteId)\<close>, not among the
  sources. The promise it is given is the chain, represented by the stage the chain
  starts in. It registers the chain under the key and returns the promise the callers
  wait on.
\<close>

definition addOngoingDownload :: "nat \<Rightarrow> stage \<Rightarrow> string \<Rightarrow> handler \<Rightarrow> nat \<times> handler" where
  "addOngoingDownload moduleId stg siteId h =
     (let k = package_key_of moduleId siteId h; p = nextPromise h in
      (p, h\<lparr>downloadPromises := (downloadPromises h)(k \<mapsto> p),
            promises := (promises h)(p \<mapsto> Pending),
            nextPromise := Suc p,
            chains := (chains h)(p \<mapsto> \<lparr>ckey = k, cstage = stg\<rparr>)\<rparr>))"

text \<open>
  Modelled from the spec: the cleanup \<^verbatim>\<open>addOngoingDownload\<close> attaches to the chain, not
  among the sources: the entry is "deleted in a finally-equivalent regardless of outcome",
  "before the caller's promise settles". The chain \<open>p\<close> ends, the entry of its key is
  deleted and the promise the callers hold settles, in one step.
\<close>

definition settle :: "nat \<Rightarrow> package_key \<Rightarrow> PromiseState \<Rightarrow> handler \<Rightarrow> handler" where
  "settle p k s h =
     h\<lparr>downloadPromises := (downloadPromises h)(k := None),
       promises := (promises h)(p \<mapsto> s),
       chains := (chains h)(p := None)\<rparr>"

definition await :: "nat \<Rightarrow> package_key \<Rightarrow> stage \<Rightarrow> call list \<Rightarrow> handler \<Rightarrow> handler" where
  \<comment> \<open>the chain \<open>p\<close> makes the calls \<open>cs\<close> and waits in stage \<open>stg\<close>\<close>
  "await p k stg cs h =
     h\<lparr>chains := (chains h)(p \<mapsto> \<lparr>ckey = k, cstage = stg\<rparr>), trace := trace h @ cs\<rparr>"

subsection \<open>The activity variant: prefetchPackage\<close>

text \<open>
  \<^verbatim>\<open>setDownloading(id, siteId)\<close> starts \<^verbatim>\<open>storePackageStatus(siteId, DOWNLOADING, component,
  id)\<close>. Starting the call is logged; the write takes effect when the call completes.
\<close>

definition setDownloading :: "nat \<Rightarrow> string \<Rightarrow> handler \<Rightarrow> handler" where
  "setDownloading moduleId siteId h =
     h\<lparr>trace := trace h @
          [Call_storePackageStatus (package_key_of moduleId siteId h) DOWNLOADING None]\<rparr>"

text \<open>\<^verbatim>\<open>downloadFn.apply(downloadFn, [module, courseId, single, siteId].concat(args))\<close>.\<close>

definition call_downloadFn :: "nat \<Rightarrow> package_key \<Rightarrow> handler \<Rightarrow> handler" where
  "call_downloadFn p k h = await p k DownloadFn [Call_downloadFn k] h"

text \<open>
  \<^verbatim>\<open>setDownloaded(id, siteId, extra)\<close> starts \<^verbatim>\<open>storePackageStatus(siteId, DOWNLOADED,
  component, id, extra)\<close>.
\<close>

definition setDownloaded :: "nat \<Rightarrow> package_key \<Rightarrow> string \<Rightarrow> handler \<Rightarrow> handler" where
  "setDownloaded p k ex h =
     await p k (SetDownloaded ex) [Call_storePackageStatus k DOWNLOADED (Some ex)] h"

text \<open>
  \<^verbatim>\<open>setPreviousStatusAndReject(id, error, siteId)\<close> starts \<^verbatim>\<open>setPackagePreviousStatus\<close> and
  keeps the error for \<^verbatim>\<open>.then(() => Promise.reject(error))\<close>.
\<close>

definition setPreviousStatusAndReject :: "nat \<Rightarrow> package_key \<Rightarrow> jsvalue \<Rightarrow> handler \<Rightarrow> handler" where
  "setPreviousStatusAndReject p k err h =
     await p k (SetPreviousStatusAndReject err) [Call_setPackagePreviousStatus k] h"

text \<open>\<^verbatim>\<open>if (typeof extra != 'string') { extra = ''; }\<close>\<close>

fun string_or_empty :: "jsvalue \<Rightarrow> string" where
  "string_or_empty (JString s) = s"
| "string_or_empty _ = []"

text \<open>
  \<^verbatim>\<open>prefetchPackage(module, courseId, single, downloadFn, siteId, ...args)\<close>. Of the
  module only \<^verbatim>\<open>module.id\<close> is read; \<^verbatim>\<open>courseId\<close>, \<^verbatim>\<open>single\<close> and \<^verbatim>\<open>args\<close> are only
  handed on to \<^verbatim>\<open>downloadFn\<close>. The work function is opaque: what it does is the
  outcome its promise settles with, which the event loop below supplies. The result is
  the promise handed to the caller and the new state.
\<close>

definition prefetchPackage :: "nat \<Rightarrow> string option \<Rightarrow> handler \<Rightarrow> nat \<times> handler" where
  "prefetchPackage moduleId siteIdArg h =
     (let siteId = siteIdOrCurrent siteIdArg h in
      if \<not> online h then newPromise (Rejected networkerrormsg) h
      else if isDownloading moduleId siteId h then getOngoingDownload moduleId siteId h
      else addOngoingDownload moduleId SetDownloading siteId (setDownloading moduleId siteId h))"

subsection \<open>The resource variant: downloadOrPrefetch\<close>

text \<open>
  \<^verbatim>\<open>this.loadContents(module, courseId, true)\<close> calls
  \<^verbatim>\<open>courseProvider.loadModuleContents\<close>, which fills \<^verbatim>\<open>module.contents\<close>.
\<close>

definition loadContents :: "nat \<Rightarrow> string \<Rightarrow> handler \<Rightarrow> handler" where
  "loadContents moduleId siteId h =
     h\<lparr>trace := trace h @ [Call_loadContents (package_key_of moduleId siteId h)]\<rparr>"

text \<open>
  \<^verbatim>\<open>downloadOrPrefetch(module, courseId, prefetch, dirPath)\<close>: the site is always the
  current one; the chain starts with \<^verbatim>\<open>loadContents\<close>.
\<close>

definition downloadOrPrefetch :: "nat \<Rightarrow> bool \<Rightarrow> string option \<Rightarrow> handler \<Rightarrow> nat \<times> handler" where
  "downloadOrPrefetch moduleId prefetch dirPath h =
     (if \<not> online h then newPromise (Rejected networkerrormsg) h
      else let siteId = currentSiteId h in
        if isDownloading moduleId siteId h then getOngoingDownload moduleId siteId h
        else addOngoingDownload moduleId (LoadContents prefetch dirPath) siteId
               (loadContents moduleId siteId h))"

text \<open>\<^verbatim>\<open>download(module, courseId, dirPath)\<close> and \<^verbatim>\<open>prefetch(module, courseId, single, dirPath)\<close>.\<close>

definition download :: "nat \<Rightarrow> string option \<Rightarrow> handler \<Rightarrow> nat \<times> handler" where
  "download moduleId dirPath h = downloadOrPrefetch moduleId False dirPath h"

definition prefetch :: "nat \<Rightarrow> string option \<Rightarrow> handler \<Rightarrow> nat \<times> handler" where
  "prefetch moduleId dirPath h = downloadOrPrefetch moduleId True dirPath h"

text \<open>
  Modelled from the spec: \<^verbatim>\<open>getContentDownloadableFiles(module)\<close> belongs to the base
  class that is not among the sources. The resource variant downloads "all files
  referenced by this resource's content list plus intro files": every entry of the
  array \<^verbatim>\<open>module.contents\<close> counts as a file to download, and a module whose contents
  are not an array has no content files.
\<close>

fun getContentDownloadableFiles :: "jsvalue \<Rightarrow> jsvalue list" where
  "getContentDownloadableFiles (JArray contents) = contents"
| "getContentDownloadableFiles _ = []"

text \<open>
  \<^verbatim>\<open>introFiles.concat(contentFiles)\<close>: an array is extended by the content files. A string
  has a \<^verbatim>\<open>concat\<close> method of its own, which appends the text of its argument. No other
  value has one, and the call throws a \<^verbatim>\<open>TypeError\<close>: the result is \<open>None\<close>.
\<close>

fun concat_files :: "jsvalue \<Rightarrow> jsvalue list \<Rightarrow> files option" where
  "concat_files (JArray introFiles) contentFiles = Some (FileList (introFiles @ contentFiles))"
| "concat_files (JString s) contentFiles = Some (FileText s contentFiles)"
| "concat_files _ contentFiles = None"

text \<open>
  Modelled from the spec: \<^verbatim>\<open>filepoolProvider.prefetchPackage\<close>, \<^verbatim>\<open>downloadPackage\<close> and
  \<^verbatim>\<open>downloadOrPrefetchFiles\<close> are not among the sources. The specification gives the
  resource variant the coordination semantics of the contract, with the file download as
  the work, and \<^verbatim>\<open>downloadOrPrefetch\<close> leaves the status of the package to the package
  download it starts (the documentation of \<^verbatim>\<open>prefetchFunction\<close> tells a work function
  not to call \<^verbatim>\<open>storePackageStatus\<close>, \<^verbatim>\<open>downloadPackage\<close> or \<^verbatim>\<open>prefetchPackage\<close> of the
  filepool). So a package download marks the package \<open>DOWNLOADING\<close> (\<open>setPrevious\<close>, then
  \<open>set\<close>) when it is started, marks it \<open>DOWNLOADED\<close> when it resolves and restores the
  previous status when it is rejected; it is given no extra payload. A download of
  single files leaves the record of the package alone.
\<close>

definition package_download_starts :: "package_key \<Rightarrow> handler \<Rightarrow> handler" where
  "package_download_starts k h =
     h\<lparr>store := storePackageStatus k DOWNLOADING None (clock h) (store h)\<rparr>"

definition download_settles :: "package_key \<Rightarrow> filepool_download \<Rightarrow> outcome \<Rightarrow> handler \<Rightarrow> handler" where
  "download_settles k d out h =
     (case d of
        FilesDownload \<Rightarrow> h
      | PackageDownload \<Rightarrow>
          (case out of
             Resolve v \<Rightarrow> h\<lparr>store := storePackageStatus k DOWNLOADED None (clock h) (store h)\<rparr>
           | Reject e \<Rightarrow> h\<lparr>store := setPackagePreviousStatus k (clock h) (store h)\<rparr>))"

text \<open>\<^verbatim>\<open>if (dirPath)\<close>: false for an undefined and for an empty path.\<close>

fun truthy :: "string option \<Rightarrow> bool" where
  "truthy None = False"
| "truthy (Some s) = (s \<noteq> [])"

text \<open>
  The callback that receives the intro files: it picks the download function, collects
  the promises of the downloads and waits for all of them. With a path the intro files
  are handed to \<^verbatim>\<open>downloadOrPrefetchFiles\<close> as they are; without one they are
  concatenated with the content files first, and when that throws, the promise of the
  chain is rejected with the error and no download is started.
\<close>

definition startDownloads ::
  "nat \<Rightarrow> package_key \<Rightarrow> bool \<Rightarrow> string option \<Rightarrow> jsvalue \<Rightarrow> jsvalue \<Rightarrow> handler \<Rightarrow> handler" where
  "startDownloads p k pf dirPath contents introFiles h =
     (let contentFiles = getContentDownloadableFiles contents in
      if truthy dirPath then
        await p k (PromiseAll [(FilesDownload, None), (PackageDownload, None)])
          [Call_downloadOrPrefetchFiles k introFiles pf,
           Call_packageDownload k pf (FileList contentFiles) dirPath]
          (package_download_starts k h)
      else
        (case concat_files introFiles contentFiles of
           None \<Rightarrow> settle p k (Rejected (JError ''TypeError'')) h
         | Some files \<Rightarrow>
             await p k (PromiseAll [(PackageDownload, None)])
               [Call_packageDownload k pf files None] (package_download_starts k h)))"

section \<open>The event loop\<close>

text \<open>
  What happens when the asynchronous call a chain waits for settles. A Status Store
  call that resolves has written the store; one that is rejected (the store is
  unavailable) has written nothing. What a resolved \<^verbatim>\<open>loadContents\<close> has put into
  \<^verbatim>\<open>module.contents\<close> is the value it is resolved with here.
\<close>

definition step_chain :: "nat \<Rightarrow> chain \<Rightarrow> outcome \<Rightarrow> handler \<Rightarrow> handler" where
  "step_chain p c out h =
     (let k = ckey c in
      case cstage c of
        SetDownloading \<Rightarrow>
          (case out of
             Resolve v \<Rightarrow>
               call_downloadFn p k
                 (h\<lparr>store := storePackageStatus k DOWNLOADING None (clock h) (store h)\<rparr>)
           | Reject e \<Rightarrow> setPreviousStatusAndReject p k e h)
      | DownloadFn \<Rightarrow>
          (case out of
             Resolve v \<Rightarrow> setDownloaded p k (string_or_empty v) h
           | Reject e \<Rightarrow> setPreviousStatusAndReject p k e h)
      | SetDownloaded ex \<Rightarrow>
          (case out of
             Resolve v \<Rightarrow>
               settle p k (Resolved v)
                 (h\<lparr>store := storePackageStatus k DOWNLOADED (Some ex) (clock h) (store h)\<rparr>)
           | Reject e \<Rightarrow> setPreviousStatusAndReject p k e h)
      | SetPreviousStatusAndReject err \<Rightarrow>
          (case out of
             Resolve v \<Rightarrow>
               settle p k (Rejected err)
                 (h\<lparr>store := setPackagePreviousStatus k (clock h) (store h)\<rparr>)
           | Reject e \<Rightarrow> settle p k (Rejected e) h)
      | LoadContents pf dirPath \<Rightarrow>
          (case out of
             Resolve v \<Rightarrow> await p k (GetIntroFiles pf dirPath v) [Call_getIntroFiles k] h
           | Reject e \<Rightarrow> settle p k (Rejected e) h)
      | GetIntroFiles pf dirPath contents \<Rightarrow>
          (case out of
             Resolve v \<Rightarrow> startDownloads p k pf dirPath contents v h
           | Reject e \<Rightarrow> settle p k (Rejected e) h)
      | PromiseAll ds \<Rightarrow> h)"

text \<open>
  \<^verbatim>\<open>Promise.all(promises)\<close>: the \<open>i\<close>-th download settles. The first rejection rejects the
  whole, and the downloads that have not settled by then go on running, with nothing
  waiting for them; when every download has resolved the whole resolves with the array
  of results.
\<close>

definition pending_downloads ::
  "package_key \<Rightarrow> (filepool_download \<times> jsvalue option) list \<Rightarrow>
     (package_key \<times> filepool_download) list" where
  "pending_downloads k ds = map (\<lambda>d. (k, fst d)) (filter (\<lambda>d. snd d = None) ds)"

definition step_all :: "nat \<Rightarrow> chain \<Rightarrow> nat \<Rightarrow> outcome \<Rightarrow> handler \<Rightarrow> handler" where
  "step_all p c i out h =
     (case cstage c of
        PromiseAll ds \<Rightarrow>
          if i < length ds \<and> snd (ds ! i) = None then
            (let k = ckey c; h' = download_settles k (fst (ds ! i)) out h in
             case out of
               Reject e \<Rightarrow>
                 settle p k (Rejected e)
                   (h'\<lparr>orphans :=
                        orphans h' @ pending_downloads k (take i ds @ drop (Suc i) ds)\<rparr>)
             | Resolve v \<Rightarrow>
                 let ds' = ds[i := (fst (ds ! i), Some v)] in
                 if list_all (\<lambda>d. snd d \<noteq> None) ds'
                 then settle p k (Resolved (JArray (List.map_filter snd ds'))) h'
                 else await p k (PromiseAll ds') [] h')
          else h
      | _ \<Rightarrow> h)"

text \<open>
  The \<open>n\<close>-th of the downloads that nothing waits for any more settles: it leaves the
  list, and a package download has marked its package first.
\<close>

definition step_orphan :: "nat \<Rightarrow> outcome \<Rightarrow> handler \<Rightarrow> handler" where
  "step_orphan n out h =
     (if n < length (orphans h)
      then download_settles (fst (orphans h ! n)) (snd (orphans h ! n)) out
             (h\<lparr>orphans := take n (orphans h) @ drop (Suc n) (orphans h)\<rparr>)
      else h)"

text \<open>
  The events of the single-threaded event loop: a caller invokes one of the two
  functions; the call a chain waits for settles; a download of a \<^verbatim>\<open>Promise.all\<close>
  settles; a download that outlived its \<^verbatim>\<open>Promise.all\<close> settles; connectivity changes;
  time passes; the application restarts (the Status Store persists; the registry, the
  promises and the running downloads do not).
\<close>

datatype event =
    Ev_prefetchPackage nat "string option"
  | Ev_downloadOrPrefetch nat bool "string option"
  | Ev_settle nat outcome
  | Ev_settleFile nat nat outcome
  | Ev_settleOrphan nat outcome
  | Ev_setOnline bool
  | Ev_tick
  | Ev_restart

definition step :: "event \<Rightarrow> handler \<Rightarrow> handler" where
  "step e h =
     (case e of
        Ev_prefetchPackage moduleId siteId \<Rightarrow> snd (prefetchPackage moduleId siteId h)
      | Ev_downloadOrPrefetch moduleId pf dirPath \<Rightarrow> snd (downloadOrPrefetch moduleId pf dirPath h)
      | Ev_settle p out \<Rightarrow>
          (case chains h p of None \<Rightarrow> h | Some c \<Rightarrow> step_chain p c out h)
      | Ev_settleFile p i out \<Rightarrow>
          (case chains h p of None \<Rightarrow> h | Some c \<Rightarrow> step_all p c i out h)
      | Ev_settleOrphan n out \<Rightarrow> step_orphan n out h
      | Ev_setOnline b \<Rightarrow> h\<lparr>online := b\<rparr>
      | Ev_tick \<Rightarrow> h\<lparr>clock := Suc (clock h)\<rparr>
      | Ev_restart \<Rightarrow>
          h\<lparr>downloadPromises := Map.empty, promises := Map.empty, chains := Map.empty,
            orphans := []\<rparr>)"

definition exec :: "event list \<Rightarrow> handler \<Rightarrow> handler" where
  "exec es h = fold step es h"

section \<open>The module component: observer of status changes\<close>

text \<open>
  \<^verbatim>\<open>CoreCourseModuleComponent\<close>. The fields the status handling reads and writes:
  the module's id, \<^verbatim>\<open>module.handlerData.showDownloadButton\<close>, whether
  \<^verbatim>\<open>module.handlerData.updateStatus\<close> is defined, \<^verbatim>\<open>downloadEnabled\<close>, the component
  name of \<^verbatim>\<open>prefetchHandler\<close> (none while there is no handler),
  \<^verbatim>\<open>prefetchDelegate.canCheckUpdates()\<close>, the site the \<^verbatim>\<open>statusObserver\<close> is registered
  for (none while it is not registered), the three display flags (undefined until first
  assigned) and the arguments \<^verbatim>\<open>updateStatus\<close> has been called with.
\<close>

record CoreCourseModuleComponent =
  moduleId :: nat
  showDownloadButton :: bool
  hasUpdateStatus :: bool
  downloadEnabled :: bool
  prefetchHandler :: "string option"
  canCheckUpdates :: bool
  statusObserver :: "string option"
  showDownload :: "bool option"
  showRefresh :: "bool option"
  spinner :: "bool option"
  updateStatusCalls :: "Status option list"

text \<open>
  The payload of \<^verbatim>\<open>PACKAGE_STATUS_CHANGED\<close>. The status is a string in the source; the
  undefined and the empty string, the values \<^verbatim>\<open>if (status)\<close> rejects, are \<open>None\<close>.
\<close>

record PackageStatusChanged =
  data_componentId :: nat
  data_component :: string
  data_status :: "Status option"

text \<open>\<^verbatim>\<open>showStatus(status)\<close>\<close>

definition showStatus :: "Status option \<Rightarrow> CoreCourseModuleComponent \<Rightarrow> CoreCourseModuleComponent" where
  "showStatus st c =
     (case st of
        None \<Rightarrow> c
      | Some s \<Rightarrow>
          c\<lparr>spinner := Some (s = DOWNLOADING),
            showDownload := Some (s = NOT_DOWNLOADED),
            showRefresh := Some (s = OUTDATED \<or> (\<not> canCheckUpdates c \<and> s = DOWNLOADED)),
            updateStatusCalls :=
              (if hasUpdateStatus c then updateStatusCalls c @ [Some s] else updateStatusCalls c)\<rparr>)"

text \<open>The callback \<^verbatim>\<open>ngOnInit\<close> registers for \<^verbatim>\<open>PACKAGE_STATUS_CHANGED\<close>.\<close>

definition onPackageStatusChanged ::
  "PackageStatusChanged \<Rightarrow> CoreCourseModuleComponent \<Rightarrow> CoreCourseModuleComponent" where
  "onPackageStatusChanged d c =
     (if data_componentId d = moduleId c \<and> prefetchHandler c \<noteq> None \<and>
         Some (data_component d) = prefetchHandler c
      then
        if downloadEnabled c then showStatus (data_status d) c
        else if hasUpdateStatus c
          then c\<lparr>updateStatusCalls := updateStatusCalls c @ [data_status d]\<rparr>
          else c
      else c)"

text \<open>
  \<^verbatim>\<open>ngOnInit()\<close>; the handler \<^verbatim>\<open>prefetchDelegate.getPrefetchHandlerFor(this.module)\<close>
  returns and the current site are parameters. A module without \<^verbatim>\<open>handlerData\<close> gets an
  empty one, whose \<^verbatim>\<open>showDownloadButton\<close> is falsy. Registering the observer records
  the site it is registered for; from then on a \<^verbatim>\<open>PACKAGE_STATUS_CHANGED\<close> broadcast for
  that site runs the callback above.
\<close>

definition ngOnInit ::
  "string option \<Rightarrow> string \<Rightarrow> CoreCourseModuleComponent \<Rightarrow> CoreCourseModuleComponent" where
  "ngOnInit handlerFor site c =
     (if showDownloadButton c
      then c\<lparr>prefetchHandler := handlerFor, statusObserver := Some site\<rparr>
      else c)"

section \<open>Runs of the event loop\<close>

text \<open>The states the handler can be in: any sequence of events from a fresh start.\<close>

inductive reachable :: "handler \<Rightarrow> bool" where
  init: "reachable (initial onl site cmp)"
| step: "reachable h \<Longrightarrow> reachable (step e h)"

text \<open>
  An event is foreign to the chain \<open>p\<close> when it is not one of the settlements the chain
  waits for, not the end of a download that nothing waits for any more (it may belong
  to any key), and not a restart: calls of the two functions (for any key, the chain's
  own included), settlements of other chains and of their downloads, connectivity
  changes and clock ticks.
\<close>

fun foreign :: "nat \<Rightarrow> event \<Rightarrow> bool" where
  "foreign p (Ev_settle q out) = (q \<noteq> p)"
| "foreign p (Ev_settleFile q i out) = (q \<noteq> p)"
| "foreign p (Ev_settleOrphan n out) = False"
| "foreign p Ev_restart = False"
| "foreign p (Ev_prefetchPackage m sid) = True"
| "foreign p (Ev_downloadOrPrefetch m pf dp) = True"
| "foreign p (Ev_setOnline b) = True"
| "foreign p Ev_tick = True"

text \<open>
  \<open>run p sched h\<close>: the asynchronous calls the chain \<open>p\<close> waits for settle with the
  outcomes of \<open>sched\<close>, in order; before each settlement the events paired with it
  happen. The schedule is \<open>quiet\<close> when all those events are foreign to the chain.
\<close>

fun run :: "nat \<Rightarrow> (event list \<times> outcome) list \<Rightarrow> handler \<Rightarrow> handler" where
  "run p [] h = h"
| "run p ((es, out) # rest) h = run p rest (step (Ev_settle p out) (exec es h))"

definition quiet :: "nat \<Rightarrow> (event list \<times> outcome) list \<Rightarrow> bool" where
  "quiet p sched \<longleftrightarrow> (\<forall>(es, out)\<in>set sched. \<forall>e\<in>set es. foreign p e)"

text \<open>The calls that go to the Status Store, and the stages of the resource variant.\<close>

fun is_store_call :: "call \<Rightarrow> bool" where
  "is_store_call (Call_storePackageStatus k s ex) = True"
| "is_store_call (Call_setPackagePreviousStatus k) = True"
| "is_store_call (Call_downloadFn k) = False"
| "is_store_call (Call_loadContents k) = False"
| "is_store_call (Call_getIntroFiles k) = False"
| "is_store_call (Call_downloadOrPrefetchFiles k fs pf) = False"
| "is_store_call (Call_packageDownload k pf fs dp) = False"

definition store_calls :: "call list \<Rightarrow> call list" where
  "store_calls cs = filter is_store_call cs"

fun resource_stage :: "stage \<Rightarrow> bool" where
  "resource_stage (LoadContents pf dp) = True"
| "resource_stage (GetIntroFiles pf dp contents) = True"
| "resource_stage (PromiseAll rs) = True"
| "resource_stage SetDownloading = False"
| "resource_stage DownloadFn = False"
| "resource_stage (SetDownloaded ex) = False"
| "resource_stage (SetPreviousStatusAndReject err) = False"


definition running_downloads :: "package_key \<Rightarrow> handler \<Rightarrow> filepool_download list" where
  "running_downloads k h =
     (case downloadPromises h k of
        None \<Rightarrow> []
      | Some p \<Rightarrow>
          (case chains h p of
             None \<Rightarrow> []
           | Some c \<Rightarrow>
               (case cstage c of
                  PromiseAll ds \<Rightarrow> map snd (pending_downloads k ds)
                | _ \<Rightarrow> []))) @
     map snd (filter (\<lambda>d. fst d = k) (orphans h))"

section \<open>Invariants\<close>

text \<open>No record holds \<open>DOWNLOADING\<close> as its previous status.\<close>

definition store_ok :: "StatusStore \<Rightarrow> bool" where
  "store_ok st \<longleftrightarrow> (\<forall>k r. st k = Some r \<longrightarrow> previousStatus r \<noteq> Some DOWNLOADING)"

text \<open>
  Every running chain is the registered download of its key and its promise is pending;
  every registry entry belongs to a running chain; promise ids not yet handed out are
  unused; the store is well formed.
\<close>

definition handler_inv :: "handler \<Rightarrow> bool" where
  "handler_inv h \<longleftrightarrow>
     (\<forall>p c. chains h p = Some c \<longrightarrow>
        downloadPromises h (ckey c) = Some p \<and> promises h p = Some Pending) \<and>
     (\<forall>k p. downloadPromises h k = Some p \<longrightarrow> (\<exists>c. chains h p = Some c \<and> ckey c = k)) \<and>
     (\<forall>p. nextPromise h \<le> p \<longrightarrow> promises h p = None) \<and>
     store_ok (store h)"

text \<open>
  What a chain \<open>p\<close> with key \<open>k\<close> can see of the state: itself, the record of its key
  without the time stamp, its promise, the registry entry of its key and the calls made
  for its key.
\<close>

definition proj :: "PackageStatusRecord \<Rightarrow> Status \<times> Status option \<times> string option" where
  "proj r = (status r, previousStatus r, extra r)"

definition view ::
  "nat \<Rightarrow> package_key \<Rightarrow> handler \<Rightarrow>
     chain option \<times> (Status \<times> Status option \<times> string option) option \<times> PromiseState option \<times>
     nat option \<times> call list" where
  "view p k h =
     (chains h p, map_option proj (store h k), promises h p, downloadPromises h k,
      key_trace k (trace h))"

text \<open>The same settlements with nothing in between, and the chain still running before each.\<close>

fun plain :: "nat \<Rightarrow> outcome list \<Rightarrow> handler \<Rightarrow> handler" where
  "plain p [] g = g"
| "plain p (out # outs) g = plain p outs (step (Ev_settle p out) g)"

fun alive :: "nat \<Rightarrow> package_key \<Rightarrow> outcome list \<Rightarrow> handler \<Rightarrow> bool" where
  "alive p k [] g = True"
| "alive p k (out # outs) g =
     ((case chains g p of None \<Rightarrow> False | Some c \<Rightarrow> ckey c = k) \<and>
      alive p k outs (step (Ev_settle p out) g))"

section \<open>Scenarios\<close>

text \<open>
  The handler of the component \<open>wiki\<close> on the site \<open>site\<close>, online, with an empty
  Status Store, and the key of its module 7; the same handler with a download of the
  module in flight; with the work resolved with \<open>"v1"\<close> and the \<open>DOWNLOADED\<close> write
  pending; after that download has succeeded; with a failed \<open>DOWNLOADED\<close> write and the
  rollback pending; restarted while the module was marked \<open>DOWNLOADING\<close>; after the
  work function has been rejected with \<open>"boom"\<close> and the status rolled back; with the
  work function running; and with a download of the resource variant in flight. Then
  the resource variant called with a directory: its two downloads are running; the
  download of the intro files has been rejected with \<open>"boom"\<close> while the package
  download is still running; and the same after a second call, whose chain has started
  its downloads. A module component that observes the module, and a broadcast that the
  module is \<open>DOWNLOADED\<close>.
\<close>

definition demo :: handler where
  "demo = initial True ''site'' ''wiki''"

definition demo_key :: package_key where
  "demo_key = (''site'', ''wiki'', 7)"

definition demo_in_flight :: handler where
  "demo_in_flight = step (Ev_prefetchPackage 7 None) demo"


definition demo_downloaded :: handler where
  "demo_downloaded =
     exec [Ev_prefetchPackage 7 None, Ev_settle 0 (Resolve JUndefined),
           Ev_settle 0 (Resolve (JString ''v1'')), Ev_settle 0 (Resolve JUndefined)] demo"

definition demo_rolling_back :: handler where
  "demo_rolling_back =
     exec [Ev_prefetchPackage 7 None, Ev_settle 0 (Resolve JUndefined),
           Ev_settle 0 (Resolve (JString ''v2'')), Ev_settle 0 (Reject (JString ''disk full''))]
       demo"

definition demo_stale :: handler where
  "demo_stale =
     exec [Ev_prefetchPackage 7 None, Ev_settle 0 (Resolve JUndefined), Ev_restart] demo"



definition demo_resource :: handler where
  "demo_resource = step (Ev_downloadOrPrefetch 7 True None) demo"

definition demo_downloading :: handler where
  "demo_downloading =
     exec [Ev_downloadOrPrefetch 7 True (Some ''dir''), Ev_settle 0 (Resolve (JArray [])),
           Ev_settle 0 (Resolve (JArray []))] demo"



definition demo_component :: CoreCourseModuleComponent where
  "demo_component =
     ngOnInit (Some ''wiki'') ''site''
       \<lparr>moduleId = 7, showDownloadButton = True, hasUpdateStatus = True, downloadEnabled = True,
        prefetchHandler = None, canCheckUpdates = True, statusObserver = None,
        showDownload = None, showRefresh = None, spinner = None, updateStatusCalls = []\<rparr>"

definition demo_event :: PackageStatusChanged where
  "demo_event = \<lparr>data_componentId = 7, data_component = ''wiki'', data_status = Some DOWNLOADED\<rparr>"

section \<open>The Status Store operations at a key\<close>

lemma store_ok_setPrevious: "store_ok st \<Longrightarrow> store_ok (setPrevious k st)"
  by (auto simp: store_ok_def setPrevious_def split: option.splits if_splits)

lemma store_ok_set_status: "store_ok st \<Longrightarrow> store_ok (set_status k s ex now st)"
  by (auto simp: store_ok_def set_status_def split: option.splits if_splits)

lemma store_ok_restorePrevious: "store_ok st \<Longrightarrow> store_ok (restorePrevious k now st)"
  by (auto simp: store_ok_def restorePrevious_def split: option.splits if_splits)

lemma store_ok_storePackageStatus: "store_ok st \<Longrightarrow> store_ok (storePackageStatus k s ex now st)"
  by (simp add: storePackageStatus_def store_ok_set_status store_ok_setPrevious)

lemma store_ok_setPackagePreviousStatus:
  "store_ok st \<Longrightarrow> store_ok (setPackagePreviousStatus k now st)"
  by (simp add: setPackagePreviousStatus_def store_ok_restorePrevious)

lemma setPrevious_other: "k' \<noteq> k \<Longrightarrow> setPrevious k st k' = st k'"
  by (simp add: setPrevious_def split: option.splits)

lemma set_status_other: "k' \<noteq> k \<Longrightarrow> set_status k s ex now st k' = st k'"
  by (simp add: set_status_def split: option.splits)

lemma restorePrevious_other: "k' \<noteq> k \<Longrightarrow> restorePrevious k now st k' = st k'"
  by (simp add: restorePrevious_def split: option.splits)

lemma storePackageStatus_other: "k' \<noteq> k \<Longrightarrow> storePackageStatus k s ex now st k' = st k'"
  by (simp add: storePackageStatus_def set_status_other setPrevious_other)

lemma setPackagePreviousStatus_other: "k' \<noteq> k \<Longrightarrow> setPackagePreviousStatus k now st k' = st k'"
  by (simp add: setPackagePreviousStatus_def restorePrevious_other)

lemma status_after_downloading:
  "stored_status (storePackageStatus k DOWNLOADING ex now st) k = DOWNLOADING"
  by (simp add: stored_status_def storePackageStatus_def set_status_def setPrevious_def
      split: option.splits)

lemma extra_after_downloading:
  "stored_extra (storePackageStatus k DOWNLOADING None now st) k = stored_extra st k"
  by (simp add: stored_extra_def storePackageStatus_def set_status_def setPrevious_def
      split: option.splits)

lemma previous_after_downloading:
  "stored_previous (storePackageStatus k DOWNLOADING ex now st) k =
     (if st k = None \<or> stored_status st k = DOWNLOADING then stored_previous st k
      else Some (stored_status st k))"
  by (simp add: stored_previous_def stored_status_def storePackageStatus_def set_status_def
      setPrevious_def split: option.splits)

lemma present_after_store: "storePackageStatus k s ex now st k \<noteq> None"
  by (simp add: storePackageStatus_def set_status_def setPrevious_def split: option.splits)

lemma status_after_downloaded:
  "stored_status (storePackageStatus k DOWNLOADED ex now st) k = DOWNLOADED"
  by (simp add: stored_status_def storePackageStatus_def set_status_def split: option.splits)

lemma extra_after_downloaded:
  "stored_extra (storePackageStatus k DOWNLOADED (Some e) now st) k = Some e"
  by (simp add: stored_extra_def storePackageStatus_def set_status_def split: option.splits)

lemma status_after_restore:
  "stored_status (setPackagePreviousStatus k now st) k =
     (case stored_previous st k of None \<Rightarrow> NOT_DOWNLOADED | Some s \<Rightarrow> s)"
  by (simp add: stored_status_def stored_previous_def setPackagePreviousStatus_def
      restorePrevious_def split: option.splits)

lemma extra_after_restore:
  "stored_extra (setPackagePreviousStatus k now st) k = stored_extra st k"
  by (simp add: stored_extra_def setPackagePreviousStatus_def restorePrevious_def
      split: option.splits)

lemma previous_after_restore:
  "stored_previous (setPackagePreviousStatus k now st) k = stored_previous st k"
  by (simp add: stored_previous_def setPackagePreviousStatus_def restorePrevious_def
      split: option.splits)

lemma store_ok_previous: "store_ok st \<Longrightarrow> stored_previous st k \<noteq> Some DOWNLOADING"
  by (cases "st k") (auto simp: store_ok_def stored_previous_def simp del: split_paired_All)

section \<open>The invariant holds in every reachable state\<close>

lemma inv_trace: "handler_inv (h\<lparr>trace := t\<rparr>) = handler_inv h"
  by (simp add: handler_inv_def)

lemma inv_online: "handler_inv (h\<lparr>online := b\<rparr>) = handler_inv h"
  by (simp add: handler_inv_def)

lemma inv_clock: "handler_inv (h\<lparr>clock := t\<rparr>) = handler_inv h"
  by (simp add: handler_inv_def)

lemma inv_store: "handler_inv h \<Longrightarrow> store_ok st \<Longrightarrow> handler_inv (h\<lparr>store := st\<rparr>)"
  by (simp add: handler_inv_def)

lemma inv_store_ok: "handler_inv h \<Longrightarrow> store_ok (store h)"
  by (simp add: handler_inv_def)

lemma inv_initial: "handler_inv (initial onl site cmp)"
  by (simp add: handler_inv_def initial_def store_ok_def)

lemma inv_orphans: "handler_inv (h\<lparr>orphans := os\<rparr>) = handler_inv h"
  by (simp add: handler_inv_def)

lemma inv_restart:
  "handler_inv h \<Longrightarrow>
   handler_inv (h\<lparr>downloadPromises := Map.empty, promises := Map.empty, chains := Map.empty,
                  orphans := []\<rparr>)"
  by (simp add: handler_inv_def)

lemma inv_chain_registered:
  "handler_inv h \<Longrightarrow> chains h p = Some c \<Longrightarrow> downloadPromises h (ckey c) = Some p"
  by (simp add: handler_inv_def)

lemma inv_chain_pending:
  "handler_inv h \<Longrightarrow> chains h p = Some c \<Longrightarrow> promises h p = Some Pending"
  by (simp add: handler_inv_def)

lemma inv_registered_chain:
  "handler_inv h \<Longrightarrow> downloadPromises h k = Some p \<Longrightarrow> \<exists>c. chains h p = Some c \<and> ckey c = k"
  unfolding handler_inv_def by blast

lemma inv_fresh: "handler_inv h \<Longrightarrow> promises h (nextPromise h) = None"
  by (simp add: handler_inv_def)

lemma inv_fresh_chain: "handler_inv h \<Longrightarrow> chains h (nextPromise h) = None"
proof (rule ccontr)
  assume i: "handler_inv h" and "chains h (nextPromise h) \<noteq> None"
  then obtain c where "chains h (nextPromise h) = Some c" by auto
  with i have "promises h (nextPromise h) = Some Pending" by (rule inv_chain_pending)
  with inv_fresh [OF i] show False by simp
qed

lemma inv_key_unique:
  assumes "handler_inv h" "chains h p = Some c" "chains h q = Some d" "ckey c = ckey d"
  shows "p = q"
proof -
  have "downloadPromises h (ckey c) = Some p" using assms(1,2) by (rule inv_chain_registered)
  moreover have "downloadPromises h (ckey d) = Some q" using assms(1,3) by (rule inv_chain_registered)
  ultimately show ?thesis using assms(4) by simp
qed

lemma handler_invI:
  assumes "\<And>p c. chains h p = Some c \<Longrightarrow> downloadPromises h (ckey c) = Some p"
    and "\<And>p c. chains h p = Some c \<Longrightarrow> promises h p = Some Pending"
    and "\<And>k p. downloadPromises h k = Some p \<Longrightarrow> \<exists>c. chains h p = Some c \<and> ckey c = k"
    and "\<And>p. nextPromise h \<le> p \<Longrightarrow> promises h p = None"
    and "store_ok (store h)"
  shows "handler_inv h"
  unfolding handler_inv_def using assms by blast

lemma inv_fresh_ge: "handler_inv h \<Longrightarrow> nextPromise h \<le> p \<Longrightarrow> promises h p = None"
  by (simp add: handler_inv_def)

lemma inv_await:
  assumes i: "handler_inv h" and c: "chains h p = Some c"
  shows "handler_inv (await p (ckey c) stg cs h)"
proof (rule handler_invI)
  fix q d assume "chains (await p (ckey c) stg cs h) q = Some d"
  then have d: "(q = p \<and> ckey d = ckey c) \<or> (q \<noteq> p \<and> chains h q = Some d)"
    by (auto simp: await_def split: if_splits)
  then show "downloadPromises (await p (ckey c) stg cs h) (ckey d) = Some q"
    using inv_chain_registered [OF i] c by (auto simp: await_def)
  from d show "promises (await p (ckey c) stg cs h) q = Some Pending"
    using inv_chain_pending [OF i] c by (auto simp: await_def)
next
  fix k q assume "downloadPromises (await p (ckey c) stg cs h) k = Some q"
  then have "downloadPromises h k = Some q" by (simp add: await_def)
  then obtain d where d: "chains h q = Some d" "ckey d = k"
    using inv_registered_chain [OF i] by blast
  show "\<exists>d. chains (await p (ckey c) stg cs h) q = Some d \<and> ckey d = k"
  proof (cases "q = p")
    case True
    with d c show ?thesis by (simp add: await_def)
  next
    case False
    with d show ?thesis by (simp add: await_def)
  qed
next
  fix q assume "nextPromise (await p (ckey c) stg cs h) \<le> q"
  then show "promises (await p (ckey c) stg cs h) q = None"
    using inv_fresh_ge [OF i] by (simp add: await_def)
next
  show "store_ok (store (await p (ckey c) stg cs h))"
    using inv_store_ok [OF i] by (simp add: await_def)
qed

lemma inv_settle:
  assumes i: "handler_inv h" and c: "chains h p = Some c"
  shows "handler_inv (settle p (ckey c) s h)"
proof (rule handler_invI)
  fix q d assume "chains (settle p (ckey c) s h) q = Some d"
  then have d: "q \<noteq> p" "chains h q = Some d"
    by (auto simp: settle_def split: if_splits)
  have "ckey d \<noteq> ckey c" using inv_key_unique [OF i d(2) c] d(1) by blast
  then show "downloadPromises (settle p (ckey c) s h) (ckey d) = Some q"
    using inv_chain_registered [OF i d(2)] by (simp add: settle_def)
  show "promises (settle p (ckey c) s h) q = Some Pending"
    using inv_chain_pending [OF i d(2)] d(1) by (simp add: settle_def)
next
  fix k q assume "downloadPromises (settle p (ckey c) s h) k = Some q"
  then have k: "k \<noteq> ckey c" "downloadPromises h k = Some q"
    by (auto simp: settle_def split: if_splits)
  then obtain d where d: "chains h q = Some d" "ckey d = k"
    using inv_registered_chain [OF i] by blast
  have "q \<noteq> p" using d c k(1) by auto
  with d show "\<exists>d. chains (settle p (ckey c) s h) q = Some d \<and> ckey d = k"
    by (simp add: settle_def)
next
  fix q assume q: "nextPromise (settle p (ckey c) s h) \<le> q"
  have "promises h p \<noteq> None" using inv_chain_pending [OF i c] by simp
  then have "q \<noteq> p" using inv_fresh_ge [OF i, of p] q by (auto simp: settle_def)
  then show "promises (settle p (ckey c) s h) q = None"
    using inv_fresh_ge [OF i] q by (simp add: settle_def)
next
  show "store_ok (store (settle p (ckey c) s h))"
    using inv_store_ok [OF i] by (simp add: settle_def)
qed

lemma inv_newPromise:
  assumes i: "handler_inv h"
  shows "handler_inv (snd (newPromise s h))"
proof (rule handler_invI)
  fix q d assume "chains (snd (newPromise s h)) q = Some d"
  then have d: "chains h q = Some d" by (simp add: newPromise_def)
  then show "downloadPromises (snd (newPromise s h)) (ckey d) = Some q"
    using inv_chain_registered [OF i] by (simp add: newPromise_def)
  have "q \<noteq> nextPromise h" using inv_fresh_chain [OF i] d by auto
  then show "promises (snd (newPromise s h)) q = Some Pending"
    using inv_chain_pending [OF i d] by (simp add: newPromise_def)
next
  fix k q assume "downloadPromises (snd (newPromise s h)) k = Some q"
  then show "\<exists>d. chains (snd (newPromise s h)) q = Some d \<and> ckey d = k"
    using inv_registered_chain [OF i] by (simp add: newPromise_def)
next
  fix q assume "nextPromise (snd (newPromise s h)) \<le> q"
  then show "promises (snd (newPromise s h)) q = None"
    using inv_fresh_ge [OF i, of q] by (simp add: newPromise_def)
next
  show "store_ok (store (snd (newPromise s h)))"
    using inv_store_ok [OF i] by (simp add: newPromise_def)
qed

lemma inv_addOngoingDownload:
  assumes i: "handler_inv h" and n: "\<not> isDownloading m site h"
  shows "handler_inv (snd (addOngoingDownload m stg site h))"
proof (rule handler_invI)
  let ?k = "package_key_of m site h"
  let ?h = "snd (addOngoingDownload m stg site h)"
  have none: "downloadPromises h ?k = None" using n by (simp add: isDownloading_def)
  have fc: "chains h (nextPromise h) = None" using i by (rule inv_fresh_chain)
  {
    fix q d assume "chains ?h q = Some d"
    then have d: "(q = nextPromise h \<and> ckey d = ?k) \<or> (q \<noteq> nextPromise h \<and> chains h q = Some d)"
      by (auto simp: addOngoingDownload_def Let_def split: if_splits)
    show "downloadPromises ?h (ckey d) = Some q"
    proof (cases "q = nextPromise h")
      case True
      with d show ?thesis by (simp add: addOngoingDownload_def Let_def)
    next
      case False
      with d have dd: "chains h q = Some d" by simp
      then have "downloadPromises h (ckey d) = Some q" using inv_chain_registered [OF i] by simp
      moreover from this none have "ckey d \<noteq> ?k" by auto
      ultimately show ?thesis by (simp add: addOngoingDownload_def Let_def)
    qed
    from d show "promises ?h q = Some Pending"
      using inv_chain_pending [OF i] by (auto simp: addOngoingDownload_def Let_def)
  }
  {
    fix k q assume a: "downloadPromises ?h k = Some q"
    show "\<exists>d. chains ?h q = Some d \<and> ckey d = k"
    proof (cases "k = ?k")
      case True
      with a show ?thesis by (simp add: addOngoingDownload_def Let_def)
    next
      case False
      with a have "downloadPromises h k = Some q" by (simp add: addOngoingDownload_def Let_def)
      then obtain d where d: "chains h q = Some d" "ckey d = k"
        using inv_registered_chain [OF i] by blast
      then have "q \<noteq> nextPromise h" using fc by auto
      with d show ?thesis by (simp add: addOngoingDownload_def Let_def)
    qed
  }
  {
    fix q assume "nextPromise ?h \<le> q"
    then show "promises ?h q = None"
      using inv_fresh_ge [OF i, of q] by (simp add: addOngoingDownload_def Let_def)
  }
  show "store_ok (store ?h)"
    using inv_store_ok [OF i] by (simp add: addOngoingDownload_def Let_def)
qed

lemma inv_setDownloading: "handler_inv (setDownloading m site h) = handler_inv h"
  by (simp add: setDownloading_def inv_trace)

lemma inv_loadContents: "handler_inv (loadContents m site h) = handler_inv h"
  by (simp add: loadContents_def inv_trace)

lemma isDownloading_setDownloading:
  "isDownloading m site (setDownloading m' site' h) = isDownloading m site h"
  by (simp add: isDownloading_def setDownloading_def package_key_of_def)

lemma isDownloading_loadContents:
  "isDownloading m site (loadContents m' site' h) = isDownloading m site h"
  by (simp add: isDownloading_def loadContents_def package_key_of_def)

lemma getOngoingDownload_registered:
  "isDownloading m site h \<Longrightarrow>
   getOngoingDownload m site h = (the (downloadPromises h (package_key_of m site h)), h)"
  by (auto simp: isDownloading_def getOngoingDownload_def)

lemma inv_prefetchPackage:
  assumes "handler_inv h"
  shows "handler_inv (snd (prefetchPackage m sid h))"
  using assms
  by (simp add: prefetchPackage_def Let_def inv_newPromise getOngoingDownload_registered
      inv_addOngoingDownload inv_setDownloading isDownloading_setDownloading)

lemma inv_downloadOrPrefetch:
  assumes "handler_inv h"
  shows "handler_inv (snd (downloadOrPrefetch m pf dp h))"
  using assms
  by (simp add: downloadOrPrefetch_def Let_def inv_newPromise getOngoingDownload_registered
      inv_addOngoingDownload inv_loadContents isDownloading_loadContents)

lemma inv_package_download_starts:
  "handler_inv h \<Longrightarrow> handler_inv (package_download_starts k h)"
  by (simp add: package_download_starts_def inv_store store_ok_storePackageStatus inv_store_ok)

lemma chains_package_download_starts: "chains (package_download_starts k h) = chains h"
  by (simp add: package_download_starts_def)

lemma inv_download_settles:
  "handler_inv h \<Longrightarrow> handler_inv (download_settles k d out h)"
  by (cases d; cases out)
     (simp_all add: download_settles_def inv_store store_ok_storePackageStatus
        store_ok_setPackagePreviousStatus inv_store_ok)

lemma chains_download_settles: "chains (download_settles k d out h) = chains h"
  by (cases d; cases out) (simp_all add: download_settles_def)

lemma inv_startDownloads:
  assumes i: "handler_inv h" and c: "chains h p = Some c"
  shows "handler_inv (startDownloads p (ckey c) pf dp contents intro h)"
proof -
  note i' = inv_package_download_starts [OF i, of "ckey c"]
  have c': "chains (package_download_starts (ckey c) h) p = Some c"
    using c by (simp add: chains_package_download_starts)
  show ?thesis
    unfolding startDownloads_def Let_def
    by (simp add: inv_await [OF i' c'] inv_settle [OF i c] split: option.splits list.splits)
qed

lemma chains_store_upd: "chains (h\<lparr>store := st\<rparr>) = chains h"
  by simp

lemma inv_step_chain:
  assumes i: "handler_inv h" and c: "chains h p = Some c"
  shows "handler_inv (step_chain p c out h)"
proof -
  have s1: "\<And>st. store_ok st \<Longrightarrow> handler_inv (h\<lparr>store := st\<rparr>)"
    using i by (rule inv_store)
  have c1: "\<And>st. chains (h\<lparr>store := st\<rparr>) p = Some c" using c by simp
  note ok = inv_store_ok [OF i]
  show ?thesis
    unfolding step_chain_def Let_def call_downloadFn_def setDownloaded_def
      setPreviousStatusAndReject_def
    by (cases "cstage c"; cases out)
       (simp_all add: i inv_await [OF i c] inv_settle [OF i c] inv_startDownloads [OF i c]
          inv_await [OF s1 c1] inv_settle [OF s1 c1] store_ok_storePackageStatus [OF ok]
          store_ok_setPackagePreviousStatus [OF ok])
qed

lemma inv_step_all:
  assumes i: "handler_inv h" and c: "chains h p = Some c"
  shows "handler_inv (step_all p c n out h)"
proof -
  have i': "\<And>d o'. handler_inv (download_settles (ckey c) d o' h)"
    using i by (rule inv_download_settles)
  have c': "\<And>d o'. chains (download_settles (ckey c) d o' h) p = Some c"
    using c by (simp add: chains_download_settles)
  have i'': "\<And>d o' os. handler_inv ((download_settles (ckey c) d o' h)\<lparr>orphans := os\<rparr>)"
    using i' by (simp add: inv_orphans)
  have c'': "\<And>d o' os. chains ((download_settles (ckey c) d o' h)\<lparr>orphans := os\<rparr>) p = Some c"
    using c' by simp
  show ?thesis
    unfolding step_all_def Let_def
    by (cases "cstage c"; cases out)
       (simp_all add: i inv_await [OF i' c'] inv_settle [OF i' c'] inv_settle [OF i'' c''])
qed

lemma inv_step_orphan:
  assumes i: "handler_inv h"
  shows "handler_inv (step_orphan n out h)"
  unfolding step_orphan_def
  by (simp add: i inv_download_settles inv_orphans)

lemma inv_step: "handler_inv h \<Longrightarrow> handler_inv (step e h)"
  unfolding step_def
  by (cases e)
     (simp_all add: inv_prefetchPackage inv_downloadOrPrefetch inv_step_chain inv_step_all
        inv_step_orphan inv_online inv_clock inv_restart split: option.splits)

lemma inv_exec: "handler_inv h \<Longrightarrow> handler_inv (exec es h)"
  unfolding exec_def by (induction es arbitrary: h) (simp_all add: inv_step)

section \<open>Events foreign to a chain leave its view alone\<close>

lemma key_trace_append: "key_trace k (xs @ ys) = key_trace k xs @ key_trace k ys"
  by (simp add: key_trace_def)

lemma key_trace_other: "(\<And>c. c \<in> set cs \<Longrightarrow> call_key c \<noteq> k) \<Longrightarrow> key_trace k cs = []"
  by (simp add: key_trace_def)

lemma view_await_other:
  "q \<noteq> p \<Longrightarrow> k' \<noteq> k \<Longrightarrow> \<forall>c\<in>set cs. call_key c = k' \<Longrightarrow>
   view p k (await q k' stg cs h) = view p k h"
  by (simp add: view_def await_def key_trace_append key_trace_other)

lemma view_settle_other:
  "q \<noteq> p \<Longrightarrow> k' \<noteq> k \<Longrightarrow> view p k (settle q k' s h) = view p k h"
  by (simp add: view_def settle_def)

lemma view_store: "st k = store h k \<Longrightarrow> view p k (h\<lparr>store := st\<rparr>) = view p k h"
  by (simp add: view_def)

lemma view_trace_other:
  "(\<And>c. c \<in> set cs \<Longrightarrow> call_key c \<noteq> k) \<Longrightarrow> view p k (h\<lparr>trace := trace h @ cs\<rparr>) = view p k h"
  by (simp add: view_def key_trace_append key_trace_other)

lemma view_newPromise:
  "nextPromise h \<noteq> p \<Longrightarrow> view p k (snd (newPromise s h)) = view p k h"
  by (simp add: view_def newPromise_def)

lemma view_addOngoingDownload:
  "nextPromise h \<noteq> p \<Longrightarrow> package_key_of m site h \<noteq> k \<Longrightarrow>
   view p k (snd (addOngoingDownload m stg site h)) = view p k h"
  by (simp add: view_def addOngoingDownload_def Let_def)

lemma view_orphans: "view p k (h\<lparr>orphans := os\<rparr>) = view p k h"
  by (simp add: view_def)

lemma view_package_download_starts_other:
  "k' \<noteq> k \<Longrightarrow> view p k (package_download_starts k' h) = view p k h"
  unfolding package_download_starts_def
  by (intro view_store) (simp add: storePackageStatus_other)

lemma view_download_settles_other:
  "k' \<noteq> k \<Longrightarrow> view p k (download_settles k' d out h) = view p k h"
  by (cases d; cases out)
     (simp_all add: download_settles_def view_store storePackageStatus_other
        setPackagePreviousStatus_other)

lemma view_startDownloads_other:
  "q \<noteq> p \<Longrightarrow> k' \<noteq> k \<Longrightarrow> view p k (startDownloads q k' pf dp contents intro h) = view p k h"
  by (simp add: startDownloads_def Let_def view_await_other view_settle_other
      view_package_download_starts_other split: option.splits list.splits)

lemma chain_not_fresh:
  assumes "handler_inv h" "chains h p = Some c"
  shows "nextPromise h \<noteq> p"
  using inv_fresh_chain [OF assms(1)] assms(2) by auto

lemma view_prefetchPackage:
  assumes i: "handler_inv h" and c: "chains h p = Some c"
  shows "view p (ckey c) (snd (prefetchPackage m sid h)) = view p (ckey c) h"
proof -
  let ?site = "siteIdOrCurrent sid h"
  let ?h1 = "setDownloading m ?site h"
  note nf = chain_not_fresh [OF i c]
  show ?thesis
  proof (cases "online h")
    case False
    then show ?thesis by (simp add: prefetchPackage_def Let_def view_newPromise [OF nf])
  next
    case on: True
    show ?thesis
    proof (cases "isDownloading m ?site h")
      case True
      with on show ?thesis
        by (simp add: prefetchPackage_def Let_def getOngoingDownload_registered)
    next
      case False
      then have nk: "package_key_of m ?site h \<noteq> ckey c"
        using inv_chain_registered [OF i c] by (auto simp: isDownloading_def)
      have k1: "package_key_of m ?site ?h1 = package_key_of m ?site h"
        by (simp add: package_key_of_def setDownloading_def)
      have n1: "nextPromise ?h1 \<noteq> p" using nf by (simp add: setDownloading_def)
      have v1: "view p (ckey c) ?h1 = view p (ckey c) h"
        unfolding setDownloading_def using nk by (intro view_trace_other) auto
      from on False show ?thesis
        by (simp add: prefetchPackage_def Let_def view_addOngoingDownload [OF n1] k1 nk v1)
    qed
  qed
qed

lemma view_downloadOrPrefetch:
  assumes i: "handler_inv h" and c: "chains h p = Some c"
  shows "view p (ckey c) (snd (downloadOrPrefetch m pf dp h)) = view p (ckey c) h"
proof -
  let ?site = "currentSiteId h"
  let ?h1 = "loadContents m ?site h"
  note nf = chain_not_fresh [OF i c]
  show ?thesis
  proof (cases "online h")
    case False
    then show ?thesis by (simp add: downloadOrPrefetch_def Let_def view_newPromise [OF nf])
  next
    case on: True
    show ?thesis
    proof (cases "isDownloading m ?site h")
      case True
      with on show ?thesis
        by (simp add: downloadOrPrefetch_def Let_def getOngoingDownload_registered)
    next
      case False
      then have nk: "package_key_of m ?site h \<noteq> ckey c"
        using inv_chain_registered [OF i c] by (auto simp: isDownloading_def)
      have k1: "package_key_of m ?site ?h1 = package_key_of m ?site h"
        by (simp add: package_key_of_def loadContents_def)
      have n1: "nextPromise ?h1 \<noteq> p" using nf by (simp add: loadContents_def)
      have v1: "view p (ckey c) ?h1 = view p (ckey c) h"
        unfolding loadContents_def using nk by (intro view_trace_other) auto
      from on False show ?thesis
        by (simp add: downloadOrPrefetch_def Let_def view_addOngoingDownload [OF n1] k1 nk v1)
    qed
  qed
qed

lemma view_step_chain_other:
  assumes qp: "q \<noteq> p" and kk: "ckey d \<noteq> k"
  shows "view p k (step_chain q d out h) = view p k h"
proof -
  have st: "\<And>s ex. view p k (h\<lparr>store := storePackageStatus (ckey d) s ex (clock h) (store h)\<rparr>) = view p k h"
    using kk by (intro view_store) (simp add: storePackageStatus_other)
  have sp: "view p k (h\<lparr>store := setPackagePreviousStatus (ckey d) (clock h) (store h)\<rparr>) = view p k h"
    using kk by (intro view_store) (simp add: setPackagePreviousStatus_other)
  show ?thesis
    unfolding step_chain_def Let_def call_downloadFn_def setDownloaded_def
      setPreviousStatusAndReject_def
    using qp kk
    by (cases "cstage d"; cases out)
       (simp_all add: view_await_other view_settle_other view_startDownloads_other st sp)
qed

lemma view_step_all_other:
  assumes qp: "q \<noteq> p" and kk: "ckey d \<noteq> k"
  shows "view p k (step_all q d n out h) = view p k h"
  unfolding step_all_def Let_def using qp kk
  by (cases "cstage d"; cases out)
     (simp_all add: view_await_other view_settle_other view_orphans
        view_download_settles_other)

lemma view_step_foreign:
  assumes i: "handler_inv h" and c: "chains h p = Some c" and f: "foreign p e"
  shows "view p (ckey c) (step e h) = view p (ckey c) h"
proof -
  have other: "\<And>q d. q \<noteq> p \<Longrightarrow> chains h q = Some d \<Longrightarrow> ckey d \<noteq> ckey c"
    using inv_key_unique [OF i _ c] by blast
  show ?thesis
  proof (cases e)
    case (Ev_prefetchPackage m sid)
    then show ?thesis by (simp add: step_def view_prefetchPackage [OF i c])
  next
    case (Ev_downloadOrPrefetch m pf dp)
    then show ?thesis by (simp add: step_def view_downloadOrPrefetch [OF i c])
  next
    case (Ev_settle q out)
    with f other show ?thesis
      by (simp add: step_def view_step_chain_other split: option.splits)
  next
    case (Ev_settleFile q n out)
    with f other show ?thesis
      by (simp add: step_def view_step_all_other split: option.splits)
  next
    case (Ev_settleOrphan n out)
    with f show ?thesis by simp
  next
    case (Ev_setOnline b)
    then show ?thesis by (simp add: step_def view_def)
  next
    case Ev_tick
    then show ?thesis by (simp add: step_def view_def)
  next
    case Ev_restart
    with f show ?thesis by simp
  qed
qed

lemma view_chain: "view p k h' = view p k h \<Longrightarrow> chains h' p = chains h p"
  by (simp add: view_def)

lemma view_exec_foreign:
  assumes "handler_inv h" "chains h p = Some c" "\<forall>e\<in>set es. foreign p e"
  shows "view p (ckey c) (exec es h) = view p (ckey c) h"
  using assms
proof (induction es arbitrary: h)
  case Nil
  then show ?case by (simp add: exec_def)
next
  case (Cons e es)
  have v: "view p (ckey c) (step e h) = view p (ckey c) h"
    using Cons.prems by (intro view_step_foreign) auto
  have "view p (ckey c) (exec es (step e h)) = view p (ckey c) (step e h)"
    using Cons.prems view_chain [OF v] by (intro Cons.IH) (auto simp: inv_step)
  with v show ?case by (simp add: exec_def)
qed

section \<open>A chain's settlements act on its view only\<close>

lemma storePackageStatus_at_none:
  "st k = None \<Longrightarrow>
   storePackageStatus k s ex now st k =
     Some \<lparr>status = s, previousStatus = None, extra = ex, updated = now\<rparr>"
  by (simp add: storePackageStatus_def set_status_def setPrevious_def)

lemma storePackageStatus_at_some:
  "st k = Some r \<Longrightarrow>
   storePackageStatus k s ex now st k =
     Some \<lparr>status = s,
       previousStatus =
         (if s = DOWNLOADING
          then (if status r = DOWNLOADING then previousStatus r else Some (status r))
          else if status r = DOWNLOADING \<and> s = DOWNLOADED then None else previousStatus r),
       extra = (case ex of None \<Rightarrow> extra r | Some x \<Rightarrow> Some x), updated = now\<rparr>"
  by (simp add: storePackageStatus_def set_status_def setPrevious_def split: option.splits)

lemma setPackagePreviousStatus_at_none:
  "st k = None \<Longrightarrow> setPackagePreviousStatus k now st k = None"
  by (simp add: setPackagePreviousStatus_def restorePrevious_def)

lemma setPackagePreviousStatus_at_some:
  "st k = Some r \<Longrightarrow>
   setPackagePreviousStatus k now st k =
     Some \<lparr>status = (case previousStatus r of None \<Rightarrow> NOT_DOWNLOADED | Some s \<Rightarrow> s),
       previousStatus = previousStatus r, extra = extra r, updated = now\<rparr>"
  by (simp add: setPackagePreviousStatus_def restorePrevious_def)

lemma proj_storePackageStatus:
  assumes "map_option proj (st k) = map_option proj (st' k)"
  shows "map_option proj (storePackageStatus k s ex now st k) =
   map_option proj (storePackageStatus k s ex now' st' k)"
proof (cases "st k")
  case None
  with assms have "st' k = None" by simp
  with None show ?thesis by (simp add: storePackageStatus_at_none proj_def)
next
  case (Some r)
  with assms obtain r' where r': "st' k = Some r'" by (cases "st' k") auto
  with Some assms have e: "status r = status r'" "previousStatus r = previousStatus r'"
    "extra r = extra r'" by (simp_all add: proj_def)
  show ?thesis
    unfolding storePackageStatus_at_some [of st k r, OF Some]
      storePackageStatus_at_some [of st' k r', OF r'] e
    by (simp add: proj_def)
qed

lemma proj_setPackagePreviousStatus:
  assumes "map_option proj (st k) = map_option proj (st' k)"
  shows "map_option proj (setPackagePreviousStatus k now st k) =
   map_option proj (setPackagePreviousStatus k now' st' k)"
proof (cases "st k")
  case None
  with assms have "st' k = None" by simp
  with None show ?thesis by (simp add: setPackagePreviousStatus_at_none)
next
  case (Some r)
  with assms obtain r' where r': "st' k = Some r'" by (cases "st' k") auto
  with Some assms have e: "status r = status r'" "previousStatus r = previousStatus r'"
    "extra r = extra r'" by (simp_all add: proj_def)
  show ?thesis
    unfolding setPackagePreviousStatus_at_some [of st k r, OF Some]
      setPackagePreviousStatus_at_some [of st' k r', OF r'] e
    by (simp add: proj_def)
qed

lemma view_await_cong:
  "view p k h = view p k g \<Longrightarrow> view p k (await p k stg cs h) = view p k (await p k stg cs g)"
  by (simp add: view_def await_def key_trace_append)

lemma view_settle_cong:
  "view p k h = view p k g \<Longrightarrow> view p k (settle p k s h) = view p k (settle p k s g)"
  by (simp add: view_def settle_def)

lemma view_store_cong:
  "view p k h = view p k g \<Longrightarrow> map_option proj (st k) = map_option proj (st' k) \<Longrightarrow>
   view p k (h\<lparr>store := st\<rparr>) = view p k (g\<lparr>store := st'\<rparr>)"
  by (simp add: view_def)

lemma view_store_proj: "view p k h = view p k g \<Longrightarrow> map_option proj (store h k) = map_option proj (store g k)"
  by (simp add: view_def)

lemma view_package_download_starts_cong:
  assumes v: "view p k h = view p k g"
  shows "view p k (package_download_starts k h) = view p k (package_download_starts k g)"
  unfolding package_download_starts_def
  by (intro view_store_cong v proj_storePackageStatus view_store_proj [OF v])

lemma view_startDownloads_cong:
  assumes v: "view p k h = view p k g"
  shows "view p k (startDownloads p k pf dp contents intro h) =
   view p k (startDownloads p k pf dp contents intro g)"
proof -
  note w = view_package_download_starts_cong [OF v]
  have a: "\<And>stg cs. view p k (await p k stg cs (package_download_starts k h)) =
     view p k (await p k stg cs (package_download_starts k g))"
    using w by (rule view_await_cong)
  have s: "\<And>st. view p k (settle p k st h) = view p k (settle p k st g)"
    using v by (rule view_settle_cong)
  show ?thesis
    unfolding startDownloads_def Let_def
    by (simp add: a s split: option.splits list.splits)
qed

lemma view_step_chain_cong:
  assumes v: "view p k h = view p k g" and k: "ckey c = k"
  shows "view p k (step_chain p c out h) = view p k (step_chain p c out g)"
proof -
  note pr = view_store_proj [OF v]
  have a: "\<And>s ex. view p k (h\<lparr>store := storePackageStatus k s ex (clock h) (store h)\<rparr>) =
     view p k (g\<lparr>store := storePackageStatus k s ex (clock g) (store g)\<rparr>)"
    by (intro view_store_cong v proj_storePackageStatus pr)
  have b: "view p k (h\<lparr>store := setPackagePreviousStatus k (clock h) (store h)\<rparr>) =
     view p k (g\<lparr>store := setPackagePreviousStatus k (clock g) (store g)\<rparr>)"
    by (intro view_store_cong v proj_setPackagePreviousStatus pr)
  show ?thesis
    unfolding step_chain_def Let_def call_downloadFn_def setDownloaded_def
      setPreviousStatusAndReject_def k
    by (cases "cstage c"; cases out; simp add: v)
       (intro view_await_cong view_settle_cong view_startDownloads_cong a b v)+
qed

lemma view_step_settle_cong:
  assumes v: "view p k h = view p k g" and c: "chains g p = Some c" and k: "ckey c = k"
  shows "view p k (step (Ev_settle p out) h) = view p k (step (Ev_settle p out) g)"
proof -
  have "chains h p = Some c" using v c by (simp add: view_def)
  with c show ?thesis by (simp add: step_def view_step_chain_cong [OF v k])
qed

lemma view_run:
  assumes "handler_inv h" "view p k h = view p k g" "quiet p sched"
    "alive p k (map snd sched) g"
  shows "view p k (run p sched h) = view p k (plain p (map snd sched) g)"
  using assms
proof (induction sched arbitrary: h g)
  case Nil
  then show ?case by simp
next
  case (Cons a sched)
  obtain es out where a: "a = (es, out)" by (cases a)
  from Cons.prems(4) a obtain c where c: "chains g p = Some c" "ckey c = k"
    and al: "alive p k (map snd sched) (step (Ev_settle p out) g)"
    by (auto split: option.splits)
  have ch: "chains h p = Some c" using Cons.prems(2) c by (simp add: view_def)
  have q: "\<forall>e\<in>set es. foreign p e" "quiet p sched"
    using Cons.prems(3) a by (auto simp: quiet_def)
  have v1: "view p k (exec es h) = view p k g"
    using view_exec_foreign [OF Cons.prems(1) ch q(1)] c(2) Cons.prems(2) by simp
  have i1: "handler_inv (step (Ev_settle p out) (exec es h))"
    using Cons.prems(1) by (simp add: inv_step inv_exec)
  have v2: "view p k (step (Ev_settle p out) (exec es h)) = view p k (step (Ev_settle p out) g)"
    using v1 c by (rule view_step_settle_cong)
  show ?case
    using Cons.IH [OF i1 v2 q(2) al] a by simp
qed

section \<open>One attempt of prefetchPackage, settlement by settlement\<close>

lemmas chain_defs = step_def step_chain_def await_def settle_def call_downloadFn_def
  setDownloaded_def setPreviousStatusAndReject_def key_trace_append

lemma key_trace_Nil: "key_trace k [] = []"
  by (simp add: key_trace_def)

lemma key_trace_Cons:
  "key_trace k (c # cs) = (if call_key c = k then c # key_trace k cs else key_trace k cs)"
  by (simp add: key_trace_def)

lemma status_after_rollback:
  "stored_status (setPackagePreviousStatus k t2 (storePackageStatus k DOWNLOADING None t1 st)) k =
     (if stored_status st k = DOWNLOADING
      then (case stored_previous st k of None \<Rightarrow> NOT_DOWNLOADED | Some s \<Rightarrow> s)
      else stored_status st k)"
  by (simp add: status_after_restore previous_after_downloading)
     (simp add: stored_status_def stored_previous_def)

lemma extra_after_rollback:
  "stored_extra (setPackagePreviousStatus k t2 (storePackageStatus k DOWNLOADING None t1 st)) k =
     stored_extra st k"
  by (simp add: extra_after_restore extra_after_downloading)

lemmas store_facts = status_after_downloading extra_after_downloading
  status_after_downloaded extra_after_downloaded status_after_rollback extra_after_rollback

lemma plain_started:
  fixes v1 :: jsvalue
  assumes c: "chains g p = Some \<lparr>ckey = k, cstage = SetDownloading\<rparr>"
  defines "g' \<equiv> plain p [Resolve v1] g"
  shows "chains g' p = Some \<lparr>ckey = k, cstage = DownloadFn\<rparr>"
    and "promises g' p = promises g p"
    and "downloadPromises g' k = downloadPromises g k"
    and "stored_status (store g') k = DOWNLOADING"
    and "stored_extra (store g') k = stored_extra (store g) k"
    and "key_trace k (trace g') = key_trace k (trace g) @ [Call_downloadFn k]"
    and "alive p k [Resolve v1] g"
  unfolding g'_def using c
  by (simp_all add: chain_defs key_trace_Cons key_trace_Nil store_facts)

lemma plain_success:
  fixes v1 R v3 :: jsvalue
  assumes c: "chains g p = Some \<lparr>ckey = k, cstage = SetDownloading\<rparr>"
  defines "g' \<equiv> plain p [Resolve v1, Resolve R, Resolve v3] g"
  shows "chains g' p = None"
    and "promises g' p = Some (Resolved v3)"
    and "downloadPromises g' k = None"
    and "stored_status (store g') k = DOWNLOADED"
    and "stored_extra (store g') k = Some (string_or_empty R)"
    and "key_trace k (trace g') = key_trace k (trace g) @
           [Call_downloadFn k, Call_storePackageStatus k DOWNLOADED (Some (string_or_empty R))]"
    and "alive p k [Resolve v1, Resolve R, Resolve v3] g"
  unfolding g'_def using c
  by (simp_all add: chain_defs key_trace_Cons key_trace_Nil store_facts)

lemma plain_work_fails:
  fixes v1 E v3 :: jsvalue
  assumes c: "chains g p = Some \<lparr>ckey = k, cstage = SetDownloading\<rparr>"
  defines "g' \<equiv> plain p [Resolve v1, Reject E, Resolve v3] g"
  shows "chains g' p = None"
    and "promises g' p = Some (Rejected E)"
    and "downloadPromises g' k = None"
    and "stored_status (store g') k =
           (if stored_status (store g) k = DOWNLOADING
            then (case stored_previous (store g) k of None \<Rightarrow> NOT_DOWNLOADED | Some s \<Rightarrow> s)
            else stored_status (store g) k)"
    and "stored_extra (store g') k = stored_extra (store g) k"
    and "key_trace k (trace g') = key_trace k (trace g) @
           [Call_downloadFn k, Call_setPackagePreviousStatus k]"
    and "alive p k [Resolve v1, Reject E, Resolve v3] g"
  unfolding g'_def using c
  by (simp_all add: chain_defs key_trace_Cons key_trace_Nil store_facts)

lemma plain_work_fails_any:
  fixes v1 E :: jsvalue and o3 :: outcome
  assumes c: "chains g p = Some \<lparr>ckey = k, cstage = SetDownloading\<rparr>"
  defines "g' \<equiv> plain p [Resolve v1, Reject E, o3] g"
  shows "chains g' p = None"
    and "key_trace k (trace g') = key_trace k (trace g) @
           [Call_downloadFn k, Call_setPackagePreviousStatus k]"
    and "alive p k [Resolve v1, Reject E, o3] g"
  unfolding g'_def using c
  by (cases o3; simp add: chain_defs key_trace_Cons key_trace_Nil)+

lemma plain_write_fails:
  fixes v1 R e v4 :: jsvalue
  assumes c: "chains g p = Some \<lparr>ckey = k, cstage = SetDownloading\<rparr>"
  defines "g' \<equiv> plain p [Resolve v1, Resolve R, Reject e, Resolve v4] g"
  shows "chains g' p = None"
    and "promises g' p = Some (Rejected e)"
    and "downloadPromises g' k = None"
    and "stored_status (store g') k =
           (if stored_status (store g) k = DOWNLOADING
            then (case stored_previous (store g) k of None \<Rightarrow> NOT_DOWNLOADED | Some s \<Rightarrow> s)
            else stored_status (store g) k)"
    and "stored_extra (store g') k = stored_extra (store g) k"
    and "key_trace k (trace g') = key_trace k (trace g) @
           [Call_downloadFn k, Call_storePackageStatus k DOWNLOADED (Some (string_or_empty R)),
            Call_setPackagePreviousStatus k]"
    and "alive p k [Resolve v1, Resolve R, Reject e, Resolve v4] g"
  unfolding g'_def using c
  by (simp_all add: chain_defs key_trace_Cons key_trace_Nil store_facts)

lemma plain_write_fails_any:
  fixes v1 R e :: jsvalue and o4 :: outcome
  assumes c: "chains g p = Some \<lparr>ckey = k, cstage = SetDownloading\<rparr>"
  defines "g' \<equiv> plain p [Resolve v1, Resolve R, Reject e, o4] g"
  shows "chains g' p = None"
    and "key_trace k (trace g') = key_trace k (trace g) @
           [Call_downloadFn k, Call_storePackageStatus k DOWNLOADED (Some (string_or_empty R)),
            Call_setPackagePreviousStatus k]"
    and "alive p k [Resolve v1, Resolve R, Reject e, o4] g"
  unfolding g'_def using c
  by (cases o4; simp add: chain_defs key_trace_Cons key_trace_Nil)+

lemma plain_start_fails_any:
  fixes e :: jsvalue and o2 :: outcome
  assumes c: "chains g p = Some \<lparr>ckey = k, cstage = SetDownloading\<rparr>"
  defines "g' \<equiv> plain p [Reject e, o2] g"
  shows "chains g' p = None"
    and "key_trace k (trace g') = key_trace k (trace g) @ [Call_setPackagePreviousStatus k]"
    and "alive p k [Reject e, o2] g"
  unfolding g'_def using c
  by (cases o2; simp add: chain_defs key_trace_Cons key_trace_Nil)+

lemma view_obs:
  assumes "view p k h = view p k g"
  shows "chains h p = chains g p"
    and "promises h p = promises g p"
    and "downloadPromises h k = downloadPromises g k"
    and "key_trace k (trace h) = key_trace k (trace g)"
    and "stored_status (store h) k = stored_status (store g) k"
    and "stored_extra (store h) k = stored_extra (store g) k"
    and "stored_previous (store h) k = stored_previous (store g) k"
proof -
  from assms have m: "map_option proj (store h k) = map_option proj (store g k)"
    by (simp add: view_def)
  from assms show "chains h p = chains g p" "promises h p = promises g p"
    "downloadPromises h k = downloadPromises g k" "key_trace k (trace h) = key_trace k (trace g)"
    by (simp_all add: view_def)
  from m show "stored_status (store h) k = stored_status (store g) k"
    "stored_extra (store h) k = stored_extra (store g) k"
    "stored_previous (store h) k = stored_previous (store g) k"
    by (cases "store h k"; cases "store g k";
        simp add: stored_status_def stored_extra_def stored_previous_def proj_def)+
qed

lemma prefetchPackage_starts:
  assumes on: "online h" and nd: "\<not> isDownloading m (siteIdOrCurrent sid h) h"
  defines "k \<equiv> package_key_of m (siteIdOrCurrent sid h) h"
  defines "h1 \<equiv> snd (prefetchPackage m sid h)"
  shows "fst (prefetchPackage m sid h) = nextPromise h"
    and "chains h1 (nextPromise h) = Some \<lparr>ckey = k, cstage = SetDownloading\<rparr>"
    and "promises h1 (nextPromise h) = Some Pending"
    and "downloadPromises h1 k = Some (nextPromise h)"
    and "store h1 = store h"
    and "key_trace k (trace h1) = key_trace k (trace h) @ [Call_storePackageStatus k DOWNLOADING None]"
  unfolding h1_def k_def using on nd
  by (simp_all add: prefetchPackage_def Let_def isDownloading_setDownloading
      addOngoingDownload_def setDownloading_def package_key_of_def key_trace_append
      key_trace_Cons key_trace_Nil)

section \<open>Reachable states and attempts\<close>

lemma reachable_inv: "reachable h \<Longrightarrow> handler_inv h"
  by (induction rule: reachable.induct) (simp_all add: inv_initial inv_step)

lemma reachable_exec: "reachable h \<Longrightarrow> reachable (exec es h)"
  unfolding exec_def by (induction es arbitrary: h) (simp_all add: reachable.step)



lemma step_downloadOrPrefetch:
  "snd (downloadOrPrefetch m pf dp h) = step (Ev_downloadOrPrefetch m pf dp) h"
  by (simp add: step_def)

lemma static_newPromise:
  "component (snd (newPromise s h)) = component h"
  "currentSiteId (snd (newPromise s h)) = currentSiteId h"
  by (simp_all add: newPromise_def)

lemma static_addOngoingDownload:
  "component (snd (addOngoingDownload m stg site h)) = component h"
  "currentSiteId (snd (addOngoingDownload m stg site h)) = currentSiteId h"
  by (simp_all add: addOngoingDownload_def Let_def)

lemma static_getOngoingDownload:
  "component (snd (getOngoingDownload m site h)) = component h"
  "currentSiteId (snd (getOngoingDownload m site h)) = currentSiteId h"
  by (simp_all add: getOngoingDownload_def static_newPromise split: option.splits)

lemma static_prefetchPackage:
  "component (snd (prefetchPackage m sid h)) = component h"
  "currentSiteId (snd (prefetchPackage m sid h)) = currentSiteId h"
  by (simp_all add: prefetchPackage_def Let_def static_newPromise static_getOngoingDownload
      static_addOngoingDownload setDownloading_def)

lemma static_downloadOrPrefetch:
  "component (snd (downloadOrPrefetch m pf dp h)) = component h"
  "currentSiteId (snd (downloadOrPrefetch m pf dp h)) = currentSiteId h"
  by (simp_all add: downloadOrPrefetch_def Let_def static_newPromise static_getOngoingDownload
      static_addOngoingDownload loadContents_def)

lemma static_await:
  "component (await p k stg cs h) = component h"
  "currentSiteId (await p k stg cs h) = currentSiteId h"
  by (simp_all add: await_def)

lemma static_settle:
  "component (settle p k s h) = component h"
  "currentSiteId (settle p k s h) = currentSiteId h"
  by (simp_all add: settle_def)

lemma static_package_download_starts:
  "component (package_download_starts k h) = component h"
  "currentSiteId (package_download_starts k h) = currentSiteId h"
  by (simp_all add: package_download_starts_def)

lemma static_download_settles:
  "component (download_settles k d out h) = component h"
  "currentSiteId (download_settles k d out h) = currentSiteId h"
  by (cases d; cases out; simp add: download_settles_def)+

lemma static_startDownloads:
  "component (startDownloads p k pf dp contents intro h) = component h"
  "currentSiteId (startDownloads p k pf dp contents intro h) = currentSiteId h"
  by (simp_all add: startDownloads_def Let_def static_await static_settle
      static_package_download_starts split: option.splits list.splits)

lemma static_step_chain:
  "component (step_chain p c out h) = component h"
  "currentSiteId (step_chain p c out h) = currentSiteId h"
  unfolding step_chain_def Let_def call_downloadFn_def setDownloaded_def
    setPreviousStatusAndReject_def
  by (cases "cstage c"; cases out; simp add: static_await static_settle static_startDownloads)+

lemma static_step_all:
  "component (step_all p c i out h) = component h"
  "currentSiteId (step_all p c i out h) = currentSiteId h"
  unfolding step_all_def Let_def
  by (cases "cstage c"; cases out;
      simp add: static_await static_settle static_download_settles)+

lemma static_step_orphan:
  "component (step_orphan n out h) = component h"
  "currentSiteId (step_orphan n out h) = currentSiteId h"
  unfolding step_orphan_def by (simp_all add: static_download_settles)

lemma static_step:
  "component (step e h) = component h"
  "currentSiteId (step e h) = currentSiteId h"
  unfolding step_def
  by (cases e; simp add: static_prefetchPackage static_downloadOrPrefetch static_step_chain
      static_step_all static_step_orphan split: option.splits)+

lemma static_exec:
  "component (exec es h) = component h"
  "currentSiteId (exec es h) = currentSiteId h"
  unfolding exec_def by (induction es arbitrary: h; simp add: static_step)+


lemma static_key:
  assumes "component h' = component h" "currentSiteId h' = currentSiteId h"
  shows "package_key_of m (siteIdOrCurrent sid h') h' = package_key_of m (siteIdOrCurrent sid h) h"
  using assms by (simp add: package_key_of_def siteIdOrCurrent_def split: option.splits)

text \<open>
  An attempt: \<open>prefetchPackage\<close> is called online for a key that is not in flight, and
  the chain it starts runs through a quiet schedule. What the chain can see at the end
  is what the same settlements give with nothing in between.
\<close>

lemma attempt_obs:
  assumes i: "handler_inv h" and on: "online h"
    and nd: "\<not> isDownloading m (siteIdOrCurrent sid h) h"
    and q: "quiet (nextPromise h) sched"
    and al: "alive (nextPromise h) (package_key_of m (siteIdOrCurrent sid h) h) (map snd sched)
               (snd (prefetchPackage m sid h))"
  defines "p \<equiv> nextPromise h"
  defines "k \<equiv> package_key_of m (siteIdOrCurrent sid h) h"
  defines "hF \<equiv> run (nextPromise h) sched (snd (prefetchPackage m sid h))"
  defines "gF \<equiv> plain (nextPromise h) (map snd sched) (snd (prefetchPackage m sid h))"
  shows "chains hF p = chains gF p"
    and "promises hF p = promises gF p"
    and "downloadPromises hF k = downloadPromises gF k"
    and "key_trace k (trace hF) = key_trace k (trace gF)"
    and "stored_status (store hF) k = stored_status (store gF) k"
    and "stored_extra (store hF) k = stored_extra (store gF) k"
    and "stored_previous (store hF) k = stored_previous (store gF) k"
proof -
  have "view p k hF = view p k gF"
    unfolding p_def k_def hF_def gF_def
    by (rule view_run [OF inv_prefetchPackage [OF i] refl q al])
  then show "chains hF p = chains gF p" "promises hF p = promises gF p"
    "downloadPromises hF k = downloadPromises gF k"
    "key_trace k (trace hF) = key_trace k (trace gF)"
    "stored_status (store hF) k = stored_status (store gF) k"
    "stored_extra (store hF) k = stored_extra (store gF) k"
    "stored_previous (store hF) k = stored_previous (store gF) k"
    by (rule view_obs)+
qed

lemma attempt_started:
  fixes v1 :: jsvalue
  assumes i: "handler_inv h" and on: "online h"
    and nd: "\<not> isDownloading m (siteIdOrCurrent sid h) h"
    and q: "quiet (nextPromise h) [(es1, Resolve v1)]"
  defines "p \<equiv> nextPromise h"
  defines "k \<equiv> package_key_of m (siteIdOrCurrent sid h) h"
  defines "hF \<equiv> run (nextPromise h) [(es1, Resolve v1)] (snd (prefetchPackage m sid h))"
  shows "chains hF p = Some \<lparr>ckey = k, cstage = DownloadFn\<rparr>"
    and "promises hF p = Some Pending"
    and "downloadPromises hF k = Some p"
    and "stored_status (store hF) k = DOWNLOADING"
    and "stored_extra (store hF) k = stored_extra (store h) k"
    and "key_trace k (trace hF) = key_trace k (trace h) @
           [Call_storePackageStatus k DOWNLOADING None, Call_downloadFn k]"
proof -
  note st = prefetchPackage_starts [OF on nd]
  note pl = plain_started [OF st(2), of v1]
  have al: "alive (nextPromise h) (package_key_of m (siteIdOrCurrent sid h) h)
      (map snd [(es1, Resolve v1)]) (snd (prefetchPackage m sid h))"
    using pl(7) by simp
  note ob = attempt_obs [OF i on nd q al]
  show "chains hF p = Some \<lparr>ckey = k, cstage = DownloadFn\<rparr>"
    "promises hF p = Some Pending"
    "downloadPromises hF k = Some p"
    "stored_status (store hF) k = DOWNLOADING"
    "stored_extra (store hF) k = stored_extra (store h) k"
    "key_trace k (trace hF) = key_trace k (trace h) @
           [Call_storePackageStatus k DOWNLOADING None, Call_downloadFn k]"
    unfolding p_def k_def hF_def using ob pl st by simp_all
qed

lemma attempt_success:
  fixes v1 R v3 :: jsvalue
  assumes i: "handler_inv h" and on: "online h"
    and nd: "\<not> isDownloading m (siteIdOrCurrent sid h) h"
    and q: "quiet (nextPromise h) [(es1, Resolve v1), (es2, Resolve R), (es3, Resolve v3)]"
  defines "p \<equiv> nextPromise h"
  defines "k \<equiv> package_key_of m (siteIdOrCurrent sid h) h"
  defines "hF \<equiv> run (nextPromise h) [(es1, Resolve v1), (es2, Resolve R), (es3, Resolve v3)]
                   (snd (prefetchPackage m sid h))"
  shows "chains hF p = None"
    and "promises hF p = Some (Resolved v3)"
    and "downloadPromises hF k = None"
    and "stored_status (store hF) k = DOWNLOADED"
    and "stored_extra (store hF) k = Some (string_or_empty R)"
    and "key_trace k (trace hF) = key_trace k (trace h) @
           [Call_storePackageStatus k DOWNLOADING None, Call_downloadFn k,
            Call_storePackageStatus k DOWNLOADED (Some (string_or_empty R))]"
proof -
  note st = prefetchPackage_starts [OF on nd]
  note pl = plain_success [OF st(2), of v1 R v3]
  have al: "alive (nextPromise h) (package_key_of m (siteIdOrCurrent sid h) h)
      (map snd [(es1, Resolve v1), (es2, Resolve R), (es3, Resolve v3)])
      (snd (prefetchPackage m sid h))"
    using pl(7) by simp
  note ob = attempt_obs [OF i on nd q al]
  show "chains hF p = None"
    "promises hF p = Some (Resolved v3)"
    "downloadPromises hF k = None"
    "stored_status (store hF) k = DOWNLOADED"
    "stored_extra (store hF) k = Some (string_or_empty R)"
    "key_trace k (trace hF) = key_trace k (trace h) @
           [Call_storePackageStatus k DOWNLOADING None, Call_downloadFn k,
            Call_storePackageStatus k DOWNLOADED (Some (string_or_empty R))]"
    unfolding p_def k_def hF_def using ob pl st by simp_all
qed

lemma attempt_work_fails:
  fixes v1 E v3 :: jsvalue
  assumes i: "handler_inv h" and on: "online h"
    and nd: "\<not> isDownloading m (siteIdOrCurrent sid h) h"
    and q: "quiet (nextPromise h) [(es1, Resolve v1), (es2, Reject E), (es3, Resolve v3)]"
  defines "p \<equiv> nextPromise h"
  defines "k \<equiv> package_key_of m (siteIdOrCurrent sid h) h"
  defines "hF \<equiv> run (nextPromise h) [(es1, Resolve v1), (es2, Reject E), (es3, Resolve v3)]
                   (snd (prefetchPackage m sid h))"
  shows "chains hF p = None"
    and "promises hF p = Some (Rejected E)"
    and "downloadPromises hF k = None"
    and "stored_status (store hF) k =
           (if stored_status (store h) k = DOWNLOADING
            then (case stored_previous (store h) k of None \<Rightarrow> NOT_DOWNLOADED | Some s \<Rightarrow> s)
            else stored_status (store h) k)"
    and "stored_extra (store hF) k = stored_extra (store h) k"
    and "key_trace k (trace hF) = key_trace k (trace h) @
           [Call_storePackageStatus k DOWNLOADING None, Call_downloadFn k,
            Call_setPackagePreviousStatus k]"
proof -
  note st = prefetchPackage_starts [OF on nd]
  note pl = plain_work_fails [OF st(2), of v1 E v3]
  have al: "alive (nextPromise h) (package_key_of m (siteIdOrCurrent sid h) h)
      (map snd [(es1, Resolve v1), (es2, Reject E), (es3, Resolve v3)])
      (snd (prefetchPackage m sid h))"
    using pl(7) by simp
  note ob = attempt_obs [OF i on nd q al]
  show "chains hF p = None"
    "promises hF p = Some (Rejected E)"
    "downloadPromises hF k = None"
    "stored_status (store hF) k =
           (if stored_status (store h) k = DOWNLOADING
            then (case stored_previous (store h) k of None \<Rightarrow> NOT_DOWNLOADED | Some s \<Rightarrow> s)
            else stored_status (store h) k)"
    "stored_extra (store hF) k = stored_extra (store h) k"
    "key_trace k (trace hF) = key_trace k (trace h) @
           [Call_storePackageStatus k DOWNLOADING None, Call_downloadFn k,
            Call_setPackagePreviousStatus k]"
    unfolding p_def k_def hF_def using ob pl st by simp_all
qed

lemma attempt_write_fails:
  fixes v1 R e v4 :: jsvalue
  assumes i: "handler_inv h" and on: "online h"
    and nd: "\<not> isDownloading m (siteIdOrCurrent sid h) h"
    and q: "quiet (nextPromise h)
              [(es1, Resolve v1), (es2, Resolve R), (es3, Reject e), (es4, Resolve v4)]"
  defines "p \<equiv> nextPromise h"
  defines "k \<equiv> package_key_of m (siteIdOrCurrent sid h) h"
  defines "hF \<equiv> run (nextPromise h)
                   [(es1, Resolve v1), (es2, Resolve R), (es3, Reject e), (es4, Resolve v4)]
                   (snd (prefetchPackage m sid h))"
  shows "chains hF p = None"
    and "promises hF p = Some (Rejected e)"
    and "downloadPromises hF k = None"
    and "stored_status (store hF) k =
           (if stored_status (store h) k = DOWNLOADING
            then (case stored_previous (store h) k of None \<Rightarrow> NOT_DOWNLOADED | Some s \<Rightarrow> s)
            else stored_status (store h) k)"
    and "stored_extra (store hF) k = stored_extra (store h) k"
    and "key_trace k (trace hF) = key_trace k (trace h) @
           [Call_storePackageStatus k DOWNLOADING None, Call_downloadFn k,
            Call_storePackageStatus k DOWNLOADED (Some (string_or_empty R)),
            Call_setPackagePreviousStatus k]"
proof -
  note st = prefetchPackage_starts [OF on nd]
  note pl = plain_write_fails [OF st(2), of v1 R e v4]
  have al: "alive (nextPromise h) (package_key_of m (siteIdOrCurrent sid h) h)
      (map snd [(es1, Resolve v1), (es2, Resolve R), (es3, Reject e), (es4, Resolve v4)])
      (snd (prefetchPackage m sid h))"
    using pl(7) by simp
  note ob = attempt_obs [OF i on nd q al]
  show "chains hF p = None"
    "promises hF p = Some (Rejected e)"
    "downloadPromises hF k = None"
    "stored_status (store hF) k =
           (if stored_status (store h) k = DOWNLOADING
            then (case stored_previous (store h) k of None \<Rightarrow> NOT_DOWNLOADED | Some s \<Rightarrow> s)
            else stored_status (store h) k)"
    "stored_extra (store hF) k = stored_extra (store h) k"
    "key_trace k (trace hF) = key_trace k (trace h) @
           [Call_storePackageStatus k DOWNLOADING None, Call_downloadFn k,
            Call_storePackageStatus k DOWNLOADED (Some (string_or_empty R)),
            Call_setPackagePreviousStatus k]"
    unfolding p_def k_def hF_def using ob pl st by simp_all
qed

lemma attempt_trace:
  assumes i: "handler_inv h" and on: "online h"
    and nd: "\<not> isDownloading m (siteIdOrCurrent sid h) h"
    and q: "quiet (nextPromise h) sched"
    and al: "alive (nextPromise h) (package_key_of m (siteIdOrCurrent sid h) h) (map snd sched)
               (snd (prefetchPackage m sid h))"
    and pl: "key_trace (package_key_of m (siteIdOrCurrent sid h) h)
               (trace (plain (nextPromise h) (map snd sched) (snd (prefetchPackage m sid h)))) =
             key_trace (package_key_of m (siteIdOrCurrent sid h) h)
               (trace (snd (prefetchPackage m sid h))) @ cs"
  shows "key_trace (package_key_of m (siteIdOrCurrent sid h) h)
           (trace (run (nextPromise h) sched (snd (prefetchPackage m sid h)))) =
         key_trace (package_key_of m (siteIdOrCurrent sid h) h) (trace h) @
           Call_storePackageStatus (package_key_of m (siteIdOrCurrent sid h) h) DOWNLOADING None # cs"
  using attempt_obs(4) [OF i on nd q al] pl prefetchPackage_starts(6) [OF on nd] by simp

lemma second_call_joins:
  assumes i: "handler_inv h" and on: "online h"
    and nd: "\<not> isDownloading m (siteIdOrCurrent sid h) h"
    and f: "\<forall>e\<in>set es. foreign (nextPromise h) e"
    and on2: "online (exec es (snd (prefetchPackage m sid h)))"
  shows "prefetchPackage m sid (exec es (snd (prefetchPackage m sid h))) =
           (nextPromise h, exec es (snd (prefetchPackage m sid h)))"
proof -
  let ?h1 = "snd (prefetchPackage m sid h)"
  let ?k = "package_key_of m (siteIdOrCurrent sid h) h"
  note st = prefetchPackage_starts [OF on nd]
  have "view (nextPromise h) (ckey \<lparr>ckey = ?k, cstage = SetDownloading\<rparr>) (exec es ?h1) =
        view (nextPromise h) (ckey \<lparr>ckey = ?k, cstage = SetDownloading\<rparr>) ?h1"
    by (rule view_exec_foreign [OF inv_prefetchPackage [OF i] st(2) f])
  then have reg: "downloadPromises (exec es ?h1) ?k = Some (nextPromise h)"
    using st(4) by (simp add: view_def)
  have key: "package_key_of m (siteIdOrCurrent sid (exec es ?h1)) (exec es ?h1) = ?k"
    by (rule static_key) (simp_all add: static_exec static_prefetchPackage)
  have "isDownloading m (siteIdOrCurrent sid (exec es ?h1)) (exec es ?h1)"
    using reg key by (simp add: isDownloading_def)
  then show ?thesis
    using on2 reg key by (simp add: prefetchPackage_def Let_def getOngoingDownload_registered)
qed

lemma settle_result:
  "downloadPromises (settle p k s h) k = None"
  "promises (settle p k s h) p = Some s"
  "chains (settle p k s h) p = None"
  "store (settle p k s h) = store h"
  by (simp_all add: settle_def)




lemma store_calls_append: "store_calls (xs @ ys) = store_calls xs @ store_calls ys"
  by (simp add: store_calls_def)

lemma store_calls_simps:
  "store_calls [] = []"
  "store_calls (c # cs) = (if is_store_call c then c # store_calls cs else store_calls cs)"
  by (simp_all add: store_calls_def)

lemma siteIdOrCurrent_None: "siteIdOrCurrent None h = currentSiteId h"
  by (simp add: siteIdOrCurrent_def)





section \<open>The work executing for a key\<close>





section \<open>One attempt of downloadOrPrefetch, settlement by settlement\<close>

lemma downloadOrPrefetch_starts:
  fixes pf :: bool and dp :: "string option"
  assumes on: "online h" and nd: "\<not> isDownloading m (currentSiteId h) h"
  defines "k \<equiv> package_key_of m (currentSiteId h) h"
  defines "h1 \<equiv> snd (downloadOrPrefetch m pf dp h)"
  shows "fst (downloadOrPrefetch m pf dp h) = nextPromise h"
    and "chains h1 (nextPromise h) = Some \<lparr>ckey = k, cstage = LoadContents pf dp\<rparr>"
    and "promises h1 (nextPromise h) = Some Pending"
    and "downloadPromises h1 k = Some (nextPromise h)"
    and "store h1 = store h"
    and "key_trace k (trace h1) = key_trace k (trace h) @ [Call_loadContents k]"
    and "store_calls (trace h1) = store_calls (trace h)"
  unfolding h1_def k_def using on nd
  by (simp_all add: downloadOrPrefetch_def Let_def isDownloading_loadContents
      addOngoingDownload_def loadContents_def package_key_of_def key_trace_append
      key_trace_Cons key_trace_Nil store_calls_append store_calls_simps)

lemma plain_load_fails:
  fixes e :: jsvalue
  assumes c: "chains g p = Some \<lparr>ckey = k, cstage = LoadContents pf dp\<rparr>"
  defines "g' \<equiv> plain p [Reject e] g"
  shows "chains g' p = None"
    and "promises g' p = Some (Rejected e)"
    and "downloadPromises g' k = None"
    and "store g' = store g"
    and "trace g' = trace g"
    and "alive p k [Reject e] g"
  unfolding g'_def using c
  by (simp_all add: chain_defs)

lemma plain_loaded:
  fixes v1 :: jsvalue
  assumes c: "chains g p = Some \<lparr>ckey = k, cstage = LoadContents pf dp\<rparr>"
  defines "g' \<equiv> plain p [Resolve v1] g"
  shows "chains g' p = Some \<lparr>ckey = k, cstage = GetIntroFiles pf dp v1\<rparr>"
    and "promises g' p = promises g p"
    and "downloadPromises g' k = downloadPromises g k"
    and "store g' = store g"
    and "trace g' = trace g @ [Call_getIntroFiles k]"
    and "alive p k [Resolve v1] g"
  unfolding g'_def using c
  by (simp_all add: chain_defs)

lemma plain_intro_fails:
  fixes v1 e :: jsvalue
  assumes c: "chains g p = Some \<lparr>ckey = k, cstage = LoadContents pf dp\<rparr>"
  defines "g' \<equiv> plain p [Resolve v1, Reject e] g"
  shows "chains g' p = None"
    and "promises g' p = Some (Rejected e)"
    and "downloadPromises g' k = None"
    and "store g' = store g"
    and "trace g' = trace g @ [Call_getIntroFiles k]"
    and "alive p k [Resolve v1, Reject e] g"
  unfolding g'_def using c
  by (simp_all add: chain_defs)

lemma plain_concat_fails:
  fixes v1 v2 :: jsvalue
  assumes c: "chains g p = Some \<lparr>ckey = k, cstage = LoadContents pf dp\<rparr>"
    and t: "\<not> truthy dp" and n: "concat_files v2 (getContentDownloadableFiles v1) = None"
  defines "g' \<equiv> plain p [Resolve v1, Resolve v2] g"
  shows "chains g' p = None"
    and "promises g' p = Some (Rejected (JError ''TypeError''))"
    and "downloadPromises g' k = None"
    and "store g' = store g"
    and "trace g' = trace g @ [Call_getIntroFiles k]"
    and "alive p k [Resolve v1, Resolve v2] g"
  unfolding g'_def using c t n
  by (simp_all add: chain_defs startDownloads_def Let_def)

lemma plain_downloads_started:
  fixes v1 v2 :: jsvalue
  assumes c: "chains g p = Some \<lparr>ckey = k, cstage = LoadContents pf dp\<rparr>"
    and t: "truthy dp"
  defines "g' \<equiv> plain p [Resolve v1, Resolve v2] g"
  shows "chains g' p =
           Some \<lparr>ckey = k, cstage = PromiseAll [(FilesDownload, None), (PackageDownload, None)]\<rparr>"
    and "promises g' p = promises g p"
    and "downloadPromises g' k = downloadPromises g k"
    and "stored_status (store g') k = DOWNLOADING"
    and "trace g' = trace g @
           [Call_getIntroFiles k, Call_downloadOrPrefetchFiles k v2 pf,
            Call_packageDownload k pf (FileList (getContentDownloadableFiles v1)) dp]"
    and "alive p k [Resolve v1, Resolve v2] g"
  unfolding g'_def using c t
  by (simp_all add: chain_defs startDownloads_def Let_def package_download_starts_def
      store_facts)

lemma plain_download_started:
  fixes v1 v2 :: jsvalue
  assumes c: "chains g p = Some \<lparr>ckey = k, cstage = LoadContents pf dp\<rparr>"
    and t: "\<not> truthy dp" and n: "concat_files v2 (getContentDownloadableFiles v1) = Some fs"
  defines "g' \<equiv> plain p [Resolve v1, Resolve v2] g"
  shows "chains g' p = Some \<lparr>ckey = k, cstage = PromiseAll [(PackageDownload, None)]\<rparr>"
    and "promises g' p = promises g p"
    and "downloadPromises g' k = downloadPromises g k"
    and "stored_status (store g') k = DOWNLOADING"
    and "trace g' = trace g @ [Call_getIntroFiles k, Call_packageDownload k pf fs None]"
    and "alive p k [Resolve v1, Resolve v2] g"
  unfolding g'_def using c t n
  by (simp_all add: chain_defs startDownloads_def Let_def package_download_starts_def
      store_facts)

lemma resource_obs:
  fixes pf :: bool and dp :: "string option"
  assumes i: "handler_inv h" and on: "online h"
    and nd: "\<not> isDownloading m (currentSiteId h) h"
    and q: "quiet (nextPromise h) sched"
    and al: "alive (nextPromise h) (package_key_of m (currentSiteId h) h) (map snd sched)
               (snd (downloadOrPrefetch m pf dp h))"
  defines "p \<equiv> nextPromise h"
  defines "k \<equiv> package_key_of m (currentSiteId h) h"
  defines "hF \<equiv> run (nextPromise h) sched (snd (downloadOrPrefetch m pf dp h))"
  defines "gF \<equiv> plain (nextPromise h) (map snd sched) (snd (downloadOrPrefetch m pf dp h))"
  shows "chains hF p = chains gF p"
    and "promises hF p = promises gF p"
    and "downloadPromises hF k = downloadPromises gF k"
    and "key_trace k (trace hF) = key_trace k (trace gF)"
    and "stored_status (store hF) k = stored_status (store gF) k"
    and "stored_extra (store hF) k = stored_extra (store gF) k"
    and "stored_previous (store hF) k = stored_previous (store gF) k"
proof -
  have "view p k hF = view p k gF"
    unfolding p_def k_def hF_def gF_def
    by (rule view_run [OF inv_downloadOrPrefetch [OF i] refl q al])
  then show "chains hF p = chains gF p" "promises hF p = promises gF p"
    "downloadPromises hF k = downloadPromises gF k"
    "key_trace k (trace hF) = key_trace k (trace gF)"
    "stored_status (store hF) k = stored_status (store gF) k"
    "stored_extra (store hF) k = stored_extra (store gF) k"
    "stored_previous (store hF) k = stored_previous (store gF) k"
    by (rule view_obs)+
qed

lemma resource_load_fails:
  fixes e :: jsvalue and pf :: bool and dp :: "string option"
  assumes i: "handler_inv h" and on: "online h"
    and nd: "\<not> isDownloading m (currentSiteId h) h"
    and q: "quiet (nextPromise h) [(es1, Reject e)]"
  defines "p \<equiv> nextPromise h"
  defines "k \<equiv> package_key_of m (currentSiteId h) h"
  defines "hF \<equiv> run (nextPromise h) [(es1, Reject e)] (snd (downloadOrPrefetch m pf dp h))"
  shows "chains hF p = None"
    and "promises hF p = Some (Rejected e)"
    and "downloadPromises hF k = None"
    and "stored_status (store hF) k = stored_status (store h) k"
    and "stored_extra (store hF) k = stored_extra (store h) k"
    and "stored_previous (store hF) k = stored_previous (store h) k"
    and "key_trace k (trace hF) = key_trace k (trace h) @ [Call_loadContents k]"
proof -
  note st = downloadOrPrefetch_starts [OF on nd, of pf dp]
  note pl = plain_load_fails [OF st(2), of e]
  have al: "alive (nextPromise h) (package_key_of m (currentSiteId h) h)
      (map snd [(es1, Reject e)]) (snd (downloadOrPrefetch m pf dp h))"
    using pl(6) by simp
  note ob = resource_obs [OF i on nd q al]
  show "chains hF p = None" "promises hF p = Some (Rejected e)"
    "downloadPromises hF k = None"
    "stored_status (store hF) k = stored_status (store h) k"
    "stored_extra (store hF) k = stored_extra (store h) k"
    "stored_previous (store hF) k = stored_previous (store h) k"
    "key_trace k (trace hF) = key_trace k (trace h) @ [Call_loadContents k]"
    unfolding p_def k_def hF_def using ob pl st by simp_all
qed

lemma resource_loaded:
  fixes v1 :: jsvalue and pf :: bool and dp :: "string option"
  assumes i: "handler_inv h" and on: "online h"
    and nd: "\<not> isDownloading m (currentSiteId h) h"
    and q: "quiet (nextPromise h) [(es1, Resolve v1)]"
  defines "p \<equiv> nextPromise h"
  defines "k \<equiv> package_key_of m (currentSiteId h) h"
  defines "hF \<equiv> run (nextPromise h) [(es1, Resolve v1)] (snd (downloadOrPrefetch m pf dp h))"
  shows "chains hF p = Some \<lparr>ckey = k, cstage = GetIntroFiles pf dp v1\<rparr>"
    and "promises hF p = Some Pending"
    and "downloadPromises hF k = Some p"
    and "stored_status (store hF) k = stored_status (store h) k"
    and "stored_extra (store hF) k = stored_extra (store h) k"
    and "stored_previous (store hF) k = stored_previous (store h) k"
    and "key_trace k (trace hF) =
           key_trace k (trace h) @ [Call_loadContents k, Call_getIntroFiles k]"
proof -
  note st = downloadOrPrefetch_starts [OF on nd, of pf dp]
  note pl = plain_loaded [OF st(2), of v1]
  have al: "alive (nextPromise h) (package_key_of m (currentSiteId h) h)
      (map snd [(es1, Resolve v1)]) (snd (downloadOrPrefetch m pf dp h))"
    using pl(6) by simp
  note ob = resource_obs [OF i on nd q al]
  show "chains hF p = Some \<lparr>ckey = k, cstage = GetIntroFiles pf dp v1\<rparr>"
    "promises hF p = Some Pending"
    "downloadPromises hF k = Some p"
    "stored_status (store hF) k = stored_status (store h) k"
    "stored_extra (store hF) k = stored_extra (store h) k"
    "stored_previous (store hF) k = stored_previous (store h) k"
    "key_trace k (trace hF) =
           key_trace k (trace h) @ [Call_loadContents k, Call_getIntroFiles k]"
    unfolding p_def k_def hF_def using ob pl st
    by (simp_all add: key_trace_append key_trace_Cons key_trace_Nil)
qed

lemma resource_intro_fails:
  fixes v1 e :: jsvalue and pf :: bool and dp :: "string option"
  assumes i: "handler_inv h" and on: "online h"
    and nd: "\<not> isDownloading m (currentSiteId h) h"
    and q: "quiet (nextPromise h) [(es1, Resolve v1), (es2, Reject e)]"
  defines "p \<equiv> nextPromise h"
  defines "k \<equiv> package_key_of m (currentSiteId h) h"
  defines "hF \<equiv> run (nextPromise h) [(es1, Resolve v1), (es2, Reject e)]
                   (snd (downloadOrPrefetch m pf dp h))"
  shows "chains hF p = None"
    and "promises hF p = Some (Rejected e)"
    and "downloadPromises hF k = None"
    and "stored_status (store hF) k = stored_status (store h) k"
    and "stored_extra (store hF) k = stored_extra (store h) k"
    and "stored_previous (store hF) k = stored_previous (store h) k"
    and "key_trace k (trace hF) =
           key_trace k (trace h) @ [Call_loadContents k, Call_getIntroFiles k]"
proof -
  note st = downloadOrPrefetch_starts [OF on nd, of pf dp]
  note pl = plain_intro_fails [OF st(2), of v1 e]
  have al: "alive (nextPromise h) (package_key_of m (currentSiteId h) h)
      (map snd [(es1, Resolve v1), (es2, Reject e)]) (snd (downloadOrPrefetch m pf dp h))"
    using pl(6) by simp
  note ob = resource_obs [OF i on nd q al]
  show "chains hF p = None" "promises hF p = Some (Rejected e)"
    "downloadPromises hF k = None"
    "stored_status (store hF) k = stored_status (store h) k"
    "stored_extra (store hF) k = stored_extra (store h) k"
    "stored_previous (store hF) k = stored_previous (store h) k"
    "key_trace k (trace hF) =
           key_trace k (trace h) @ [Call_loadContents k, Call_getIntroFiles k]"
    unfolding p_def k_def hF_def using ob pl st
    by (simp_all add: key_trace_append key_trace_Cons key_trace_Nil)
qed

lemma resource_concat_fails:
  fixes v1 v2 :: jsvalue and pf :: bool and dp :: "string option"
  assumes i: "handler_inv h" and on: "online h"
    and nd: "\<not> isDownloading m (currentSiteId h) h"
    and q: "quiet (nextPromise h) [(es1, Resolve v1), (es2, Resolve v2)]"
    and t: "\<not> truthy dp" and n: "concat_files v2 (getContentDownloadableFiles v1) = None"
  defines "p \<equiv> nextPromise h"
  defines "k \<equiv> package_key_of m (currentSiteId h) h"
  defines "hF \<equiv> run (nextPromise h) [(es1, Resolve v1), (es2, Resolve v2)]
                   (snd (downloadOrPrefetch m pf dp h))"
  shows "chains hF p = None"
    and "promises hF p = Some (Rejected (JError ''TypeError''))"
    and "downloadPromises hF k = None"
    and "stored_status (store hF) k = stored_status (store h) k"
    and "stored_extra (store hF) k = stored_extra (store h) k"
    and "stored_previous (store hF) k = stored_previous (store h) k"
    and "key_trace k (trace hF) =
           key_trace k (trace h) @ [Call_loadContents k, Call_getIntroFiles k]"
proof -
  note st = downloadOrPrefetch_starts [OF on nd, of pf dp]
  note pl = plain_concat_fails [OF st(2) t n]
  have al: "alive (nextPromise h) (package_key_of m (currentSiteId h) h)
      (map snd [(es1, Resolve v1), (es2, Resolve v2)]) (snd (downloadOrPrefetch m pf dp h))"
    using pl(6) by simp
  note ob = resource_obs [OF i on nd q al]
  show "chains hF p = None" "promises hF p = Some (Rejected (JError ''TypeError''))"
    "downloadPromises hF k = None"
    "stored_status (store hF) k = stored_status (store h) k"
    "stored_extra (store hF) k = stored_extra (store h) k"
    "stored_previous (store hF) k = stored_previous (store h) k"
    "key_trace k (trace hF) =
           key_trace k (trace h) @ [Call_loadContents k, Call_getIntroFiles k]"
    unfolding p_def k_def hF_def using ob pl st
    by (simp_all add: key_trace_append key_trace_Cons key_trace_Nil)
qed

lemma resource_downloads_started:
  fixes v1 v2 :: jsvalue and pf :: bool and dp :: "string option"
  assumes i: "handler_inv h" and on: "online h"
    and nd: "\<not> isDownloading m (currentSiteId h) h"
    and q: "quiet (nextPromise h) [(es1, Resolve v1), (es2, Resolve v2)]"
    and t: "truthy dp"
  defines "p \<equiv> nextPromise h"
  defines "k \<equiv> package_key_of m (currentSiteId h) h"
  defines "hF \<equiv> run (nextPromise h) [(es1, Resolve v1), (es2, Resolve v2)]
                   (snd (downloadOrPrefetch m pf dp h))"
  shows "chains hF p =
           Some \<lparr>ckey = k, cstage = PromiseAll [(FilesDownload, None), (PackageDownload, None)]\<rparr>"
    and "promises hF p = Some Pending"
    and "downloadPromises hF k = Some p"
    and "key_trace k (trace hF) =
           key_trace k (trace h) @
             [Call_loadContents k, Call_getIntroFiles k, Call_downloadOrPrefetchFiles k v2 pf,
              Call_packageDownload k pf (FileList (getContentDownloadableFiles v1)) dp]"
proof -
  note st = downloadOrPrefetch_starts [OF on nd, of pf dp]
  note pl = plain_downloads_started [OF st(2) t, of v1 v2]
  have al: "alive (nextPromise h) (package_key_of m (currentSiteId h) h)
      (map snd [(es1, Resolve v1), (es2, Resolve v2)]) (snd (downloadOrPrefetch m pf dp h))"
    using pl(6) by simp
  note ob = resource_obs [OF i on nd q al]
  show "chains hF p =
           Some \<lparr>ckey = k, cstage = PromiseAll [(FilesDownload, None), (PackageDownload, None)]\<rparr>"
    "promises hF p = Some Pending"
    "downloadPromises hF k = Some p"
    "key_trace k (trace hF) =
           key_trace k (trace h) @
             [Call_loadContents k, Call_getIntroFiles k, Call_downloadOrPrefetchFiles k v2 pf,
              Call_packageDownload k pf (FileList (getContentDownloadableFiles v1)) dp]"
    unfolding p_def k_def hF_def using ob pl st
    by (simp_all add: key_trace_append key_trace_Cons key_trace_Nil)
qed

lemma resource_download_started:
  fixes v1 v2 :: jsvalue and pf :: bool and dp :: "string option"
  assumes i: "handler_inv h" and on: "online h"
    and nd: "\<not> isDownloading m (currentSiteId h) h"
    and q: "quiet (nextPromise h) [(es1, Resolve v1), (es2, Resolve v2)]"
    and t: "\<not> truthy dp" and n: "concat_files v2 (getContentDownloadableFiles v1) = Some fs"
  defines "p \<equiv> nextPromise h"
  defines "k \<equiv> package_key_of m (currentSiteId h) h"
  defines "hF \<equiv> run (nextPromise h) [(es1, Resolve v1), (es2, Resolve v2)]
                   (snd (downloadOrPrefetch m pf dp h))"
  shows "chains hF p = Some \<lparr>ckey = k, cstage = PromiseAll [(PackageDownload, None)]\<rparr>"
    and "promises hF p = Some Pending"
    and "downloadPromises hF k = Some p"
    and "key_trace k (trace hF) =
           key_trace k (trace h) @
             [Call_loadContents k, Call_getIntroFiles k, Call_packageDownload k pf fs None]"
proof -
  note st = downloadOrPrefetch_starts [OF on nd, of pf dp]
  note pl = plain_download_started [OF st(2) t n]
  have al: "alive (nextPromise h) (package_key_of m (currentSiteId h) h)
      (map snd [(es1, Resolve v1), (es2, Resolve v2)]) (snd (downloadOrPrefetch m pf dp h))"
    using pl(6) by simp
  note ob = resource_obs [OF i on nd q al]
  show "chains hF p = Some \<lparr>ckey = k, cstage = PromiseAll [(PackageDownload, None)]\<rparr>"
    "promises hF p = Some Pending"
    "downloadPromises hF k = Some p"
    "key_trace k (trace hF) =
           key_trace k (trace h) @
             [Call_loadContents k, Call_getIntroFiles k, Call_packageDownload k pf fs None]"
    unfolding p_def k_def hF_def using ob pl st
    by (simp_all add: key_trace_append key_trace_Cons key_trace_Nil)
qed

lemma resource_step_no_store_call:
  assumes c: "chains h q = Some c" and rs: "resource_stage (cstage c)"
  shows "store_calls (trace (step (Ev_settle q out) h)) = store_calls (trace h)"
    and "store_calls (trace (step (Ev_settleFile q i out) h)) = store_calls (trace h)"
proof -
  show "store_calls (trace (step (Ev_settle q out) h)) = store_calls (trace h)"
    using c rs
    by (cases "cstage c"; cases out)
       (simp_all add: step_def step_chain_def Let_def await_def settle_def startDownloads_def
          package_download_starts_def store_calls_append store_calls_simps
          split: option.splits)
  show "store_calls (trace (step (Ev_settleFile q i out) h)) = store_calls (trace h)"
    using c rs
    by (cases "cstage c"; cases out; cases "fst (case cstage c of PromiseAll ds \<Rightarrow> ds ! i)")
       (simp_all add: step_def step_all_def Let_def await_def settle_def download_settles_def
          store_calls_append store_calls_simps)
qed

lemma promise_all_step:
  fixes e v :: jsvalue
  assumes i: "handler_inv h" and c: "chains h q = Some c" and s: "cstage c = PromiseAll ds"
    and n: "n < length ds" and pe: "snd (ds ! n) = None"
  shows "promises (step (Ev_settleFile q n (Reject e)) h) q = Some (Rejected e)"
    and "downloadPromises (step (Ev_settleFile q n (Reject e)) h) (ckey c) = None"
    and "list_all (\<lambda>d. snd d \<noteq> None) (ds[n := (fst (ds ! n), Some v)]) \<Longrightarrow>
           promises (step (Ev_settleFile q n (Resolve v)) h) q =
             Some (Resolved (JArray (List.map_filter snd (ds[n := (fst (ds ! n), Some v)]))))"
    and "list_all (\<lambda>d. snd d \<noteq> None) (ds[n := (fst (ds ! n), Some v)]) \<Longrightarrow>
           downloadPromises (step (Ev_settleFile q n (Resolve v)) h) (ckey c) = None"
    and "\<not> list_all (\<lambda>d. snd d \<noteq> None) (ds[n := (fst (ds ! n), Some v)]) \<Longrightarrow>
           promises (step (Ev_settleFile q n (Resolve v)) h) q = Some Pending"
    and "\<not> list_all (\<lambda>d. snd d \<noteq> None) (ds[n := (fst (ds ! n), Some v)]) \<Longrightarrow>
           chains (step (Ev_settleFile q n (Resolve v)) h) q =
             Some \<lparr>ckey = ckey c, cstage = PromiseAll (ds[n := (fst (ds ! n), Some v)])\<rparr>"
proof -
  have pd: "\<And>d o'. promises (download_settles (ckey c) d o' h) = promises h"
    by (case_tac d; case_tac o'; simp add: download_settles_def)
  note pp = inv_chain_pending [OF i c]
  show "promises (step (Ev_settleFile q n (Reject e)) h) q = Some (Rejected e)"
    "downloadPromises (step (Ev_settleFile q n (Reject e)) h) (ckey c) = None"
    using c s n pe by (simp_all add: step_def step_all_def Let_def settle_def)
  {
    assume a: "list_all (\<lambda>d. snd d \<noteq> None) (ds[n := (fst (ds ! n), Some v)])"
    show "promises (step (Ev_settleFile q n (Resolve v)) h) q =
             Some (Resolved (JArray (List.map_filter snd (ds[n := (fst (ds ! n), Some v)]))))"
      "downloadPromises (step (Ev_settleFile q n (Resolve v)) h) (ckey c) = None"
      using c s n pe a by (simp_all add: step_def step_all_def Let_def settle_def)
  }
  {
    assume a: "\<not> list_all (\<lambda>d. snd d \<noteq> None) (ds[n := (fst (ds ! n), Some v)])"
    show "promises (step (Ev_settleFile q n (Resolve v)) h) q = Some Pending"
      "chains (step (Ev_settleFile q n (Resolve v)) h) q =
             Some \<lparr>ckey = ckey c, cstage = PromiseAll (ds[n := (fst (ds ! n), Some v)])\<rparr>"
      using c s n pe a pp by (simp_all add: step_def step_all_def Let_def await_def pd)
  }
qed

section \<open>The scenarios, evaluated\<close>

lemmas eval_defs = initial_def exec_def step_def prefetchPackage_def downloadOrPrefetch_def
  Let_def siteIdOrCurrent_def isDownloading_def package_key_of_def addOngoingDownload_def
  getOngoingDownload_def newPromise_def setDownloading_def loadContents_def step_chain_def
  await_def settle_def call_downloadFn_def setDownloaded_def setPreviousStatusAndReject_def
  storePackageStatus_def setPackagePreviousStatus_def set_status_def setPrevious_def
  restorePrevious_def stored_status_def stored_extra_def stored_previous_def key_trace_def
  networkerrormsg_def quiet_def

lemmas resource_defs = step_all_def step_orphan_def startDownloads_def
  package_download_starts_def download_settles_def pending_downloads_def
  running_downloads_def List.map_filter_def

lemma demo_reachable0: "reachable demo"
  unfolding demo_def by (rule reachable.init)

lemma demo_facts:
  "online demo" "nextPromise demo = 0"
  "siteIdOrCurrent None demo = ''site''"
  "package_key_of 7 ''site'' demo = demo_key"
  "\<not> isDownloading 7 ''site'' demo"
  "key_trace demo_key (trace demo) = []"
  "stored_status (store demo) demo_key = NOT_DOWNLOADED"
  unfolding demo_def demo_key_def
  by (simp_all add: eval_defs)



lemma demo_stale_facts:
  "online demo_stale" "nextPromise demo_stale = 1"
  "siteIdOrCurrent None demo_stale = ''site''"
  "package_key_of 7 ''site'' demo_stale = demo_key"
  "\<not> isDownloading 7 ''site'' demo_stale"
  "stored_status (store demo_stale) demo_key = DOWNLOADING"
  "stored_previous (store demo_stale) demo_key = None"
  unfolding demo_stale_def demo_def demo_key_def
  by (simp_all add: eval_defs)

lemma demo_reachable:
  "reachable demo_in_flight" "reachable demo_downloaded" "reachable demo_stale"
  unfolding demo_in_flight_def demo_downloaded_def demo_stale_def
  by (intro reachable_exec reachable.step demo_reachable0)+

lemma demo_nd: "\<not> isDownloading 7 (siteIdOrCurrent None demo) demo"
  by (simp add: demo_facts)


lemma demo_stale_nd: "\<not> isDownloading 7 (siteIdOrCurrent None demo_stale) demo_stale"
  by (simp add: demo_stale_facts)

lemma demo_rolling_back_facts:
  "chains demo_rolling_back 0 =
     Some \<lparr>ckey = demo_key, cstage = SetPreviousStatusAndReject (JString ''disk full'')\<rparr>"
  "stored_status (store demo_rolling_back) demo_key = DOWNLOADING"
  unfolding demo_rolling_back_def demo_def demo_key_def by (simp_all add: eval_defs)

lemma demo_rolling_back_reachable: "reachable demo_rolling_back"
  unfolding demo_rolling_back_def by (intro reachable_exec demo_reachable0)








lemma demo_downloading_facts:
  "chains demo_downloading 0 =
     Some \<lparr>ckey = demo_key,
           cstage = PromiseAll [(FilesDownload, None), (PackageDownload, None)]\<rparr>"
  "chains (step (Ev_settleFile 0 0 (Resolve (JNumber 1))) demo_downloading) 0 =
     Some \<lparr>ckey = demo_key,
           cstage = PromiseAll [(FilesDownload, Some (JNumber 1)), (PackageDownload, None)]\<rparr>"
  unfolding demo_downloading_def demo_def demo_key_def
  by (simp_all add: eval_defs resource_defs)

lemma demo_downloading_reachable:
  "reachable demo_downloading"
  "reachable (step (Ev_settleFile 0 0 (Resolve (JNumber 1))) demo_downloading)"
  unfolding demo_downloading_def by (intro reachable.step reachable_exec demo_reachable0)+

lemma demo_current: "currentSiteId demo = ''site''" "\<not> isDownloading 7 (currentSiteId demo) demo"
  unfolding demo_def by (simp_all add: eval_defs)

lemma demo_resource_facts:
  "chains demo_resource 0 = Some \<lparr>ckey = demo_key, cstage = LoadContents True None\<rparr>"
  "store demo_resource = Map.empty"
  "store_calls (trace demo_resource) = []"
  unfolding demo_resource_def demo_def demo_key_def
  by (simp_all add: eval_defs store_calls_def)

lemma demo_component_facts:
  "statusObserver demo_component = Some ''site''"
  "data_componentId demo_event = moduleId demo_component"
  "prefetchHandler demo_component = Some (data_component demo_event)"
  "downloadEnabled demo_component"
  "data_status demo_event = Some DOWNLOADED"
  "hasUpdateStatus demo_component"
  "updateStatusCalls demo_component = []"
  "canCheckUpdates demo_component"
  unfolding demo_component_def demo_event_def by (simp_all add: ngOnInit_def)

section \<open>The claims\<close>




text \<open>
  Claim C2, as amended. A call made online for a key that is not in flight starts a
  chain. When the \<open>DOWNLOADING\<close> write resolves, the work function resolves with \<open>R\<close>
  and the \<open>DOWNLOADED\<close> write resolves with \<open>v3\<close>, whatever other events happen in
  between, the promise handed to the caller resolves with \<open>v3\<close>, the value the status
  write resolves with, not with \<open>R\<close>; a second call made online before the first
  settlement is handed the same promise; the work function is called exactly once
  between the two status writes; and the stored status is \<open>DOWNLOADED\<close> with the extra
  payload \<open>R\<close> if it is a string (the empty string otherwise).
\<close>

theorem caller_resolves_with_status_write_result:
  fixes v1 R v3 :: jsvalue
  assumes r: "reachable h" and on: "online h"
    and nd: "\<not> isDownloading m (siteIdOrCurrent sid h) h"
    and q: "quiet (nextPromise h) [(es1, Resolve v1), (es2, Resolve R), (es3, Resolve v3)]"
  defines "p \<equiv> nextPromise h"
  defines "k \<equiv> package_key_of m (siteIdOrCurrent sid h) h"
  defines "h1 \<equiv> snd (prefetchPackage m sid h)"
  defines "hF \<equiv> run (nextPromise h) [(es1, Resolve v1), (es2, Resolve R), (es3, Resolve v3)]
                   (snd (prefetchPackage m sid h))"
  shows "fst (prefetchPackage m sid h) = p \<and>
         (online (exec es1 h1) \<longrightarrow> prefetchPackage m sid (exec es1 h1) = (p, exec es1 h1)) \<and>
         promises hF p = Some (Resolved v3) \<and>
         key_trace k (trace hF) = key_trace k (trace h) @
           [Call_storePackageStatus k DOWNLOADING None, Call_downloadFn k,
            Call_storePackageStatus k DOWNLOADED (Some (string_or_empty R))] \<and>
         stored_status (store hF) k = DOWNLOADED \<and>
         stored_extra (store hF) k = Some (string_or_empty R)"
proof -
  note i = reachable_inv [OF r]
  have f: "\<forall>e\<in>set es1. foreign (nextPromise h) e" using q by (simp add: quiet_def)
  show ?thesis
    unfolding p_def k_def h1_def hF_def
    using prefetchPackage_starts(1) [OF on nd] second_call_joins [OF i on nd f]
      attempt_success [OF i on nd q]
    by simp
qed

text \<open>
  The scenario of the specification: no record, the work resolves with \<open>"v2"\<close>, a second
  call is made at once.
\<close>

theorem caller_resolves_with_status_write_result_witness:
  "reachable demo \<and> online demo \<and> \<not> isDownloading 7 (siteIdOrCurrent None demo) demo \<and>
   quiet (nextPromise demo)
     [([Ev_prefetchPackage 7 None], Resolve JUndefined), ([Ev_tick], Resolve (JString ''v2'')),
      ([], Resolve JUndefined)] \<and>
   fst (prefetchPackage 7 None demo) = 0 \<and>
   prefetchPackage 7 None (exec [Ev_prefetchPackage 7 None] (snd (prefetchPackage 7 None demo))) =
     (0, exec [Ev_prefetchPackage 7 None] (snd (prefetchPackage 7 None demo))) \<and>
   promises
     (run 0 [([Ev_prefetchPackage 7 None], Resolve JUndefined),
             ([Ev_tick], Resolve (JString ''v2'')), ([], Resolve JUndefined)]
        (snd (prefetchPackage 7 None demo))) 0 = Some (Resolved JUndefined) \<and>
   key_trace demo_key
     (trace (run 0 [([Ev_prefetchPackage 7 None], Resolve JUndefined),
                    ([Ev_tick], Resolve (JString ''v2'')), ([], Resolve JUndefined)]
        (snd (prefetchPackage 7 None demo)))) =
     [Call_storePackageStatus demo_key DOWNLOADING None, Call_downloadFn demo_key,
      Call_storePackageStatus demo_key DOWNLOADED (Some ''v2'')] \<and>
   stored_status
     (store (run 0 [([Ev_prefetchPackage 7 None], Resolve JUndefined),
                    ([Ev_tick], Resolve (JString ''v2'')), ([], Resolve JUndefined)]
        (snd (prefetchPackage 7 None demo)))) demo_key = DOWNLOADED \<and>
   stored_extra
     (store (run 0 [([Ev_prefetchPackage 7 None], Resolve JUndefined),
                    ([Ev_tick], Resolve (JString ''v2'')), ([], Resolve JUndefined)]
        (snd (prefetchPackage 7 None demo)))) demo_key = Some ''v2''"
proof -
  have q: "quiet (nextPromise demo)
     [([Ev_prefetchPackage 7 None], Resolve JUndefined), ([Ev_tick], Resolve (JString ''v2'')),
      ([], Resolve JUndefined)]"
    by (simp add: quiet_def)
  have on2: "online (exec [Ev_prefetchPackage 7 None] (snd (prefetchPackage 7 None demo)))"
    unfolding demo_def by (simp add: eval_defs)
  note t = caller_resolves_with_status_write_result [OF demo_reachable0 demo_facts(1) demo_nd q]
  show ?thesis
    using t q on2 demo_reachable0 demo_nd by (simp add: demo_facts)
qed

text \<open>
  The claim as stated fails in its own scenario: both callers hold promise \<open>0\<close>, the work
  function is called once and the stored extra is \<open>"v2"\<close>, but the promise resolves with
  the result of the status write (nothing), not with \<open>"v2"\<close>.
\<close>

theorem caller_is_not_resolved_with_work_result:
  "fst (prefetchPackage 7 None demo) = 0 \<and>
   fst (prefetchPackage 7 None (snd (prefetchPackage 7 None demo))) = 0 \<and>
   key_trace demo_key
     (trace (exec [Ev_prefetchPackage 7 None, Ev_prefetchPackage 7 None,
                   Ev_settle 0 (Resolve JUndefined), Ev_settle 0 (Resolve (JString ''v2'')),
                   Ev_settle 0 (Resolve JUndefined)] demo)) =
     [Call_storePackageStatus demo_key DOWNLOADING None, Call_downloadFn demo_key,
      Call_storePackageStatus demo_key DOWNLOADED (Some ''v2'')] \<and>
   stored_extra
     (store (exec [Ev_prefetchPackage 7 None, Ev_prefetchPackage 7 None,
                   Ev_settle 0 (Resolve JUndefined), Ev_settle 0 (Resolve (JString ''v2'')),
                   Ev_settle 0 (Resolve JUndefined)] demo)) demo_key = Some ''v2'' \<and>
   promises
     (exec [Ev_prefetchPackage 7 None, Ev_prefetchPackage 7 None,
            Ev_settle 0 (Resolve JUndefined), Ev_settle 0 (Resolve (JString ''v2'')),
            Ev_settle 0 (Resolve JUndefined)] demo) 0 = Some (Resolved JUndefined) \<and>
   promises
     (exec [Ev_prefetchPackage 7 None, Ev_prefetchPackage 7 None,
            Ev_settle 0 (Resolve JUndefined), Ev_settle 0 (Resolve (JString ''v2'')),
            Ev_settle 0 (Resolve JUndefined)] demo) 0 \<noteq> Some (Resolved (JString ''v2''))"
  unfolding demo_def demo_key_def by (simp add: eval_defs)




text \<open>
  Claim C4. If the connectivity oracle reports offline at the start of a call of
  \<open>prefetchPackage\<close> or \<open>downloadOrPrefetch\<close>, the promise the call returns is already
  rejected with the network error message, no collaborator is called (the log of calls
  and the running chains are unchanged, so the work function is never invoked), and the
  Status Store and the registry of ongoing downloads are unchanged.
\<close>

theorem offline_call_rejected_untouched:
  assumes "\<not> online h"
  shows "promises (snd (prefetchPackage m sid h)) (fst (prefetchPackage m sid h)) =
           Some (Rejected networkerrormsg) \<and>
         store (snd (prefetchPackage m sid h)) = store h \<and>
         trace (snd (prefetchPackage m sid h)) = trace h \<and>
         chains (snd (prefetchPackage m sid h)) = chains h \<and>
         downloadPromises (snd (prefetchPackage m sid h)) = downloadPromises h \<and>
         promises (snd (downloadOrPrefetch m pf dp h)) (fst (downloadOrPrefetch m pf dp h)) =
           Some (Rejected networkerrormsg) \<and>
         store (snd (downloadOrPrefetch m pf dp h)) = store h \<and>
         trace (snd (downloadOrPrefetch m pf dp h)) = trace h \<and>
         chains (snd (downloadOrPrefetch m pf dp h)) = chains h \<and>
         downloadPromises (snd (downloadOrPrefetch m pf dp h)) = downloadPromises h"
  using assms by (simp add: prefetchPackage_def downloadOrPrefetch_def newPromise_def Let_def)

text \<open>An offline handler: both calls return promise \<open>0\<close>, rejected, and touch nothing.\<close>

theorem offline_call_rejected_untouched_witness:
  "\<not> online (initial False ''site'' ''forum'') \<and>
   promises (snd (prefetchPackage 7 None (initial False ''site'' ''forum''))) 0 =
     Some (Rejected (JString ''core.networkerrormsg'')) \<and>
   store (snd (prefetchPackage 7 None (initial False ''site'' ''forum''))) = Map.empty \<and>
   trace (snd (prefetchPackage 7 None (initial False ''site'' ''forum''))) = [] \<and>
   promises (snd (downloadOrPrefetch 7 True None (initial False ''site'' ''forum''))) 0 =
     Some (Rejected (JString ''core.networkerrormsg'')) \<and>
   store (snd (downloadOrPrefetch 7 True None (initial False ''site'' ''forum''))) = Map.empty \<and>
   trace (snd (downloadOrPrefetch 7 True None (initial False ''site'' ''forum''))) = []"
proof -
  have off: "\<not> online (initial False ''site'' ''forum'')" by (simp add: initial_def)
  have f1: "fst (prefetchPackage 7 None (initial False ''site'' ''forum'')) = 0"
    by (simp add: prefetchPackage_def newPromise_def initial_def Let_def)
  have f2: "fst (downloadOrPrefetch 7 True None (initial False ''site'' ''forum'')) = 0"
    by (simp add: downloadOrPrefetch_def newPromise_def initial_def Let_def)
  have s: "store (initial False ''site'' ''forum'') = Map.empty"
    "trace (initial False ''site'' ''forum'') = []" by (simp_all add: initial_def)
  show ?thesis
    using offline_call_rejected_untouched [OF off, of 7 None True None] off
    by (simp add: f1 f2 s networkerrormsg_def)
qed

text \<open>
  Claim C5. After a call of \<open>prefetchPackage\<close> has succeeded (the \<open>DOWNLOADING\<close> write,
  the work function with result \<open>R\<close> and the \<open>DOWNLOADED\<close> write have resolved, so the
  caller's promise is resolved), the stored extra payload is \<open>R\<close> when \<open>R\<close> is a string and
  the empty string for any other \<open>R\<close>, undefined included; that is the extra argument the
  \<open>DOWNLOADED\<close> write was called with.
\<close>

theorem extra_is_string_result_or_empty:
  fixes v1 R v3 :: jsvalue
  assumes r: "reachable h" and on: "online h"
    and nd: "\<not> isDownloading m (siteIdOrCurrent sid h) h"
    and q: "quiet (nextPromise h) [(es1, Resolve v1), (es2, Resolve R), (es3, Resolve v3)]"
  defines "hF \<equiv> run (nextPromise h) [(es1, Resolve v1), (es2, Resolve R), (es3, Resolve v3)]
                   (snd (prefetchPackage m sid h))"
  defines "k \<equiv> package_key_of m (siteIdOrCurrent sid h) h"
  shows "(\<exists>v. promises hF (fst (prefetchPackage m sid h)) = Some (Resolved v)) \<and>
         stored_extra (store hF) k = (case R of JString s \<Rightarrow> Some s | _ \<Rightarrow> Some []) \<and>
         key_trace k (trace hF) = key_trace k (trace h) @
           [Call_storePackageStatus k DOWNLOADING None, Call_downloadFn k,
            Call_storePackageStatus k DOWNLOADED
              (case R of JString s \<Rightarrow> Some s | _ \<Rightarrow> Some [])]"
proof -
  note i = reachable_inv [OF r]
  have "Some (string_or_empty R) = (case R of JString s \<Rightarrow> Some s | _ \<Rightarrow> Some [])"
    by (cases R) simp_all
  then show ?thesis
    unfolding hF_def k_def
    using prefetchPackage_starts(1) [OF on nd] attempt_success(2,5,6) [OF i on nd q]
    by simp
qed

text \<open>A work function that resolves with \<open>"v2"\<close>, and one that resolves with undefined.\<close>

theorem extra_is_string_result_or_empty_witness:
  "reachable demo \<and> online demo \<and> \<not> isDownloading 7 (siteIdOrCurrent None demo) demo \<and>
   quiet (nextPromise demo)
     [([], Resolve JUndefined), ([Ev_tick], Resolve (JString ''v2'')), ([], Resolve JUndefined)] \<and>
   quiet (nextPromise demo)
     [([], Resolve JUndefined), ([Ev_tick], Resolve JUndefined), ([], Resolve JUndefined)] \<and>
   stored_extra
     (store (run 0 [([], Resolve JUndefined), ([Ev_tick], Resolve (JString ''v2'')),
                    ([], Resolve JUndefined)] (snd (prefetchPackage 7 None demo)))) demo_key =
     Some ''v2'' \<and>
   stored_extra
     (store (run 0 [([], Resolve JUndefined), ([Ev_tick], Resolve JUndefined),
                    ([], Resolve JUndefined)] (snd (prefetchPackage 7 None demo)))) demo_key =
     Some []"
proof -
  have q1: "quiet (nextPromise demo)
     [([], Resolve JUndefined), ([Ev_tick], Resolve (JString ''v2'')), ([], Resolve JUndefined)]"
    by (simp add: quiet_def)
  have q2: "quiet (nextPromise demo)
     [([], Resolve JUndefined), ([Ev_tick], Resolve JUndefined), ([], Resolve JUndefined)]"
    by (simp add: quiet_def)
  note t1 = extra_is_string_result_or_empty [OF demo_reachable0 demo_facts(1) demo_nd q1]
  note t2 = extra_is_string_result_or_empty [OF demo_reachable0 demo_facts(1) demo_nd q2]
  show ?thesis
    using t1 t2 q1 q2 demo_reachable0 demo_nd by (simp add: demo_facts)
qed

text \<open>
  Claim C6, as amended. For a call made online for a key that is not in flight, the calls
  made for the key are, in this order: the \<open>DOWNLOADING\<close> write (the Status Store's
  setPrevious then set) at the call itself; the work function once that write has
  resolved; the \<open>DOWNLOADED\<close> write once the work has resolved; the rollback once the
  work is rejected. When the \<open>DOWNLOADED\<close> write is rejected the rollback follows it, so
  both are issued; when the \<open>DOWNLOADING\<close> write is rejected the work function is skipped
  and the rollback follows at once.
\<close>

theorem attempt_call_order:
  fixes v1 R v3 E e e' :: jsvalue and o2 o3 o4 :: outcome
  assumes r: "reachable h" and on: "online h"
    and nd: "\<not> isDownloading m (siteIdOrCurrent sid h) h"
  defines "p \<equiv> nextPromise h"
  defines "k \<equiv> package_key_of m (siteIdOrCurrent sid h) h"
  defines "h1 \<equiv> snd (prefetchPackage m sid h)"
  shows "key_trace k (trace h1) =
           key_trace k (trace h) @ [Call_storePackageStatus k DOWNLOADING None] \<and>
         (quiet p [(es1, Resolve v1)] \<longrightarrow>
            key_trace k (trace (run p [(es1, Resolve v1)] h1)) =
              key_trace k (trace h) @
                [Call_storePackageStatus k DOWNLOADING None, Call_downloadFn k]) \<and>
         (quiet p [(es1, Resolve v1), (es2, Resolve R), (es3, Resolve v3)] \<longrightarrow>
            key_trace k (trace (run p [(es1, Resolve v1), (es2, Resolve R), (es3, Resolve v3)] h1)) =
              key_trace k (trace h) @
                [Call_storePackageStatus k DOWNLOADING None, Call_downloadFn k,
                 Call_storePackageStatus k DOWNLOADED (Some (string_or_empty R))]) \<and>
         (quiet p [(es1, Resolve v1), (es2, Reject E), (es3, o3)] \<longrightarrow>
            key_trace k (trace (run p [(es1, Resolve v1), (es2, Reject E), (es3, o3)] h1)) =
              key_trace k (trace h) @
                [Call_storePackageStatus k DOWNLOADING None, Call_downloadFn k,
                 Call_setPackagePreviousStatus k]) \<and>
         (quiet p [(es1, Resolve v1), (es2, Resolve R), (es3, Reject e), (es4, o4)] \<longrightarrow>
            key_trace k
              (trace (run p [(es1, Resolve v1), (es2, Resolve R), (es3, Reject e), (es4, o4)] h1)) =
              key_trace k (trace h) @
                [Call_storePackageStatus k DOWNLOADING None, Call_downloadFn k,
                 Call_storePackageStatus k DOWNLOADED (Some (string_or_empty R)),
                 Call_setPackagePreviousStatus k]) \<and>
         (quiet p [(es1, Reject e'), (es2, o2)] \<longrightarrow>
            key_trace k (trace (run p [(es1, Reject e'), (es2, o2)] h1)) =
              key_trace k (trace h) @
                [Call_storePackageStatus k DOWNLOADING None, Call_setPackagePreviousStatus k])"
proof -
  note i = reachable_inv [OF r]
  note st = prefetchPackage_starts [OF on nd]
  have a: "key_trace k (trace h1) =
      key_trace k (trace h) @ [Call_storePackageStatus k DOWNLOADING None]"
    unfolding k_def h1_def by (rule st(6))
  have b: "quiet p [(es1, Resolve v1)] \<longrightarrow>
      key_trace k (trace (run p [(es1, Resolve v1)] h1)) =
        key_trace k (trace h) @ [Call_storePackageStatus k DOWNLOADING None, Call_downloadFn k]"
    unfolding p_def k_def h1_def using attempt_started(6) [OF i on nd] by blast
  have c: "quiet p [(es1, Resolve v1), (es2, Resolve R), (es3, Resolve v3)] \<longrightarrow>
      key_trace k (trace (run p [(es1, Resolve v1), (es2, Resolve R), (es3, Resolve v3)] h1)) =
        key_trace k (trace h) @
          [Call_storePackageStatus k DOWNLOADING None, Call_downloadFn k,
           Call_storePackageStatus k DOWNLOADED (Some (string_or_empty R))]"
    unfolding p_def k_def h1_def using attempt_success(6) [OF i on nd] by blast
  have d: "quiet p [(es1, Resolve v1), (es2, Reject E), (es3, o3)] \<longrightarrow>
      key_trace k (trace (run p [(es1, Resolve v1), (es2, Reject E), (es3, o3)] h1)) =
        key_trace k (trace h) @
          [Call_storePackageStatus k DOWNLOADING None, Call_downloadFn k,
           Call_setPackagePreviousStatus k]"
  proof
    assume q: "quiet p [(es1, Resolve v1), (es2, Reject E), (es3, o3)]"
    note pl = plain_work_fails_any [OF st(2), of v1 E o3]
    show "key_trace k (trace (run p [(es1, Resolve v1), (es2, Reject E), (es3, o3)] h1)) =
        key_trace k (trace h) @
          [Call_storePackageStatus k DOWNLOADING None, Call_downloadFn k,
           Call_setPackagePreviousStatus k]"
      unfolding p_def k_def h1_def
      using attempt_trace [OF i on nd q [unfolded p_def], of "[Call_downloadFn k, Call_setPackagePreviousStatus k]"]
        pl(2,3)
      by (simp add: k_def)
  qed
  have e: "quiet p [(es1, Resolve v1), (es2, Resolve R), (es3, Reject e), (es4, o4)] \<longrightarrow>
      key_trace k
        (trace (run p [(es1, Resolve v1), (es2, Resolve R), (es3, Reject e), (es4, o4)] h1)) =
        key_trace k (trace h) @
          [Call_storePackageStatus k DOWNLOADING None, Call_downloadFn k,
           Call_storePackageStatus k DOWNLOADED (Some (string_or_empty R)),
           Call_setPackagePreviousStatus k]"
  proof
    assume q: "quiet p [(es1, Resolve v1), (es2, Resolve R), (es3, Reject e), (es4, o4)]"
    note pl = plain_write_fails_any [OF st(2), of v1 R e o4]
    show "key_trace k
        (trace (run p [(es1, Resolve v1), (es2, Resolve R), (es3, Reject e), (es4, o4)] h1)) =
        key_trace k (trace h) @
          [Call_storePackageStatus k DOWNLOADING None, Call_downloadFn k,
           Call_storePackageStatus k DOWNLOADED (Some (string_or_empty R)),
           Call_setPackagePreviousStatus k]"
      unfolding p_def k_def h1_def
      using attempt_trace [OF i on nd q [unfolded p_def],
          of "[Call_downloadFn k, Call_storePackageStatus k DOWNLOADED (Some (string_or_empty R)),
               Call_setPackagePreviousStatus k]"]
        pl(2,3)
      by (simp add: k_def)
  qed
  have f: "quiet p [(es1, Reject e'), (es2, o2)] \<longrightarrow>
      key_trace k (trace (run p [(es1, Reject e'), (es2, o2)] h1)) =
        key_trace k (trace h) @
          [Call_storePackageStatus k DOWNLOADING None, Call_setPackagePreviousStatus k]"
  proof
    assume q: "quiet p [(es1, Reject e'), (es2, o2)]"
    note pl = plain_start_fails_any [OF st(2), of e' o2]
    show "key_trace k (trace (run p [(es1, Reject e'), (es2, o2)] h1)) =
        key_trace k (trace h) @
          [Call_storePackageStatus k DOWNLOADING None, Call_setPackagePreviousStatus k]"
      unfolding p_def k_def h1_def
      using attempt_trace [OF i on nd q [unfolded p_def], of "[Call_setPackagePreviousStatus k]"]
        pl(2,3)
      by (simp add: k_def)
  qed
  from a b c d e f show ?thesis by blast
qed

text \<open>The five ways an attempt on module 7 can go, with a clock tick in between.\<close>

theorem attempt_call_order_witness:
  "reachable demo \<and> online demo \<and> \<not> isDownloading 7 (siteIdOrCurrent None demo) demo \<and>
   quiet (nextPromise demo) [([Ev_tick], Resolve JUndefined)] \<and>
   quiet (nextPromise demo)
     [([Ev_tick], Resolve JUndefined), ([], Resolve (JString ''v2'')), ([], Resolve JUndefined)] \<and>
   quiet (nextPromise demo)
     [([Ev_tick], Resolve JUndefined), ([], Reject (JString ''boom'')), ([], Resolve JUndefined)] \<and>
   quiet (nextPromise demo)
     [([Ev_tick], Resolve JUndefined), ([], Resolve (JString ''v2'')),
      ([], Reject (JString ''disk full'')), ([], Resolve JUndefined)] \<and>
   quiet (nextPromise demo) [([Ev_tick], Reject (JString ''disk full'')), ([], Resolve JUndefined)] \<and>
   key_trace demo_key (trace (snd (prefetchPackage 7 None demo))) =
     [Call_storePackageStatus demo_key DOWNLOADING None] \<and>
   key_trace demo_key
     (trace (run 0 [([Ev_tick], Resolve JUndefined)] (snd (prefetchPackage 7 None demo)))) =
     [Call_storePackageStatus demo_key DOWNLOADING None, Call_downloadFn demo_key] \<and>
   key_trace demo_key
     (trace (run 0 [([Ev_tick], Resolve JUndefined), ([], Resolve (JString ''v2'')),
                    ([], Resolve JUndefined)] (snd (prefetchPackage 7 None demo)))) =
     [Call_storePackageStatus demo_key DOWNLOADING None, Call_downloadFn demo_key,
      Call_storePackageStatus demo_key DOWNLOADED (Some ''v2'')] \<and>
   key_trace demo_key
     (trace (run 0 [([Ev_tick], Resolve JUndefined), ([], Reject (JString ''boom'')),
                    ([], Resolve JUndefined)] (snd (prefetchPackage 7 None demo)))) =
     [Call_storePackageStatus demo_key DOWNLOADING None, Call_downloadFn demo_key,
      Call_setPackagePreviousStatus demo_key] \<and>
   key_trace demo_key
     (trace (run 0 [([Ev_tick], Resolve JUndefined), ([], Resolve (JString ''v2'')),
                    ([], Reject (JString ''disk full'')), ([], Resolve JUndefined)]
               (snd (prefetchPackage 7 None demo)))) =
     [Call_storePackageStatus demo_key DOWNLOADING None, Call_downloadFn demo_key,
      Call_storePackageStatus demo_key DOWNLOADED (Some ''v2''),
      Call_setPackagePreviousStatus demo_key] \<and>
   key_trace demo_key
     (trace (run 0 [([Ev_tick], Reject (JString ''disk full'')), ([], Resolve JUndefined)]
               (snd (prefetchPackage 7 None demo)))) =
     [Call_storePackageStatus demo_key DOWNLOADING None, Call_setPackagePreviousStatus demo_key]"
proof -
  have q: "quiet (nextPromise demo) [([Ev_tick], Resolve JUndefined)]"
    "quiet (nextPromise demo)
     [([Ev_tick], Resolve JUndefined), ([], Resolve (JString ''v2'')), ([], Resolve JUndefined)]"
    "quiet (nextPromise demo)
     [([Ev_tick], Resolve JUndefined), ([], Reject (JString ''boom'')), ([], Resolve JUndefined)]"
    "quiet (nextPromise demo)
     [([Ev_tick], Resolve JUndefined), ([], Resolve (JString ''v2'')),
      ([], Reject (JString ''disk full'')), ([], Resolve JUndefined)]"
    "quiet (nextPromise demo) [([Ev_tick], Reject (JString ''disk full'')), ([], Resolve JUndefined)]"
    by (simp_all add: quiet_def)
  note t = attempt_call_order [OF demo_reachable0 demo_facts(1) demo_nd,
      of "[Ev_tick]" JUndefined "[]" "JString ''v2''" "[]" JUndefined "JString ''boom''"
         "Resolve JUndefined" "JString ''disk full''" "[]" "Resolve JUndefined"
         "JString ''disk full''" "Resolve JUndefined"]
  show ?thesis
    using t q demo_reachable0 demo_nd by (simp add: demo_facts)
qed

text \<open>
  The claim as stated fails when a status write is rejected: after a rejected
  \<open>DOWNLOADED\<close> write the invocation has issued both that write and the rollback, and
  after a rejected \<open>DOWNLOADING\<close> write the work function is never called.
\<close>

theorem failed_status_write_issues_both_final_calls:
  "key_trace demo_key
     (trace (exec [Ev_prefetchPackage 7 None, Ev_settle 0 (Resolve JUndefined),
                   Ev_settle 0 (Resolve (JString ''v2'')),
                   Ev_settle 0 (Reject (JString ''disk full'')),
                   Ev_settle 0 (Resolve JUndefined)] demo)) =
     [Call_storePackageStatus demo_key DOWNLOADING None, Call_downloadFn demo_key,
      Call_storePackageStatus demo_key DOWNLOADED (Some ''v2''),
      Call_setPackagePreviousStatus demo_key] \<and>
   length (filter (\<lambda>c. c = Call_storePackageStatus demo_key DOWNLOADED (Some ''v2'') \<or>
                        c = Call_setPackagePreviousStatus demo_key)
     (trace (exec [Ev_prefetchPackage 7 None, Ev_settle 0 (Resolve JUndefined),
                   Ev_settle 0 (Resolve (JString ''v2'')),
                   Ev_settle 0 (Reject (JString ''disk full'')),
                   Ev_settle 0 (Resolve JUndefined)] demo))) = 2 \<and>
   key_trace demo_key
     (trace (exec [Ev_prefetchPackage 7 None, Ev_settle 0 (Reject (JString ''disk full'')),
                   Ev_settle 0 (Resolve JUndefined)] demo)) =
     [Call_storePackageStatus demo_key DOWNLOADING None, Call_setPackagePreviousStatus demo_key] \<and>
   Call_downloadFn demo_key \<notin>
     set (trace (exec [Ev_prefetchPackage 7 None, Ev_settle 0 (Reject (JString ''disk full'')),
                       Ev_settle 0 (Resolve JUndefined)] demo))"
  unfolding demo_def demo_key_def by (simp add: eval_defs)



text \<open>
  Claim C8, as amended. The two variants do the same offline (the same rejected promise,
  the same state) and the same when a download of the key is in flight (the same
  promise, the state as it was), and both register the chain they start under the key,
  with a pending promise. They differ in the status. \<open>prefetchPackage\<close> starts with the
  \<open>DOWNLOADING\<close> write, calls the work function when the write has resolved, and ends
  with the \<open>DOWNLOADED\<close> write or the rollback. \<open>downloadOrPrefetch\<close> calls
  \<open>loadContents\<close> and then \<open>getIntroFiles\<close>, and while these run the record of the key is
  as it was before the call; if either is rejected, or the intro files have no \<open>concat\<close>
  to join them with the content files, the caller is rejected with that error and the
  record is still as it was: nothing is rolled back. Otherwise the downloads are
  started, the package download among them, and the promise settles as their
  \<^verbatim>\<open>Promise.all\<close>: rejected with the first rejection, resolved with the array of results
  when all have resolved. No step of the chain of \<open>downloadOrPrefetch\<close> calls the Status
  Store.
\<close>

theorem variants_share_guard_and_registry:
  fixes v1 v2 R v3 E :: jsvalue and pf :: bool and dp :: "string option" and m :: nat
    and es1 es2 es3 :: "event list"
  assumes r: "reachable h"
  defines "p \<equiv> nextPromise h"
  defines "k \<equiv> package_key_of m (currentSiteId h) h"
  defines "a0 \<equiv> snd (prefetchPackage m None h)"
  defines "r0 \<equiv> snd (downloadOrPrefetch m pf dp h)"
  shows "(\<not> online h \<longrightarrow>
            prefetchPackage m None h = downloadOrPrefetch m pf dp h \<and>
            promises r0 (fst (downloadOrPrefetch m pf dp h)) = Some (Rejected networkerrormsg)) \<and>
         (online h \<and> isDownloading m (currentSiteId h) h \<longrightarrow>
            prefetchPackage m None h = downloadOrPrefetch m pf dp h \<and> r0 = h) \<and>
         (online h \<and> \<not> isDownloading m (currentSiteId h) h \<longrightarrow>
            fst (prefetchPackage m None h) = p \<and> fst (downloadOrPrefetch m pf dp h) = p \<and>
            downloadPromises a0 k = Some p \<and> downloadPromises r0 k = Some p \<and>
            promises a0 p = Some Pending \<and> promises r0 p = Some Pending \<and>
            key_trace k (trace a0) =
              key_trace k (trace h) @ [Call_storePackageStatus k DOWNLOADING None] \<and>
            key_trace k (trace r0) = key_trace k (trace h) @ [Call_loadContents k] \<and>
            store r0 = store h) \<and>
         (online h \<and> \<not> isDownloading m (currentSiteId h) h \<and>
          quiet p [(es1, Resolve v1)] \<longrightarrow>
            stored_status (store (run p [(es1, Resolve v1)] a0)) k = DOWNLOADING \<and>
            key_trace k (trace (run p [(es1, Resolve v1)] a0)) =
              key_trace k (trace h) @
                [Call_storePackageStatus k DOWNLOADING None, Call_downloadFn k] \<and>
            promises (run p [(es1, Resolve v1)] r0) p = Some Pending \<and>
            stored_status (store (run p [(es1, Resolve v1)] r0)) k = stored_status (store h) k \<and>
            stored_previous (store (run p [(es1, Resolve v1)] r0)) k =
              stored_previous (store h) k \<and>
            stored_extra (store (run p [(es1, Resolve v1)] r0)) k = stored_extra (store h) k \<and>
            key_trace k (trace (run p [(es1, Resolve v1)] r0)) =
              key_trace k (trace h) @ [Call_loadContents k, Call_getIntroFiles k]) \<and>
         (online h \<and> \<not> isDownloading m (currentSiteId h) h \<and>
          quiet p [(es1, Resolve v1), (es2, Resolve R), (es3, Resolve v3)] \<longrightarrow>
            key_trace k
              (trace (run p [(es1, Resolve v1), (es2, Resolve R), (es3, Resolve v3)] a0)) =
              key_trace k (trace h) @
                [Call_storePackageStatus k DOWNLOADING None, Call_downloadFn k,
                 Call_storePackageStatus k DOWNLOADED (Some (string_or_empty R))]) \<and>
         (online h \<and> \<not> isDownloading m (currentSiteId h) h \<and>
          quiet p [(es1, Resolve v1), (es2, Reject E), (es3, Resolve v3)] \<longrightarrow>
            promises (run p [(es1, Resolve v1), (es2, Reject E), (es3, Resolve v3)] a0) p =
              Some (Rejected E) \<and>
            key_trace k
              (trace (run p [(es1, Resolve v1), (es2, Reject E), (es3, Resolve v3)] a0)) =
              key_trace k (trace h) @
                [Call_storePackageStatus k DOWNLOADING None, Call_downloadFn k,
                 Call_setPackagePreviousStatus k]) \<and>
         (online h \<and> \<not> isDownloading m (currentSiteId h) h \<and> quiet p [(es1, Reject E)] \<longrightarrow>
            promises (run p [(es1, Reject E)] r0) p = Some (Rejected E) \<and>
            downloadPromises (run p [(es1, Reject E)] r0) k = None \<and>
            stored_status (store (run p [(es1, Reject E)] r0)) k = stored_status (store h) k \<and>
            stored_previous (store (run p [(es1, Reject E)] r0)) k =
              stored_previous (store h) k \<and>
            stored_extra (store (run p [(es1, Reject E)] r0)) k = stored_extra (store h) k \<and>
            key_trace k (trace (run p [(es1, Reject E)] r0)) =
              key_trace k (trace h) @ [Call_loadContents k]) \<and>
         (online h \<and> \<not> isDownloading m (currentSiteId h) h \<and>
          quiet p [(es1, Resolve v1), (es2, Reject E)] \<longrightarrow>
            promises (run p [(es1, Resolve v1), (es2, Reject E)] r0) p = Some (Rejected E) \<and>
            downloadPromises (run p [(es1, Resolve v1), (es2, Reject E)] r0) k = None \<and>
            stored_status (store (run p [(es1, Resolve v1), (es2, Reject E)] r0)) k =
              stored_status (store h) k \<and>
            stored_previous (store (run p [(es1, Resolve v1), (es2, Reject E)] r0)) k =
              stored_previous (store h) k \<and>
            stored_extra (store (run p [(es1, Resolve v1), (es2, Reject E)] r0)) k =
              stored_extra (store h) k \<and>
            key_trace k (trace (run p [(es1, Resolve v1), (es2, Reject E)] r0)) =
              key_trace k (trace h) @ [Call_loadContents k, Call_getIntroFiles k]) \<and>
         (online h \<and> \<not> isDownloading m (currentSiteId h) h \<and>
          quiet p [(es1, Resolve v1), (es2, Resolve v2)] \<and> \<not> truthy dp \<and>
          concat_files v2 (getContentDownloadableFiles v1) = None \<longrightarrow>
            promises (run p [(es1, Resolve v1), (es2, Resolve v2)] r0) p =
              Some (Rejected (JError ''TypeError'')) \<and>
            downloadPromises (run p [(es1, Resolve v1), (es2, Resolve v2)] r0) k = None \<and>
            stored_status (store (run p [(es1, Resolve v1), (es2, Resolve v2)] r0)) k =
              stored_status (store h) k \<and>
            stored_previous (store (run p [(es1, Resolve v1), (es2, Resolve v2)] r0)) k =
              stored_previous (store h) k \<and>
            stored_extra (store (run p [(es1, Resolve v1), (es2, Resolve v2)] r0)) k =
              stored_extra (store h) k \<and>
            key_trace k (trace (run p [(es1, Resolve v1), (es2, Resolve v2)] r0)) =
              key_trace k (trace h) @ [Call_loadContents k, Call_getIntroFiles k]) \<and>
         (online h \<and> \<not> isDownloading m (currentSiteId h) h \<and>
          quiet p [(es1, Resolve v1), (es2, Resolve v2)] \<and> truthy dp \<longrightarrow>
            promises (run p [(es1, Resolve v1), (es2, Resolve v2)] r0) p = Some Pending \<and>
            chains (run p [(es1, Resolve v1), (es2, Resolve v2)] r0) p =
              Some \<lparr>ckey = k,
                    cstage = PromiseAll [(FilesDownload, None), (PackageDownload, None)]\<rparr> \<and>
            key_trace k (trace (run p [(es1, Resolve v1), (es2, Resolve v2)] r0)) =
              key_trace k (trace h) @
                [Call_loadContents k, Call_getIntroFiles k,
                 Call_downloadOrPrefetchFiles k v2 pf,
                 Call_packageDownload k pf (FileList (getContentDownloadableFiles v1)) dp]) \<and>
         (\<forall>fs. online h \<and> \<not> isDownloading m (currentSiteId h) h \<and>
          quiet p [(es1, Resolve v1), (es2, Resolve v2)] \<and> \<not> truthy dp \<and>
          concat_files v2 (getContentDownloadableFiles v1) = Some fs \<longrightarrow>
            promises (run p [(es1, Resolve v1), (es2, Resolve v2)] r0) p = Some Pending \<and>
            chains (run p [(es1, Resolve v1), (es2, Resolve v2)] r0) p =
              Some \<lparr>ckey = k, cstage = PromiseAll [(PackageDownload, None)]\<rparr> \<and>
            key_trace k (trace (run p [(es1, Resolve v1), (es2, Resolve v2)] r0)) =
              key_trace k (trace h) @
                [Call_loadContents k, Call_getIntroFiles k,
                 Call_packageDownload k pf fs None]) \<and>
         (\<forall>q c out i. chains h q = Some c \<and> resource_stage (cstage c) \<longrightarrow>
            store_calls (trace (step (Ev_settle q out) h)) = store_calls (trace h) \<and>
            store_calls (trace (step (Ev_settleFile q i out) h)) = store_calls (trace h)) \<and>
         (\<forall>q c ds i. chains h q = Some c \<and> cstage c = PromiseAll ds \<and> i < length ds \<and>
            snd (ds ! i) = None \<longrightarrow>
            promises (step (Ev_settleFile q i (Reject E)) h) q = Some (Rejected E) \<and>
            downloadPromises (step (Ev_settleFile q i (Reject E)) h) (ckey c) = None \<and>
            (list_all (\<lambda>d. snd d \<noteq> None) (ds[i := (fst (ds ! i), Some R)]) \<longrightarrow>
               promises (step (Ev_settleFile q i (Resolve R)) h) q =
                 Some (Resolved (JArray (List.map_filter snd (ds[i := (fst (ds ! i), Some R)])))) \<and>
               downloadPromises (step (Ev_settleFile q i (Resolve R)) h) (ckey c) = None) \<and>
            (\<not> list_all (\<lambda>d. snd d \<noteq> None) (ds[i := (fst (ds ! i), Some R)]) \<longrightarrow>
               promises (step (Ev_settleFile q i (Resolve R)) h) q = Some Pending \<and>
               chains (step (Ev_settleFile q i (Resolve R)) h) q =
                 Some \<lparr>ckey = ckey c,
                       cstage = PromiseAll (ds[i := (fst (ds ! i), Some R)])\<rparr>))"
proof -
  note i = reachable_inv [OF r]
  have A: "\<not> online h \<longrightarrow>
            prefetchPackage m None h = downloadOrPrefetch m pf dp h \<and>
            promises r0 (fst (downloadOrPrefetch m pf dp h)) = Some (Rejected networkerrormsg)"
    by (simp add: r0_def prefetchPackage_def downloadOrPrefetch_def Let_def newPromise_def)
  have B: "online h \<and> isDownloading m (currentSiteId h) h \<longrightarrow>
            prefetchPackage m None h = downloadOrPrefetch m pf dp h \<and> r0 = h"
    by (simp add: r0_def prefetchPackage_def downloadOrPrefetch_def Let_def
        siteIdOrCurrent_None getOngoingDownload_registered)
  {
    assume on: "online h" and nd: "\<not> isDownloading m (currentSiteId h) h"
    have nd': "\<not> isDownloading m (siteIdOrCurrent None h) h"
      using nd by (simp add: siteIdOrCurrent_None)
    note sa = prefetchPackage_starts [OF on nd', unfolded siteIdOrCurrent_None]
    note sr = downloadOrPrefetch_starts [OF on nd, of pf dp]
    have "fst (prefetchPackage m None h) = p \<and> fst (downloadOrPrefetch m pf dp h) = p \<and>
            downloadPromises a0 k = Some p \<and> downloadPromises r0 k = Some p \<and>
            promises a0 p = Some Pending \<and> promises r0 p = Some Pending \<and>
            key_trace k (trace a0) =
              key_trace k (trace h) @ [Call_storePackageStatus k DOWNLOADING None] \<and>
            key_trace k (trace r0) = key_trace k (trace h) @ [Call_loadContents k] \<and>
            store r0 = store h"
      unfolding p_def k_def a0_def r0_def using sa sr by simp
  }
  note C = this
  {
    assume on: "online h" and nd: "\<not> isDownloading m (currentSiteId h) h"
      and q: "quiet p [(es1, Resolve v1)]"
    have nd': "\<not> isDownloading m (siteIdOrCurrent None h) h"
      using nd by (simp add: siteIdOrCurrent_None)
    note a = attempt_started [OF i on nd' q [unfolded p_def], unfolded siteIdOrCurrent_None]
    note b = resource_loaded [OF i on nd q [unfolded p_def], of pf dp]
    have "stored_status (store (run p [(es1, Resolve v1)] a0)) k = DOWNLOADING \<and>
            key_trace k (trace (run p [(es1, Resolve v1)] a0)) =
              key_trace k (trace h) @
                [Call_storePackageStatus k DOWNLOADING None, Call_downloadFn k] \<and>
            promises (run p [(es1, Resolve v1)] r0) p = Some Pending \<and>
            stored_status (store (run p [(es1, Resolve v1)] r0)) k = stored_status (store h) k \<and>
            stored_previous (store (run p [(es1, Resolve v1)] r0)) k =
              stored_previous (store h) k \<and>
            stored_extra (store (run p [(es1, Resolve v1)] r0)) k = stored_extra (store h) k \<and>
            key_trace k (trace (run p [(es1, Resolve v1)] r0)) =
              key_trace k (trace h) @ [Call_loadContents k, Call_getIntroFiles k]"
      unfolding p_def k_def a0_def r0_def using a(4,6) b(2,4,5,6,7) by simp
  }
  note D = this
  {
    assume on: "online h" and nd: "\<not> isDownloading m (currentSiteId h) h"
      and q: "quiet p [(es1, Resolve v1), (es2, Resolve R), (es3, Resolve v3)]"
    have nd': "\<not> isDownloading m (siteIdOrCurrent None h) h"
      using nd by (simp add: siteIdOrCurrent_None)
    note a = attempt_success [OF i on nd' q [unfolded p_def], unfolded siteIdOrCurrent_None]
    have "key_trace k
              (trace (run p [(es1, Resolve v1), (es2, Resolve R), (es3, Resolve v3)] a0)) =
              key_trace k (trace h) @
                [Call_storePackageStatus k DOWNLOADING None, Call_downloadFn k,
                 Call_storePackageStatus k DOWNLOADED (Some (string_or_empty R))]"
      unfolding p_def k_def a0_def using a(6) by simp
  }
  note F = this
  {
    assume on: "online h" and nd: "\<not> isDownloading m (currentSiteId h) h"
      and q: "quiet p [(es1, Resolve v1), (es2, Reject E), (es3, Resolve v3)]"
    have nd': "\<not> isDownloading m (siteIdOrCurrent None h) h"
      using nd by (simp add: siteIdOrCurrent_None)
    note a = attempt_work_fails [OF i on nd' q [unfolded p_def], unfolded siteIdOrCurrent_None]
    have "promises (run p [(es1, Resolve v1), (es2, Reject E), (es3, Resolve v3)] a0) p =
              Some (Rejected E) \<and>
            key_trace k
              (trace (run p [(es1, Resolve v1), (es2, Reject E), (es3, Resolve v3)] a0)) =
              key_trace k (trace h) @
                [Call_storePackageStatus k DOWNLOADING None, Call_downloadFn k,
                 Call_setPackagePreviousStatus k]"
      unfolding p_def k_def a0_def using a(2,6) by simp
  }
  note G = this
  {
    assume on: "online h" and nd: "\<not> isDownloading m (currentSiteId h) h"
      and q: "quiet p [(es1, Reject E)]"
    note b = resource_load_fails [OF i on nd q [unfolded p_def], of pf dp]
    have "promises (run p [(es1, Reject E)] r0) p = Some (Rejected E) \<and>
            downloadPromises (run p [(es1, Reject E)] r0) k = None \<and>
            stored_status (store (run p [(es1, Reject E)] r0)) k = stored_status (store h) k \<and>
            stored_previous (store (run p [(es1, Reject E)] r0)) k =
              stored_previous (store h) k \<and>
            stored_extra (store (run p [(es1, Reject E)] r0)) k = stored_extra (store h) k \<and>
            key_trace k (trace (run p [(es1, Reject E)] r0)) =
              key_trace k (trace h) @ [Call_loadContents k]"
      unfolding p_def k_def r0_def using b(2-7) by simp
  }
  note H = this
  {
    assume on: "online h" and nd: "\<not> isDownloading m (currentSiteId h) h"
      and q: "quiet p [(es1, Resolve v1), (es2, Reject E)]"
    note b = resource_intro_fails [OF i on nd q [unfolded p_def], of pf dp]
    have "promises (run p [(es1, Resolve v1), (es2, Reject E)] r0) p = Some (Rejected E) \<and>
            downloadPromises (run p [(es1, Resolve v1), (es2, Reject E)] r0) k = None \<and>
            stored_status (store (run p [(es1, Resolve v1), (es2, Reject E)] r0)) k =
              stored_status (store h) k \<and>
            stored_previous (store (run p [(es1, Resolve v1), (es2, Reject E)] r0)) k =
              stored_previous (store h) k \<and>
            stored_extra (store (run p [(es1, Resolve v1), (es2, Reject E)] r0)) k =
              stored_extra (store h) k \<and>
            key_trace k (trace (run p [(es1, Resolve v1), (es2, Reject E)] r0)) =
              key_trace k (trace h) @ [Call_loadContents k, Call_getIntroFiles k]"
      unfolding p_def k_def r0_def using b(2-7) by simp
  }
  note I = this
  {
    assume on: "online h" and nd: "\<not> isDownloading m (currentSiteId h) h"
      and q: "quiet p [(es1, Resolve v1), (es2, Resolve v2)]" and t: "\<not> truthy dp"
      and n: "concat_files v2 (getContentDownloadableFiles v1) = None"
    note b = resource_concat_fails [OF i on nd q [unfolded p_def] t n, of pf]
    have "promises (run p [(es1, Resolve v1), (es2, Resolve v2)] r0) p =
              Some (Rejected (JError ''TypeError'')) \<and>
            downloadPromises (run p [(es1, Resolve v1), (es2, Resolve v2)] r0) k = None \<and>
            stored_status (store (run p [(es1, Resolve v1), (es2, Resolve v2)] r0)) k =
              stored_status (store h) k \<and>
            stored_previous (store (run p [(es1, Resolve v1), (es2, Resolve v2)] r0)) k =
              stored_previous (store h) k \<and>
            stored_extra (store (run p [(es1, Resolve v1), (es2, Resolve v2)] r0)) k =
              stored_extra (store h) k \<and>
            key_trace k (trace (run p [(es1, Resolve v1), (es2, Resolve v2)] r0)) =
              key_trace k (trace h) @ [Call_loadContents k, Call_getIntroFiles k]"
      unfolding p_def k_def r0_def using b(2-7) by simp
  }
  note J = this
  {
    assume on: "online h" and nd: "\<not> isDownloading m (currentSiteId h) h"
      and q: "quiet p [(es1, Resolve v1), (es2, Resolve v2)]" and t: "truthy dp"
    note b = resource_downloads_started [OF i on nd q [unfolded p_def] t, of pf]
    have "promises (run p [(es1, Resolve v1), (es2, Resolve v2)] r0) p = Some Pending \<and>
            chains (run p [(es1, Resolve v1), (es2, Resolve v2)] r0) p =
              Some \<lparr>ckey = k,
                    cstage = PromiseAll [(FilesDownload, None), (PackageDownload, None)]\<rparr> \<and>
            key_trace k (trace (run p [(es1, Resolve v1), (es2, Resolve v2)] r0)) =
              key_trace k (trace h) @
                [Call_loadContents k, Call_getIntroFiles k,
                 Call_downloadOrPrefetchFiles k v2 pf,
                 Call_packageDownload k pf (FileList (getContentDownloadableFiles v1)) dp]"
      unfolding p_def k_def r0_def using b(1,2,4) by simp
  }
  note K = this
  {
    fix fs
    assume on: "online h" and nd: "\<not> isDownloading m (currentSiteId h) h"
      and q: "quiet p [(es1, Resolve v1), (es2, Resolve v2)]" and t: "\<not> truthy dp"
      and n: "concat_files v2 (getContentDownloadableFiles v1) = Some fs"
    note b = resource_download_started [OF i on nd q [unfolded p_def] t n, of pf]
    have "promises (run p [(es1, Resolve v1), (es2, Resolve v2)] r0) p = Some Pending \<and>
            chains (run p [(es1, Resolve v1), (es2, Resolve v2)] r0) p =
              Some \<lparr>ckey = k, cstage = PromiseAll [(PackageDownload, None)]\<rparr> \<and>
            key_trace k (trace (run p [(es1, Resolve v1), (es2, Resolve v2)] r0)) =
              key_trace k (trace h) @
                [Call_loadContents k, Call_getIntroFiles k,
                 Call_packageDownload k pf fs None]"
      unfolding p_def k_def r0_def using b(1,2,4) by simp
  }
  note L = this
  have M: "\<forall>q c out i. chains h q = Some c \<and> resource_stage (cstage c) \<longrightarrow>
            store_calls (trace (step (Ev_settle q out) h)) = store_calls (trace h) \<and>
            store_calls (trace (step (Ev_settleFile q i out) h)) = store_calls (trace h)"
    using resource_step_no_store_call by blast
  have N: "\<forall>q c ds i. chains h q = Some c \<and> cstage c = PromiseAll ds \<and> i < length ds \<and>
            snd (ds ! i) = None \<longrightarrow>
            promises (step (Ev_settleFile q i (Reject E)) h) q = Some (Rejected E) \<and>
            downloadPromises (step (Ev_settleFile q i (Reject E)) h) (ckey c) = None \<and>
            (list_all (\<lambda>d. snd d \<noteq> None) (ds[i := (fst (ds ! i), Some R)]) \<longrightarrow>
               promises (step (Ev_settleFile q i (Resolve R)) h) q =
                 Some (Resolved (JArray (List.map_filter snd (ds[i := (fst (ds ! i), Some R)])))) \<and>
               downloadPromises (step (Ev_settleFile q i (Resolve R)) h) (ckey c) = None) \<and>
            (\<not> list_all (\<lambda>d. snd d \<noteq> None) (ds[i := (fst (ds ! i), Some R)]) \<longrightarrow>
               promises (step (Ev_settleFile q i (Resolve R)) h) q = Some Pending \<and>
               chains (step (Ev_settleFile q i (Resolve R)) h) q =
                 Some \<lparr>ckey = ckey c,
                       cstage = PromiseAll (ds[i := (fst (ds ! i), Some R)])\<rparr>)"
  proof (intro allI impI, elim conjE)
    fix q c ds n
    assume c: "chains h q = Some c" and s: "cstage c = PromiseAll ds" and n: "n < length ds"
      and pe: "snd (ds ! n) = None"
    note t = promise_all_step [OF i c s n pe]
    show "promises (step (Ev_settleFile q n (Reject E)) h) q = Some (Rejected E) \<and>
            downloadPromises (step (Ev_settleFile q n (Reject E)) h) (ckey c) = None \<and>
            (list_all (\<lambda>d. snd d \<noteq> None) (ds[n := (fst (ds ! n), Some R)]) \<longrightarrow>
               promises (step (Ev_settleFile q n (Resolve R)) h) q =
                 Some (Resolved (JArray (List.map_filter snd (ds[n := (fst (ds ! n), Some R)])))) \<and>
               downloadPromises (step (Ev_settleFile q n (Resolve R)) h) (ckey c) = None) \<and>
            (\<not> list_all (\<lambda>d. snd d \<noteq> None) (ds[n := (fst (ds ! n), Some R)]) \<longrightarrow>
               promises (step (Ev_settleFile q n (Resolve R)) h) q = Some Pending \<and>
               chains (step (Ev_settleFile q n (Resolve R)) h) q =
                 Some \<lparr>ckey = ckey c,
                       cstage = PromiseAll (ds[n := (fst (ds ! n), Some R)])\<rparr>)"
      using t(1) [of E] t(2) [of E] t(3,4,5,6) [of R] by blast
  qed
  show ?thesis
    apply (intro conjI)
    subgoal by (rule A)
    subgoal by (rule B)
    subgoal using C by blast
    subgoal using D by blast
    subgoal using F by blast
    subgoal using G by blast
    subgoal using H by blast
    subgoal using I by blast
    subgoal using J by blast
    subgoal using K by blast
    subgoal using L by blast
    subgoal by (rule M)
    subgoal by (rule N)
    done
qed

text \<open>
  Offline; in flight; a fresh start of module 7 and the ways its chains go; a
  settlement of the resource variant; and the two downloads of a \<^verbatim>\<open>Promise.all\<close>.
\<close>

theorem variants_share_guard_and_registry_witness:
  "reachable (step (Ev_setOnline False) demo) \<and> \<not> online (step (Ev_setOnline False) demo) \<and>
   prefetchPackage 7 None (step (Ev_setOnline False) demo) =
     downloadOrPrefetch 7 True None (step (Ev_setOnline False) demo) \<and>
   reachable demo_in_flight \<and> online demo_in_flight \<and>
   isDownloading 7 (currentSiteId demo_in_flight) demo_in_flight \<and>
   prefetchPackage 7 None demo_in_flight = downloadOrPrefetch 7 True None demo_in_flight \<and>
   snd (downloadOrPrefetch 7 True None demo_in_flight) = demo_in_flight \<and>
   reachable demo \<and> online demo \<and> \<not> isDownloading 7 (currentSiteId demo) demo \<and>
   key_trace demo_key (trace (snd (prefetchPackage 7 None demo))) =
     [Call_storePackageStatus demo_key DOWNLOADING None] \<and>
   key_trace demo_key (trace (snd (downloadOrPrefetch 7 True None demo))) =
     [Call_loadContents demo_key] \<and>
   quiet 0 [([Ev_tick], Resolve (JArray []))] \<and>
   stored_status
     (store (run 0 [([Ev_tick], Resolve (JArray []))] (snd (prefetchPackage 7 None demo))))
     demo_key = DOWNLOADING \<and>
   stored_status
     (store (run 0 [([Ev_tick], Resolve (JArray []))] (snd (downloadOrPrefetch 7 True None demo))))
     demo_key = NOT_DOWNLOADED \<and>
   quiet 0 [([Ev_tick], Resolve (JArray [])), ([], Resolve (JString ''v2'')),
            ([], Resolve JUndefined)] \<and>
   key_trace demo_key
     (trace (run 0 [([Ev_tick], Resolve (JArray [])), ([], Resolve (JString ''v2'')),
                    ([], Resolve JUndefined)] (snd (prefetchPackage 7 None demo)))) =
     [Call_storePackageStatus demo_key DOWNLOADING None, Call_downloadFn demo_key,
      Call_storePackageStatus demo_key DOWNLOADED (Some ''v2'')] \<and>
   quiet 0 [([Ev_tick], Resolve (JArray [])), ([], Reject (JString ''boom'')),
            ([], Resolve JUndefined)] \<and>
   key_trace demo_key
     (trace (run 0 [([Ev_tick], Resolve (JArray [])), ([], Reject (JString ''boom'')),
                    ([], Resolve JUndefined)] (snd (prefetchPackage 7 None demo)))) =
     [Call_storePackageStatus demo_key DOWNLOADING None, Call_downloadFn demo_key,
      Call_setPackagePreviousStatus demo_key] \<and>
   quiet 0 [([Ev_tick], Reject (JString ''boom''))] \<and>
   promises (run 0 [([Ev_tick], Reject (JString ''boom''))]
      (snd (downloadOrPrefetch 7 True None demo))) 0 = Some (Rejected (JString ''boom'')) \<and>
   key_trace demo_key
     (trace (run 0 [([Ev_tick], Reject (JString ''boom''))]
        (snd (downloadOrPrefetch 7 True None demo)))) = [Call_loadContents demo_key] \<and>
   quiet 0 [([Ev_tick], Resolve (JArray [])), ([], Reject (JString ''boom''))] \<and>
   promises (run 0 [([Ev_tick], Resolve (JArray [])), ([], Reject (JString ''boom''))]
      (snd (downloadOrPrefetch 7 True None demo))) 0 = Some (Rejected (JString ''boom'')) \<and>
   quiet 0 [([Ev_tick], Resolve (JArray [])), ([], Resolve JUndefined)] \<and>
   \<not> truthy None \<and> concat_files JUndefined (getContentDownloadableFiles (JArray [])) = None \<and>
   promises (run 0 [([Ev_tick], Resolve (JArray [])), ([], Resolve JUndefined)]
      (snd (downloadOrPrefetch 7 True None demo))) 0 = Some (Rejected (JError ''TypeError'')) \<and>
   truthy (Some ''dir'') \<and>
   chains (run 0 [([Ev_tick], Resolve (JArray [])), ([], Resolve JUndefined)]
      (snd (downloadOrPrefetch 7 True (Some ''dir'') demo))) 0 =
     Some \<lparr>ckey = demo_key,
           cstage = PromiseAll [(FilesDownload, None), (PackageDownload, None)]\<rparr> \<and>
   concat_files (JArray [JString ''intro''])
     (getContentDownloadableFiles (JArray [JString ''content''])) =
     Some (FileList [JString ''intro'', JString ''content'']) \<and>
   quiet 0 [([Ev_tick], Resolve (JArray [JString ''content''])),
            ([], Resolve (JArray [JString ''intro'']))] \<and>
   key_trace demo_key
     (trace (run 0 [([Ev_tick], Resolve (JArray [JString ''content''])),
                    ([], Resolve (JArray [JString ''intro'']))]
        (snd (downloadOrPrefetch 7 True None demo)))) =
     [Call_loadContents demo_key, Call_getIntroFiles demo_key,
      Call_packageDownload demo_key True (FileList [JString ''intro'', JString ''content''])
        None] \<and>
   reachable demo_resource \<and>
   chains demo_resource 0 = Some \<lparr>ckey = demo_key, cstage = LoadContents True None\<rparr> \<and>
   resource_stage (LoadContents True None) \<and>
   store_calls (trace (step (Ev_settle 0 (Resolve (JArray []))) demo_resource)) = [] \<and>
   reachable demo_downloading \<and>
   chains demo_downloading 0 =
     Some \<lparr>ckey = demo_key,
           cstage = PromiseAll [(FilesDownload, None), (PackageDownload, None)]\<rparr> \<and>
   promises (step (Ev_settleFile 0 0 (Reject (JString ''boom''))) demo_downloading) 0 =
     Some (Rejected (JString ''boom'')) \<and>
   downloadPromises (step (Ev_settleFile 0 0 (Reject (JString ''boom''))) demo_downloading)
     demo_key = None \<and>
   promises (step (Ev_settleFile 0 0 (Resolve (JNumber 1))) demo_downloading) 0 =
     Some Pending \<and>
   promises
     (step (Ev_settleFile 0 1 (Resolve (JNumber 2)))
        (step (Ev_settleFile 0 0 (Resolve (JNumber 1))) demo_downloading)) 0 =
     Some (Resolved (JArray [JNumber 1, JNumber 2]))"
proof -
  let ?off = "step (Ev_setOnline False) demo"
  have rO: "reachable ?off" by (intro reachable.step demo_reachable0)
  have off: "\<not> online ?off" by (simp add: step_def)
  note a = variants_share_guard_and_registry [OF rO, where m = 7 and pf = True and dp = None,
      THEN conjunct1, rule_format, OF off, THEN conjunct1]
  have d: "online demo_in_flight \<and> isDownloading 7 (currentSiteId demo_in_flight) demo_in_flight"
    unfolding demo_in_flight_def demo_def by (simp add: eval_defs)
  note b = variants_share_guard_and_registry [OF demo_reachable(1),
      where m = 7 and pf = True and dp = None,
      THEN conjunct2, THEN conjunct1, rule_format, OF d]
  have n: "online demo \<and> \<not> isDownloading 7 (currentSiteId demo) demo"
    by (simp add: demo_facts demo_current)
  have k: "package_key_of 7 (currentSiteId demo) demo = demo_key"
    by (simp add: demo_facts demo_current)
  have q: "quiet 0 [([Ev_tick], Resolve (JArray []))]"
    "quiet 0 [([Ev_tick], Resolve (JArray [])), ([], Resolve (JString ''v2'')),
            ([], Resolve JUndefined)]"
    "quiet 0 [([Ev_tick], Resolve (JArray [])), ([], Reject (JString ''boom'')),
            ([], Resolve JUndefined)]"
    "quiet 0 [([Ev_tick], Reject (JString ''boom''))]"
    "quiet 0 [([Ev_tick], Resolve (JArray [])), ([], Reject (JString ''boom''))]"
    "quiet 0 [([Ev_tick], Resolve (JArray [])), ([], Resolve JUndefined)]"
    "quiet 0 [([Ev_tick], Resolve (JArray [JString ''content''])),
            ([], Resolve (JArray [JString ''intro'']))]"
    by (simp_all add: quiet_def)
  note T = variants_share_guard_and_registry [OF demo_reachable0,
      where m = 7 and pf = True and dp = None and ?v1.0 = "JArray []" and ?v2.0 = JUndefined
        and R = "JString ''v2''" and ?v3.0 = JUndefined and E = "JString ''boom''"
        and ?es1.0 = "[Ev_tick]" and ?es2.0 = "[]" and ?es3.0 = "[]",
      unfolded demo_facts(2) k]
  note T3 = T [THEN conjunct2, THEN conjunct2]
  note c3 = T3 [THEN conjunct1, rule_format, OF n]
  note T4 = T3 [THEN conjunct2]
  note c4 = T4 [THEN conjunct1, rule_format, OF conjI [OF conjunct1 [OF n] conjI [OF conjunct2 [OF n] q(1)]]]
  note T5 = T4 [THEN conjunct2]
  note c5 = T5 [THEN conjunct1, rule_format, OF conjI [OF conjunct1 [OF n] conjI [OF conjunct2 [OF n] q(2)]]]
  note T6 = T5 [THEN conjunct2]
  note c6 = T6 [THEN conjunct1, rule_format, OF conjI [OF conjunct1 [OF n] conjI [OF conjunct2 [OF n] q(3)]]]
  note T7 = T6 [THEN conjunct2]
  note c7 = T7 [THEN conjunct1, rule_format, OF conjI [OF conjunct1 [OF n] conjI [OF conjunct2 [OF n] q(4)]]]
  note T8 = T7 [THEN conjunct2]
  note c8 = T8 [THEN conjunct1, rule_format, OF conjI [OF conjunct1 [OF n] conjI [OF conjunct2 [OF n] q(5)]]]
  note T9 = T8 [THEN conjunct2]
  have h9: "online demo \<and> \<not> isDownloading 7 (currentSiteId demo) demo \<and>
      quiet 0 [([Ev_tick], Resolve (JArray [])), ([], Resolve JUndefined)] \<and> \<not> truthy None \<and>
      concat_files JUndefined (getContentDownloadableFiles (JArray [])) = None"
    using n q(6) by simp
  note c9 = T9 [THEN conjunct1, rule_format, OF h9]
  note U = variants_share_guard_and_registry [OF demo_reachable0,
      where m = 7 and pf = True and dp = "Some ''dir''" and ?v1.0 = "JArray []"
        and ?v2.0 = JUndefined and ?es1.0 = "[Ev_tick]" and ?es2.0 = "[]",
      unfolded demo_facts(2) k]
  have h10: "online demo \<and> \<not> isDownloading 7 (currentSiteId demo) demo \<and>
      quiet 0 [([Ev_tick], Resolve (JArray [])), ([], Resolve JUndefined)] \<and> truthy (Some ''dir'')"
    using n q(6) by simp
  note c10 = U [THEN conjunct2, THEN conjunct2, THEN conjunct2, THEN conjunct2, THEN conjunct2,
      THEN conjunct2, THEN conjunct2, THEN conjunct2, THEN conjunct2, THEN conjunct1,
      rule_format, OF h10]
  note V = variants_share_guard_and_registry [OF demo_reachable0,
      where m = 7 and pf = True and dp = None and ?v1.0 = "JArray [JString ''content'']"
        and ?v2.0 = "JArray [JString ''intro'']" and ?es1.0 = "[Ev_tick]" and ?es2.0 = "[]",
      unfolded demo_facts(2) k]
  have h11: "online demo \<and> \<not> isDownloading 7 (currentSiteId demo) demo \<and>
      quiet 0 [([Ev_tick], Resolve (JArray [JString ''content''])),
               ([], Resolve (JArray [JString ''intro'']))] \<and> \<not> truthy None \<and>
      concat_files (JArray [JString ''intro''])
        (getContentDownloadableFiles (JArray [JString ''content''])) =
        Some (FileList [JString ''intro'', JString ''content''])"
    using n q(7) by simp
  note c11 = V [THEN conjunct2, THEN conjunct2, THEN conjunct2, THEN conjunct2, THEN conjunct2,
      THEN conjunct2, THEN conjunct2, THEN conjunct2, THEN conjunct2, THEN conjunct2,
      THEN conjunct1, rule_format, OF h11]
  have rR: "reachable demo_resource"
    unfolding demo_resource_def by (intro reachable.step demo_reachable0)
  have h12: "chains demo_resource 0 = Some \<lparr>ckey = demo_key, cstage = LoadContents True None\<rparr> \<and>
      resource_stage (cstage \<lparr>ckey = demo_key, cstage = LoadContents True None\<rparr>)"
    by (simp add: demo_resource_facts)
  note c12 = variants_share_guard_and_registry [OF rR, where m = 7 and pf = True and dp = None,
      THEN conjunct2, THEN conjunct2, THEN conjunct2, THEN conjunct2, THEN conjunct2,
      THEN conjunct2, THEN conjunct2, THEN conjunct2, THEN conjunct2, THEN conjunct2,
      THEN conjunct2, THEN conjunct1, rule_format, of 0 _ "Resolve (JArray [])" 0, OF h12]
  have h13: "chains demo_downloading 0 =
      Some \<lparr>ckey = demo_key,
            cstage = PromiseAll [(FilesDownload, None), (PackageDownload, None)]\<rparr> \<and>
      cstage \<lparr>ckey = demo_key,
              cstage = PromiseAll [(FilesDownload, None), (PackageDownload, None)]\<rparr> =
        PromiseAll [(FilesDownload, None), (PackageDownload, None)] \<and>
      0 < length [(FilesDownload, None :: jsvalue option), (PackageDownload, None)] \<and>
      snd ([(FilesDownload, None :: jsvalue option), (PackageDownload, None)] ! 0) = None"
    by (simp add: demo_downloading_facts)
  note c13 = variants_share_guard_and_registry [OF demo_downloading_reachable(1),
      where m = 7 and pf = True and dp = None and E = "JString ''boom''" and R = "JNumber 1",
      THEN conjunct2, THEN conjunct2, THEN conjunct2, THEN conjunct2, THEN conjunct2,
      THEN conjunct2, THEN conjunct2, THEN conjunct2, THEN conjunct2, THEN conjunct2,
      THEN conjunct2, THEN conjunct2, rule_format, OF h13]
  have h14: "chains (step (Ev_settleFile 0 0 (Resolve (JNumber 1))) demo_downloading) 0 =
      Some \<lparr>ckey = demo_key,
            cstage = PromiseAll [(FilesDownload, Some (JNumber 1)), (PackageDownload, None)]\<rparr> \<and>
      cstage \<lparr>ckey = demo_key,
              cstage = PromiseAll [(FilesDownload, Some (JNumber 1)), (PackageDownload, None)]\<rparr> =
        PromiseAll [(FilesDownload, Some (JNumber 1)), (PackageDownload, None)] \<and>
      1 < length [(FilesDownload, Some (JNumber 1)), (PackageDownload, None)] \<and>
      snd ([(FilesDownload, Some (JNumber 1)), (PackageDownload, None)] ! 1) = None"
    by (simp add: demo_downloading_facts)
  note c14 = variants_share_guard_and_registry [OF demo_downloading_reachable(2),
      where m = 7 and pf = True and dp = None and E = "JString ''boom''" and R = "JNumber 2",
      THEN conjunct2, THEN conjunct2, THEN conjunct2, THEN conjunct2, THEN conjunct2,
      THEN conjunct2, THEN conjunct2, THEN conjunct2, THEN conjunct2, THEN conjunct2,
      THEN conjunct2, THEN conjunct2, rule_format, OF h14]
  have kt: "key_trace demo_key (trace demo) = []" by (rule demo_facts(6))
  have ss: "stored_status (store demo) demo_key = NOT_DOWNLOADED" by (rule demo_facts(7))
  have sc: "store_calls (trace demo_resource) = []" by (rule demo_resource_facts(3))
  show ?thesis
    using rO off a d b n c3 c4 c5 c6 c7 c8 c9 c10 c11 c12 c13 c14 q h9 h10 h11 h12 rR
      demo_reachable(1) demo_reachable0 demo_downloading_reachable(1) demo_downloading_facts(1)
    by (simp add: kt ss sc List.map_filter_def)
qed

text \<open>
  The claim as stated fails: the two variants do not make the same status transitions.
  With the module marked \<open>DOWNLOADING\<close> by a download that a restart has cut off, an
  attempt of the activity variant whose work is rejected with \<open>"boom"\<close> rolls the status
  back to \<open>NOT_DOWNLOADED\<close>; an attempt of the resource variant whose \<open>loadContents\<close> is
  rejected with \<open>"boom"\<close> rejects its caller in the same way but touches no status: it
  calls \<open>loadContents\<close> and nothing else, and the module stays \<open>DOWNLOADING\<close>, with
  no download running. And from a fresh start, when the first call of the chain has
  resolved, the activity variant has marked the module \<open>DOWNLOADING\<close> and the resource
  variant has not.
\<close>

theorem resource_variant_leaves_stale_downloading:
  "stored_status (store demo_stale) demo_key = DOWNLOADING \<and>
   \<not> isDownloading 7 ''site'' demo_stale \<and>
   promises
     (exec [Ev_prefetchPackage 7 None, Ev_settle 1 (Resolve JUndefined),
            Ev_settle 1 (Reject (JString ''boom'')), Ev_settle 1 (Resolve JUndefined)]
        demo_stale) 1 = Some (Rejected (JString ''boom'')) \<and>
   stored_status
     (store (exec [Ev_prefetchPackage 7 None, Ev_settle 1 (Resolve JUndefined),
                   Ev_settle 1 (Reject (JString ''boom'')), Ev_settle 1 (Resolve JUndefined)]
        demo_stale)) demo_key = NOT_DOWNLOADED \<and>
   promises
     (exec [Ev_downloadOrPrefetch 7 True None, Ev_settle 1 (Reject (JString ''boom''))]
        demo_stale) 1 = Some (Rejected (JString ''boom'')) \<and>
   stored_status
     (store (exec [Ev_downloadOrPrefetch 7 True None, Ev_settle 1 (Reject (JString ''boom''))]
        demo_stale)) demo_key = DOWNLOADING \<and>
   running_downloads demo_key
     (exec [Ev_downloadOrPrefetch 7 True None, Ev_settle 1 (Reject (JString ''boom''))]
        demo_stale) = [] \<and>
   key_trace demo_key (trace demo_stale) =
     [Call_storePackageStatus demo_key DOWNLOADING None, Call_downloadFn demo_key] \<and>
   key_trace demo_key
     (trace (exec [Ev_prefetchPackage 7 None, Ev_settle 1 (Resolve JUndefined),
                   Ev_settle 1 (Reject (JString ''boom'')), Ev_settle 1 (Resolve JUndefined)]
        demo_stale)) =
     [Call_storePackageStatus demo_key DOWNLOADING None, Call_downloadFn demo_key,
      Call_storePackageStatus demo_key DOWNLOADING None, Call_downloadFn demo_key,
      Call_setPackagePreviousStatus demo_key] \<and>
   key_trace demo_key
     (trace (exec [Ev_downloadOrPrefetch 7 True None, Ev_settle 1 (Reject (JString ''boom''))]
        demo_stale)) =
     [Call_storePackageStatus demo_key DOWNLOADING None, Call_downloadFn demo_key,
      Call_loadContents demo_key] \<and>
   stored_status
     (store (exec [Ev_prefetchPackage 7 None, Ev_settle 0 (Resolve JUndefined)] demo)) demo_key =
     DOWNLOADING \<and>
   key_trace demo_key
     (trace (exec [Ev_prefetchPackage 7 None, Ev_settle 0 (Resolve JUndefined)] demo)) =
     [Call_storePackageStatus demo_key DOWNLOADING None, Call_downloadFn demo_key] \<and>
   stored_status
     (store (exec [Ev_downloadOrPrefetch 7 True None, Ev_settle 0 (Resolve (JArray []))] demo))
     demo_key = NOT_DOWNLOADED \<and>
   key_trace demo_key
     (trace (exec [Ev_downloadOrPrefetch 7 True None, Ev_settle 0 (Resolve (JArray []))] demo)) =
     [Call_loadContents demo_key, Call_getIntroFiles demo_key]"
  unfolding demo_stale_def demo_def demo_key_def
  by (simp add: eval_defs resource_defs)

text \<open>
  Claim C9, as amended. The observer's callback reacts to every broadcast for its module
  and its handler's component: with downloads enabled, a broadcast status sets the
  three display flags from that status alone and calls \<open>updateStatus\<close> (when defined)
  with it. Nothing is compared with a status seen before: a second broadcast of the
  same status leaves the flags as they are and calls \<open>updateStatus\<close> a second time.
\<close>

theorem observer_reacts_to_every_broadcast:
  assumes mid: "data_componentId d = moduleId c"
    and ph: "prefetchHandler c = Some (data_component d)"
    and en: "downloadEnabled c"
    and st: "data_status d = Some s"
  shows "updateStatusCalls (onPackageStatusChanged d c) =
           (if hasUpdateStatus c then updateStatusCalls c @ [Some s] else updateStatusCalls c) \<and>
         spinner (onPackageStatusChanged d c) = Some (s = DOWNLOADING) \<and>
         showDownload (onPackageStatusChanged d c) = Some (s = NOT_DOWNLOADED) \<and>
         showRefresh (onPackageStatusChanged d c) =
           Some (s = OUTDATED \<or> (\<not> canCheckUpdates c \<and> s = DOWNLOADED)) \<and>
         updateStatusCalls (onPackageStatusChanged d (onPackageStatusChanged d c)) =
           (if hasUpdateStatus c then updateStatusCalls c @ [Some s, Some s]
            else updateStatusCalls c) \<and>
         spinner (onPackageStatusChanged d (onPackageStatusChanged d c)) =
           spinner (onPackageStatusChanged d c) \<and>
         showDownload (onPackageStatusChanged d (onPackageStatusChanged d c)) =
           showDownload (onPackageStatusChanged d c) \<and>
         showRefresh (onPackageStatusChanged d (onPackageStatusChanged d c)) =
           showRefresh (onPackageStatusChanged d c)"
  using assms by (simp add: onPackageStatusChanged_def showStatus_def)

text \<open>The module component of module 7 receives \<open>DOWNLOADED\<close>.\<close>

theorem observer_reacts_to_every_broadcast_witness:
  "statusObserver demo_component = Some ''site'' \<and>
   data_componentId demo_event = moduleId demo_component \<and>
   prefetchHandler demo_component = Some (data_component demo_event) \<and>
   downloadEnabled demo_component \<and>
   data_status demo_event = Some DOWNLOADED \<and>
   updateStatusCalls (onPackageStatusChanged demo_event demo_component) = [Some DOWNLOADED] \<and>
   spinner (onPackageStatusChanged demo_event demo_component) = Some False \<and>
   showDownload (onPackageStatusChanged demo_event demo_component) = Some False \<and>
   showRefresh (onPackageStatusChanged demo_event demo_component) = Some False \<and>
   spinner (onPackageStatusChanged demo_event (onPackageStatusChanged demo_event demo_component)) =
     spinner (onPackageStatusChanged demo_event demo_component) \<and>
   showDownload
     (onPackageStatusChanged demo_event (onPackageStatusChanged demo_event demo_component)) =
     showDownload (onPackageStatusChanged demo_event demo_component) \<and>
   showRefresh
     (onPackageStatusChanged demo_event (onPackageStatusChanged demo_event demo_component)) =
     showRefresh (onPackageStatusChanged demo_event demo_component)"
  using observer_reacts_to_every_broadcast [OF demo_component_facts(2,3,4,5)]
    demo_component_facts
  by simp

text \<open>
  The claim as stated fails: the same status broadcast twice with no change in between
  makes the observer call \<open>updateStatus\<close> twice.
\<close>

theorem repeated_status_triggers_update_again:
  "statusObserver demo_component = Some ''site'' \<and>
   updateStatusCalls demo_component = [] \<and>
   updateStatusCalls (onPackageStatusChanged demo_event demo_component) = [Some DOWNLOADED] \<and>
   updateStatusCalls
     (onPackageStatusChanged demo_event (onPackageStatusChanged demo_event demo_component)) =
     [Some DOWNLOADED, Some DOWNLOADED] \<and>
   length (updateStatusCalls
     (onPackageStatusChanged demo_event (onPackageStatusChanged demo_event demo_component))) \<noteq>
   length (updateStatusCalls (onPackageStatusChanged demo_event demo_component))"
  unfolding demo_component_def demo_event_def
  by (simp add: ngOnInit_def onPackageStatusChanged_def showStatus_def)

text \<open>
  Claim C10. In every reachable state, when the status write a chain of
  \<open>prefetchPackage\<close> ends with (the \<open>DOWNLOADED\<close> write or the rollback) resolves, the
  chain ends, its promise settles and the stored status of its key is not \<open>DOWNLOADING\<close>.
  In particular, when the \<open>DOWNLOADED\<close> write itself is rejected with \<open>e\<close> after the work
  has resolved, the failure handler runs the rollback, and when that resolves the
  caller's promise is rejected with \<open>e\<close> and the status is back at the value from before
  the attempt (for a stale \<open>DOWNLOADING\<close> record, at the status captured before).
\<close>

theorem settled_status_never_downloading:
  fixes v1 R e v4 v :: jsvalue
  assumes r: "reachable h"
  shows "(\<forall>q c ex err. chains h q = Some c \<and>
            (cstage c = SetDownloaded ex \<or> cstage c = SetPreviousStatusAndReject err) \<longrightarrow>
            chains (step (Ev_settle q (Resolve v)) h) q = None \<and>
            (promises (step (Ev_settle q (Resolve v)) h) q = Some (Resolved v) \<or>
             promises (step (Ev_settle q (Resolve v)) h) q = Some (Rejected err)) \<and>
            stored_status (store (step (Ev_settle q (Resolve v)) h)) (ckey c) \<noteq> DOWNLOADING) \<and>
         (online h \<and> \<not> isDownloading m (siteIdOrCurrent sid h) h \<and>
          quiet (nextPromise h)
            [(es1, Resolve v1), (es2, Resolve R), (es3, Reject e), (es4, Resolve v4)] \<longrightarrow>
            promises
              (run (nextPromise h)
                 [(es1, Resolve v1), (es2, Resolve R), (es3, Reject e), (es4, Resolve v4)]
                 (snd (prefetchPackage m sid h)))
              (fst (prefetchPackage m sid h)) = Some (Rejected e) \<and>
            stored_status
              (store (run (nextPromise h)
                 [(es1, Resolve v1), (es2, Resolve R), (es3, Reject e), (es4, Resolve v4)]
                 (snd (prefetchPackage m sid h))))
              (package_key_of m (siteIdOrCurrent sid h) h) =
              (if stored_status (store h) (package_key_of m (siteIdOrCurrent sid h) h) = DOWNLOADING
               then (case stored_previous (store h) (package_key_of m (siteIdOrCurrent sid h) h) of
                       None \<Rightarrow> NOT_DOWNLOADED | Some s \<Rightarrow> s)
               else stored_status (store h) (package_key_of m (siteIdOrCurrent sid h) h)) \<and>
            stored_status
              (store (run (nextPromise h)
                 [(es1, Resolve v1), (es2, Resolve R), (es3, Reject e), (es4, Resolve v4)]
                 (snd (prefetchPackage m sid h))))
              (package_key_of m (siteIdOrCurrent sid h) h) \<noteq> DOWNLOADING \<and>
            key_trace (package_key_of m (siteIdOrCurrent sid h) h)
              (trace (run (nextPromise h)
                 [(es1, Resolve v1), (es2, Resolve R), (es3, Reject e), (es4, Resolve v4)]
                 (snd (prefetchPackage m sid h)))) =
              key_trace (package_key_of m (siteIdOrCurrent sid h) h) (trace h) @
                [Call_storePackageStatus (package_key_of m (siteIdOrCurrent sid h) h) DOWNLOADING None,
                 Call_downloadFn (package_key_of m (siteIdOrCurrent sid h) h),
                 Call_storePackageStatus (package_key_of m (siteIdOrCurrent sid h) h) DOWNLOADED
                   (Some (string_or_empty R)),
                 Call_setPackagePreviousStatus (package_key_of m (siteIdOrCurrent sid h) h)])"
proof -
  note i = reachable_inv [OF r]
  note ok = inv_store_ok [OF i]
  have one: "\<forall>q c ex err. chains h q = Some c \<and>
            (cstage c = SetDownloaded ex \<or> cstage c = SetPreviousStatusAndReject err) \<longrightarrow>
            chains (step (Ev_settle q (Resolve v)) h) q = None \<and>
            (promises (step (Ev_settle q (Resolve v)) h) q = Some (Resolved v) \<or>
             promises (step (Ev_settle q (Resolve v)) h) q = Some (Rejected err)) \<and>
            stored_status (store (step (Ev_settle q (Resolve v)) h)) (ckey c) \<noteq> DOWNLOADING"
  proof (intro allI impI, elim conjE)
    fix q c ex err
    assume c: "chains h q = Some c"
      and s: "cstage c = SetDownloaded ex \<or> cstage c = SetPreviousStatusAndReject err"
    have np: "stored_previous (store h) (ckey c) \<noteq> Some DOWNLOADING"
      using ok by (rule store_ok_previous)
    from s show "chains (step (Ev_settle q (Resolve v)) h) q = None \<and>
            (promises (step (Ev_settle q (Resolve v)) h) q = Some (Resolved v) \<or>
             promises (step (Ev_settle q (Resolve v)) h) q = Some (Rejected err)) \<and>
            stored_status (store (step (Ev_settle q (Resolve v)) h)) (ckey c) \<noteq> DOWNLOADING"
    proof
      assume "cstage c = SetDownloaded ex"
      with c show ?thesis
        by (simp add: step_def step_chain_def Let_def settle_result status_after_downloaded)
    next
      assume "cstage c = SetPreviousStatusAndReject err"
      with c np show ?thesis
        by (auto simp: step_def step_chain_def Let_def settle_result status_after_restore
            split: option.splits)
    qed
  qed
  have two: "online h \<and> \<not> isDownloading m (siteIdOrCurrent sid h) h \<and>
          quiet (nextPromise h)
            [(es1, Resolve v1), (es2, Resolve R), (es3, Reject e), (es4, Resolve v4)] \<longrightarrow>
            promises
              (run (nextPromise h)
                 [(es1, Resolve v1), (es2, Resolve R), (es3, Reject e), (es4, Resolve v4)]
                 (snd (prefetchPackage m sid h)))
              (fst (prefetchPackage m sid h)) = Some (Rejected e) \<and>
            stored_status
              (store (run (nextPromise h)
                 [(es1, Resolve v1), (es2, Resolve R), (es3, Reject e), (es4, Resolve v4)]
                 (snd (prefetchPackage m sid h))))
              (package_key_of m (siteIdOrCurrent sid h) h) =
              (if stored_status (store h) (package_key_of m (siteIdOrCurrent sid h) h) = DOWNLOADING
               then (case stored_previous (store h) (package_key_of m (siteIdOrCurrent sid h) h) of
                       None \<Rightarrow> NOT_DOWNLOADED | Some s \<Rightarrow> s)
               else stored_status (store h) (package_key_of m (siteIdOrCurrent sid h) h)) \<and>
            stored_status
              (store (run (nextPromise h)
                 [(es1, Resolve v1), (es2, Resolve R), (es3, Reject e), (es4, Resolve v4)]
                 (snd (prefetchPackage m sid h))))
              (package_key_of m (siteIdOrCurrent sid h) h) \<noteq> DOWNLOADING \<and>
            key_trace (package_key_of m (siteIdOrCurrent sid h) h)
              (trace (run (nextPromise h)
                 [(es1, Resolve v1), (es2, Resolve R), (es3, Reject e), (es4, Resolve v4)]
                 (snd (prefetchPackage m sid h)))) =
              key_trace (package_key_of m (siteIdOrCurrent sid h) h) (trace h) @
                [Call_storePackageStatus (package_key_of m (siteIdOrCurrent sid h) h) DOWNLOADING None,
                 Call_downloadFn (package_key_of m (siteIdOrCurrent sid h) h),
                 Call_storePackageStatus (package_key_of m (siteIdOrCurrent sid h) h) DOWNLOADED
                   (Some (string_or_empty R)),
                 Call_setPackagePreviousStatus (package_key_of m (siteIdOrCurrent sid h) h)]"
  proof (intro impI, elim conjE)
    assume on: "online h" and nd: "\<not> isDownloading m (siteIdOrCurrent sid h) h"
      and q: "quiet (nextPromise h)
            [(es1, Resolve v1), (es2, Resolve R), (es3, Reject e), (es4, Resolve v4)]"
    note a = attempt_write_fails [OF i on nd q]
    have np: "stored_previous (store h) (package_key_of m (siteIdOrCurrent sid h) h) \<noteq>
        Some DOWNLOADING"
      using ok by (rule store_ok_previous)
    then have nd': "stored_status
              (store (run (nextPromise h)
                 [(es1, Resolve v1), (es2, Resolve R), (es3, Reject e), (es4, Resolve v4)]
                 (snd (prefetchPackage m sid h))))
              (package_key_of m (siteIdOrCurrent sid h) h) \<noteq> DOWNLOADING"
      unfolding a(4) by (auto split: option.splits)
    show "promises
              (run (nextPromise h)
                 [(es1, Resolve v1), (es2, Resolve R), (es3, Reject e), (es4, Resolve v4)]
                 (snd (prefetchPackage m sid h)))
              (fst (prefetchPackage m sid h)) = Some (Rejected e) \<and>
            stored_status
              (store (run (nextPromise h)
                 [(es1, Resolve v1), (es2, Resolve R), (es3, Reject e), (es4, Resolve v4)]
                 (snd (prefetchPackage m sid h))))
              (package_key_of m (siteIdOrCurrent sid h) h) =
              (if stored_status (store h) (package_key_of m (siteIdOrCurrent sid h) h) = DOWNLOADING
               then (case stored_previous (store h) (package_key_of m (siteIdOrCurrent sid h) h) of
                       None \<Rightarrow> NOT_DOWNLOADED | Some s \<Rightarrow> s)
               else stored_status (store h) (package_key_of m (siteIdOrCurrent sid h) h)) \<and>
            stored_status
              (store (run (nextPromise h)
                 [(es1, Resolve v1), (es2, Resolve R), (es3, Reject e), (es4, Resolve v4)]
                 (snd (prefetchPackage m sid h))))
              (package_key_of m (siteIdOrCurrent sid h) h) \<noteq> DOWNLOADING \<and>
            key_trace (package_key_of m (siteIdOrCurrent sid h) h)
              (trace (run (nextPromise h)
                 [(es1, Resolve v1), (es2, Resolve R), (es3, Reject e), (es4, Resolve v4)]
                 (snd (prefetchPackage m sid h)))) =
              key_trace (package_key_of m (siteIdOrCurrent sid h) h) (trace h) @
                [Call_storePackageStatus (package_key_of m (siteIdOrCurrent sid h) h) DOWNLOADING None,
                 Call_downloadFn (package_key_of m (siteIdOrCurrent sid h) h),
                 Call_storePackageStatus (package_key_of m (siteIdOrCurrent sid h) h) DOWNLOADED
                   (Some (string_or_empty R)),
                 Call_setPackagePreviousStatus (package_key_of m (siteIdOrCurrent sid h) h)]"
      using prefetchPackage_starts(1) [OF on nd] a(2) a(4) a(6) nd' by simp
  qed
  from one two show ?thesis by blast
qed

text \<open>A rejected \<open>DOWNLOADED\<close> write for module 7, then the rollback.\<close>

theorem settled_status_never_downloading_witness:
  "reachable demo_rolling_back \<and>
   chains demo_rolling_back 0 =
     Some \<lparr>ckey = demo_key, cstage = SetPreviousStatusAndReject (JString ''disk full'')\<rparr> \<and>
   stored_status (store demo_rolling_back) demo_key = DOWNLOADING \<and>
   chains (step (Ev_settle 0 (Resolve JUndefined)) demo_rolling_back) 0 = None \<and>
   promises (step (Ev_settle 0 (Resolve JUndefined)) demo_rolling_back) 0 =
     Some (Rejected (JString ''disk full'')) \<and>
   stored_status (store (step (Ev_settle 0 (Resolve JUndefined)) demo_rolling_back)) demo_key \<noteq>
     DOWNLOADING \<and>
   reachable demo \<and> online demo \<and> \<not> isDownloading 7 (siteIdOrCurrent None demo) demo \<and>
   quiet (nextPromise demo)
     [([], Resolve JUndefined), ([Ev_tick], Resolve (JString ''v2'')),
      ([], Reject (JString ''disk full'')), ([], Resolve JUndefined)] \<and>
   promises
     (run (nextPromise demo)
        [([], Resolve JUndefined), ([Ev_tick], Resolve (JString ''v2'')),
         ([], Reject (JString ''disk full'')), ([], Resolve JUndefined)]
        (snd (prefetchPackage 7 None demo))) (fst (prefetchPackage 7 None demo)) =
     Some (Rejected (JString ''disk full'')) \<and>
   stored_status
     (store (run (nextPromise demo)
        [([], Resolve JUndefined), ([Ev_tick], Resolve (JString ''v2'')),
         ([], Reject (JString ''disk full'')), ([], Resolve JUndefined)]
        (snd (prefetchPackage 7 None demo)))) demo_key = NOT_DOWNLOADED"
proof -
  have q: "quiet (nextPromise demo)
     [([], Resolve JUndefined), ([Ev_tick], Resolve (JString ''v2'')),
      ([], Reject (JString ''disk full'')), ([], Resolve JUndefined)]"
    by (simp add: quiet_def)
  note t1 = settled_status_never_downloading [OF demo_rolling_back_reachable,
      of JUndefined, THEN conjunct1, rule_format, of 0 _ undefined "JString ''disk full''"]
  have a: "chains (step (Ev_settle 0 (Resolve JUndefined)) demo_rolling_back) 0 = None \<and>
     (promises (step (Ev_settle 0 (Resolve JUndefined)) demo_rolling_back) 0 =
        Some (Resolved JUndefined) \<or>
      promises (step (Ev_settle 0 (Resolve JUndefined)) demo_rolling_back) 0 =
        Some (Rejected (JString ''disk full''))) \<and>
     stored_status (store (step (Ev_settle 0 (Resolve JUndefined)) demo_rolling_back))
       (ckey \<lparr>ckey = demo_key, cstage = SetPreviousStatusAndReject (JString ''disk full'')\<rparr>) \<noteq>
       DOWNLOADING"
    by (rule t1) (simp add: demo_rolling_back_facts)
  have b: "promises (step (Ev_settle 0 (Resolve JUndefined)) demo_rolling_back) 0 =
     Some (Rejected (JString ''disk full''))"
    unfolding demo_rolling_back_def demo_def by (simp add: eval_defs)
  note t2 = settled_status_never_downloading [OF demo_reachable0, of JUndefined,
      THEN conjunct2, rule_format, of 7 None "[]" JUndefined "[Ev_tick]" "JString ''v2''" "[]"
        "JString ''disk full''" "[]" JUndefined]
  have c: "promises
     (run (nextPromise demo)
        [([], Resolve JUndefined), ([Ev_tick], Resolve (JString ''v2'')),
         ([], Reject (JString ''disk full'')), ([], Resolve JUndefined)]
        (snd (prefetchPackage 7 None demo))) (fst (prefetchPackage 7 None demo)) =
     Some (Rejected (JString ''disk full'')) \<and>
   stored_status
     (store (run (nextPromise demo)
        [([], Resolve JUndefined), ([Ev_tick], Resolve (JString ''v2'')),
         ([], Reject (JString ''disk full'')), ([], Resolve JUndefined)]
        (snd (prefetchPackage 7 None demo)))) demo_key = NOT_DOWNLOADED"
    using t2 q demo_nd by (simp add: demo_facts)
  show ?thesis
    using a b c q demo_rolling_back_reachable demo_rolling_back_facts demo_reachable0 demo_nd
      demo_facts(1)
    by simp
qed

end
